theory Spec2Isabelle
  imports Complex_Main
begin

section \<open>JavaScript values and containers\<close>

text \<open>
  The engine of \<^verbatim>\<open>src/index.ts\<close> computes with JavaScript numbers. They are modelled
  as real numbers: every finite double is a real, and the engine's arithmetic is exact.
  The rounding of double arithmetic is written out where the order of operations is in
  question (the damage modifiers, \<open>applyDamageModifiers_with\<close>); \<^verbatim>\<open>NaN\<close> is a value where
  the code can meet one (proc configuration); the infinities are left out. Counters are
  \<open>nat\<close>, rounded damage is \<open>int\<close>.

  Proc configuration objects are dynamically typed (\<^verbatim>\<open>any\<close>), so their field values are
  \<open>jsval\<close>s. A value of type \<^verbatim>\<open>number\<close> is a real number (\<open>JNum\<close>) or \<^verbatim>\<open>NaN\<close> (\<open>JNaN\<close>);
  the two infinities are not modelled. A string carries its numeric reading (what
  \<^verbatim>\<open>Number(s)\<close> returns, \<open>None\<close> for \<^verbatim>\<open>NaN\<close>), since string parsing is the language's and
  not the engine's.
\<close>

datatype jsval = JUndefined | JNull | JBool bool | JNum real | JNaN | JStr string "real option"

fun js_Boolean :: "jsval \<Rightarrow> bool" where
  "js_Boolean JUndefined = False"
| "js_Boolean JNull = False"
| "js_Boolean (JBool b) = b"
| "js_Boolean (JNum x) = (x \<noteq> 0)"
| "js_Boolean JNaN = False"
| "js_Boolean (JStr s n) = (s \<noteq> [])"

text \<open>\<^verbatim>\<open>Number(v)\<close>; \<open>None\<close> is \<^verbatim>\<open>NaN\<close>.\<close>

fun js_Number :: "jsval \<Rightarrow> real option" where
  "js_Number JUndefined = None"
| "js_Number JNull = Some 0"
| "js_Number (JBool b) = Some (if b then 1 else 0)"
| "js_Number (JNum x) = Some x"
| "js_Number JNaN = None"
| "js_Number (JStr s n) = n"

text \<open>\<^verbatim>\<open>Number(v) || 0\<close>\<close>

definition number_or_zero :: "jsval \<Rightarrow> real" where
  "number_or_zero v = (case js_Number v of None \<Rightarrow> 0 | Some x \<Rightarrow> x)"

text \<open>\<^verbatim>\<open>typeof v === 'number'\<close>, which \<^verbatim>\<open>NaN\<close> satisfies.\<close>

fun is_number :: "jsval \<Rightarrow> bool" where
  "is_number (JNum x) = True"
| "is_number JNaN = True"
| "is_number v = False"

text \<open>
  \<^verbatim>\<open>Math.max(a, v)\<close> and \<^verbatim>\<open>Math.min(a, v)\<close> for a number \<open>a\<close>: the result is \<^verbatim>\<open>NaN\<close>
  when \<open>v\<close> reads as \<^verbatim>\<open>NaN\<close>.
\<close>

definition Math_max :: "real \<Rightarrow> jsval \<Rightarrow> jsval" where
  "Math_max a v = (case js_Number v of None \<Rightarrow> JNaN | Some x \<Rightarrow> JNum (max a x))"

definition Math_min :: "real \<Rightarrow> jsval \<Rightarrow> jsval" where
  "Math_min a v = (case js_Number v of None \<Rightarrow> JNaN | Some x \<Rightarrow> JNum (min a x))"

text \<open>\<^verbatim>\<open>a ?? b\<close>\<close>

definition nullish_or :: "jsval \<Rightarrow> jsval \<Rightarrow> jsval" where
  "nullish_or a b = (if a = JUndefined \<or> a = JNull then b else a)"

text \<open>\<^verbatim>\<open>Math.round\<close>: the nearest integer, halves towards \<open>+\<infinity>\<close>.\<close>

definition js_round :: "real \<Rightarrow> int" where
  "js_round x = \<lfloor>x + 1 / 2\<rfloor>"

text \<open>
  Double arithmetic. \<open>f64 x\<close> is the double nearest to \<open>x\<close>: 53 significant bits, a tie
  going to the even mantissa, which is how \<^verbatim>\<open>+\<close> and \<^verbatim>\<open>*\<close> round their exact result. The
  exponent range of a double (overflow to \<^verbatim>\<open>Infinity\<close>, subnormal numbers below
  2 to the power -1022) is not modelled. \<open>bit_length n\<close> is the number of binary digits of \<open>n\<close>,
  \<open>binary_exponent x\<close> is the largest \<open>e\<close> with \<open>pow2 e \<le> x\<close>, for a positive \<open>x\<close>.
\<close>

fun bit_length :: "nat \<Rightarrow> nat" where
  "bit_length n = (if n = 0 then 0 else Suc (bit_length (n div 2)))"

declare bit_length.simps [simp del]

definition pow2 :: "int \<Rightarrow> real" where
  "pow2 k = (if 0 \<le> k then 2 ^ nat k else 1 / 2 ^ nat (- k))"

definition binary_exponent :: "real \<Rightarrow> int" where
  "binary_exponent x =
     (if 1 \<le> x then int (bit_length (nat \<lfloor>x\<rfloor>)) - 1
      else - int (bit_length (nat (\<lceil>1 / x\<rceil> - 1))))"

definition round_half_even :: "real \<Rightarrow> int" where
  "round_half_even m =
     (let f = \<lfloor>m\<rfloor>; d = m - of_int f
      in if d < 1 / 2 then f else if 1 / 2 < d then f + 1 else if even f then f else f + 1)"

definition f64 :: "real \<Rightarrow> real" where
  "f64 x =
     (if x = 0 then 0
      else (let a = \<bar>x\<bar>; q = pow2 (binary_exponent a - 52)
            in sgn x * of_int (round_half_even (a / q)) * q))"

text \<open>
  A JavaScript \<^verbatim>\<open>Map\<close> (and a plain object used as a dictionary) is an association
  list in insertion order: \<^verbatim>\<open>set\<close> on a present key keeps its position, on an absent
  key appends; \<^verbatim>\<open>delete\<close> removes the key.
\<close>

primrec map_set :: "'k \<Rightarrow> 'v \<Rightarrow> ('k \<times> 'v) list \<Rightarrow> ('k \<times> 'v) list" where
  "map_set k v [] = [(k, v)]"
| "map_set k v (p # ps) = (if fst p = k then (k, v) # ps else p # map_set k v ps)"

primrec map_delete :: "'k \<Rightarrow> ('k \<times> 'v) list \<Rightarrow> ('k \<times> 'v) list" where
  "map_delete k [] = []"
| "map_delete k (p # ps) = (if fst p = k then map_delete k ps else p # map_delete k ps)"

definition map_has :: "'k \<Rightarrow> ('k \<times> 'v) list \<Rightarrow> bool" where
  "map_has k m = (map_of m k \<noteq> None)"

text \<open>\<^verbatim>\<open>obj[key]\<close>: a missing property reads as \<^verbatim>\<open>undefined\<close>.\<close>

definition js_get :: "(string \<times> jsval) list \<Rightarrow> string \<Rightarrow> jsval" where
  "js_get obj k = (case map_of obj k of None \<Rightarrow> JUndefined | Some v \<Rightarrow> v)"

text \<open>\<^verbatim>\<open>{ ...a, ...b }\<close>\<close>

definition spread :: "('k \<times> 'v) list \<Rightarrow> ('k \<times> 'v) list \<Rightarrow> ('k \<times> 'v) list" where
  "spread a b = fold (\<lambda>(k, v) acc. map_set k v acc) b a"

section \<open>Data model\<close>

datatype channel = AutoSpeed | EnergyRegen | Damage | CritChance | CooldownRate

text \<open>
  Effect callbacks are closures in the source. Every \<^verbatim>\<open>onApply\<close> and
  \<^verbatim>\<open>onExpire\<close> closure of the repository is a sequence of \<^verbatim>\<open>addModifier\<close> /
  \<^verbatim>\<open>removeModifier\<close> calls, every \<^verbatim>\<open>onTick\<close> closure is one
  \<^verbatim>\<open>refillEnergy(n)\<close> or one \<^verbatim>\<open>applyDamage(n, { ability, isDot: true })\<close>; the
  closures are represented by these calls.
\<close>

datatype mod_action = AddModifier channel string real | RemoveModifier channel string

datatype tick_action = RefillEnergy real | DotDamage real string string

record effect =
  effect_id :: string
  effect_name :: string
  duration :: real
  remaining :: real
  tickInterval :: "real option"
  tickProgress :: "real option"
  armorReduction :: "real option"
  onApply :: "mod_action list option"
  onExpire :: "mod_action list option"
  onTick :: "tick_action option"

record stats_config =
  attackPower :: real
  weaponMin :: real
  weaponMax :: real
  critChance :: real
  hitChance :: real

record regen_config =
  regen_tickInterval :: real
  energyPerTick :: real
  talentBonus :: real
  regen_maxEnergy :: real

record talents_config =
  precisionStrikes :: bool
  relentlessStrikes :: bool
  shadowTechniques :: bool

type_synonym proc_config = "(string \<times> jsval) list"

record rogue_config =
  cfg_stats :: stats_config
  cfg_regen :: regen_config
  general_globalCooldown :: real
  talents :: talents_config
  procs :: "(string \<times> proc_config) list"

record combat_stats =
  totalDamage :: int
  hitCount :: nat
  critCount :: nat
  combatTime :: real
  dpsHistory :: "(real \<times> real) list"
  abilityUsage :: "(string \<times> nat \<times> int) list"

text \<open>
  The only target adapter of the repository (\<^verbatim>\<open>ActionRpgGame.getAdapter\<close>) wraps a
  dummy entity; the fields the adapter touches are kept.
\<close>

record ext_dummy =
  d_health :: real
  d_maxHealth :: real
  d_respawnTimer :: real
  d_highlight :: real

record session =
  session_damage :: int
  session_duration :: real
  session_dps :: real

text \<open>Pieces of a template literal; numbers are kept as numbers, icons by name.\<close>

datatype piece = T string | N real | V jsval | Icon string

datatype ui_call =
    LogEntry "piece list" string
  | FloatingText "piece list" string
  | FlashDummy
  | DamageNumber int bool bool

text \<open>Which effect callback ran, in order: an observer of the model, not a field of the source.\<close>

datatype cb_event = OnApply string | OnExpire string | OnTick string

text \<open>
  \<open>sim\<close> is a \<^verbatim>\<open>RogueSimulator\<close>: the fields of \<^verbatim>\<open>this.state\<close>, then
  \<^verbatim>\<open>this.config\<close>, the target, the session records, the calls made on \<^verbatim>\<open>this.ui\<close>,
  and the unseeded random source: \<^verbatim>\<open>Math.random()\<close> returns
  \<open>random_src s (random_pos s)\<close> and advances the position.
\<close>

record sim =
  inCombat :: bool
  energy :: real
  maxEnergy :: real
  comboPoints :: real
  maxComboPoints :: real
  globalCooldown :: real
  dummyMaxHealth :: real
  dummyHealth :: real
  autoAttackTimer :: real
  baseAutoSpeed :: real
  energyTickProgress :: real
  modifiers :: "channel \<Rightarrow> (string \<times> real) list"
  buffs :: "(string \<times> effect) list"
  debuffs :: "(string \<times> effect) list"
  cooldowns :: "(string \<times> real) list"
  stats :: combat_stats
  config :: rogue_config
  externalTarget :: "ext_dummy option"
  sessionHistory :: "session list"
  currentSession :: "session option"
  previousSession :: "session option"
  ui :: "ui_call list"
  trace :: "cb_event list"
  random_src :: "nat \<Rightarrow> real"
  random_pos :: nat

definition Math_random :: "sim \<Rightarrow> real \<times> sim" where
  "Math_random s = (random_src s (random_pos s), s\<lparr>random_pos := Suc (random_pos s)\<rparr>)"

definition addLogEntry :: "piece list \<Rightarrow> string \<Rightarrow> sim \<Rightarrow> sim" where
  "addLogEntry message ty s = s\<lparr>ui := ui s @ [LogEntry message ty]\<rparr>"

definition showFloatingText :: "piece list \<Rightarrow> string \<Rightarrow> sim \<Rightarrow> sim" where
  "showFloatingText message ty s = s\<lparr>ui := ui s @ [FloatingText message ty]\<rparr>"

section \<open>Resources and modifiers\<close>

definition spendEnergy :: "real \<Rightarrow> sim \<Rightarrow> sim" where
  "spendEnergy amount s = s\<lparr>energy := max 0 (energy s - amount)\<rparr>"

definition refundEnergy :: "real \<Rightarrow> sim \<Rightarrow> sim" where
  "refundEnergy amount s = s\<lparr>energy := min (maxEnergy s) (energy s + amount)\<rparr>"

definition refillEnergy :: "real \<Rightarrow> sim \<Rightarrow> sim" where
  "refillEnergy amount s =
     (let energy_before = energy s;
          s1 = s\<lparr>energy := min (maxEnergy s) (energy s + amount)\<rparr>
      in if energy s1 > energy_before \<and> energy s1 = maxEnergy s1
         then addLogEntry [T ''Energy capped!''] ''system'' s1 else s1)"

definition addComboPoints :: "real \<Rightarrow> sim \<Rightarrow> sim" where
  "addComboPoints amount s = s\<lparr>comboPoints := min (maxComboPoints s) (comboPoints s + amount)\<rparr>"

definition consumeComboPoints :: "real \<Rightarrow> sim \<Rightarrow> sim" where
  "consumeComboPoints amount s = s\<lparr>comboPoints := max 0 (comboPoints s - amount)\<rparr>"

definition addModifier :: "channel \<Rightarrow> string \<Rightarrow> real \<Rightarrow> sim \<Rightarrow> sim" where
  "addModifier ty k v s = s\<lparr>modifiers := (modifiers s)(ty := map_set k v (modifiers s ty))\<rparr>"

definition removeModifier :: "channel \<Rightarrow> string \<Rightarrow> sim \<Rightarrow> sim" where
  "removeModifier ty k s = s\<lparr>modifiers := (modifiers s)(ty := map_delete k (modifiers s ty))\<rparr>"

definition getModifierTotal :: "channel \<Rightarrow> sim \<Rightarrow> real" where
  "getModifierTotal ty s = fold (\<lambda>(k, v) total. total + v) (modifiers s ty) 0"

definition getAutoSpeedMultiplier :: "sim \<Rightarrow> real" where
  "getAutoSpeedMultiplier s = max (1 / 10) (1 + getModifierTotal AutoSpeed s)"

definition getEnergyRegenMultiplier :: "sim \<Rightarrow> real" where
  "getEnergyRegenMultiplier s = max 0 (1 + getModifierTotal EnergyRegen s)"

definition getDamageMultiplier :: "sim \<Rightarrow> real" where
  "getDamageMultiplier s = max 0 (1 + getModifierTotal Damage s)"

definition getCritChanceBonus :: "sim \<Rightarrow> real" where
  "getCritChanceBonus s = getModifierTotal CritChance s"

definition getCooldownRateMultiplier :: "sim \<Rightarrow> real" where
  "getCooldownRateMultiplier s = max 0 (1 + getModifierTotal CooldownRate s)"

section \<open>Buffs and debuffs\<close>

fun run_mod_action :: "mod_action \<Rightarrow> sim \<Rightarrow> sim" where
  "run_mod_action (AddModifier ty k v) s = addModifier ty k v s"
| "run_mod_action (RemoveModifier ty k) s = removeModifier ty k s"

text \<open>\<^verbatim>\<open>e.onApply?.()\<close> and \<^verbatim>\<open>e.onExpire?.()\<close>: nothing happens when the callback is absent.\<close>

definition call_onApply :: "effect \<Rightarrow> sim \<Rightarrow> sim" where
  "call_onApply e s =
     (case onApply e of None \<Rightarrow> s
      | Some acts \<Rightarrow> fold run_mod_action acts (s\<lparr>trace := trace s @ [OnApply (effect_id e)]\<rparr>))"

definition call_onExpire :: "effect \<Rightarrow> sim \<Rightarrow> sim" where
  "call_onExpire e s =
     (case onExpire e of None \<Rightarrow> s
      | Some acts \<Rightarrow> fold run_mod_action acts (s\<lparr>trace := trace s @ [OnExpire (effect_id e)]\<rparr>))"

definition applyBuff :: "effect \<Rightarrow> sim \<Rightarrow> sim" where
  "applyBuff buff s =
     (let s1 = (case map_of (buffs s) (effect_id buff) of
                  Some existing \<Rightarrow> call_onExpire existing s
                | None \<Rightarrow> s);
          enriched = buff\<lparr>remaining := duration buff\<rparr>;
          s2 = s1\<lparr>buffs := map_set (effect_id buff) enriched (buffs s1)\<rparr>
      in call_onApply enriched s2)"

definition removeBuff :: "string \<Rightarrow> sim \<Rightarrow> sim" where
  "removeBuff k s =
     (case map_of (buffs s) k of
        Some existing \<Rightarrow>
          (let s1 = call_onExpire existing s in s1\<lparr>buffs := map_delete k (buffs s1)\<rparr>)
      | None \<Rightarrow> s)"

definition applyDebuff :: "effect \<Rightarrow> sim \<Rightarrow> sim" where
  "applyDebuff debuff s =
     (let s1 = (case map_of (debuffs s) (effect_id debuff) of
                  Some existing \<Rightarrow> call_onExpire existing s
                | None \<Rightarrow> s);
          enriched = debuff\<lparr>remaining := duration debuff\<rparr>;
          s2 = s1\<lparr>debuffs := map_set (effect_id debuff) enriched (debuffs s1)\<rparr>
      in call_onApply enriched s2)"

text \<open>
  \<^verbatim>\<open>clearEffects\<close> iterates the live maps; the callbacks only touch modifier buckets,
  so the entries seen are those present at the start.
\<close>

definition clearEffects :: "sim \<Rightarrow> sim" where
  "clearEffects s =
     (let s1 = fold (\<lambda>(k, b). call_onExpire b) (buffs s) s;
          s2 = fold (\<lambda>(k, d). call_onExpire d) (debuffs s) s1
      in s2\<lparr>buffs := [], debuffs := [], modifiers := (\<lambda>ty. [])\<rparr>)"

text \<open>
  An effect literal as the source writes it has no \<open>remaining\<close>: the field is 0 until
  \<open>applyBuff\<close> / \<open>applyDebuff\<close> set it to the duration.
\<close>

definition new_effect :: "string \<Rightarrow> string \<Rightarrow> real \<Rightarrow> effect" where
  "new_effect k nm d =
     \<lparr>effect_id = k, effect_name = nm, duration = d, remaining = 0, tickInterval = None,
      tickProgress = None, armorReduction = None, onApply = None, onExpire = None,
      onTick = None\<rparr>"

section \<open>Proc system\<close>

record event_context =
  ev_ability :: "(string \<times> string) option"
  ev_isCrit :: bool
  ev_isAuto :: bool
  ev_isDot :: bool
  ev_damage :: int

record trigger_result =
  result_log :: "piece list option"
  result_floatingText :: "piece list option"
  result_floatingTextType :: "string option"

record proc_field =
  field_key :: string
  field_min :: "real option"
  field_max :: "real option"
  defaultValue :: real

record proc_def =
  proc_id :: string
  proc_name :: string
  events :: "string list"
  defaultConfig :: proc_config
  proc_fields :: "proc_field list"
  condition :: "event_context \<Rightarrow> bool"
  onTrigger :: "proc_config \<Rightarrow> sim \<Rightarrow> trigger_result \<times> sim"

definition energySurge_onTrigger :: "proc_config \<Rightarrow> sim \<Rightarrow> trigger_result \<times> sim" where
  "energySurge_onTrigger cfg s =
     (let energy_gain = max 0 (number_or_zero (js_get cfg ''energyGain''))
      in if energy_gain > 0
         then (\<lparr>result_log = Some [T ''Energy Surge restores '', N energy_gain, T '' energy!''],
                result_floatingText = Some [T ''+'', N energy_gain, T '' Energy''],
                result_floatingTextType = Some ''energy''\<rparr>,
               refillEnergy energy_gain s)
         else (\<lparr>result_log = Some [T ''Energy Surge triggered but no energy gain is configured.''],
                result_floatingText = Some [T ''Energy Surge!''],
                result_floatingTextType = Some ''proc''\<rparr>, s))"

definition flurryStrike_onTrigger :: "proc_config \<Rightarrow> sim \<Rightarrow> trigger_result \<times> sim" where
  "flurryStrike_onTrigger cfg s =
     (let d = max 0 (number_or_zero (js_get cfg ''duration''));
          haste = number_or_zero (js_get cfg ''hastePercent'') / 100
      in if d \<le> 0 \<or> haste \<le> 0
         then (\<lparr>result_log = Some [T ''Flurry Strike triggered but has no effect.''],
                result_floatingText = None, result_floatingTextType = None\<rparr>, s)
         else (\<lparr>result_log = Some [T ''Flurry Strike increases attack speed by '',
                                   V (js_get cfg ''hastePercent''), T ''% for '', N d, T ''s.''],
                result_floatingText = Some [T ''Flurry Strike!''],
                result_floatingTextType = None\<rparr>,
               applyBuff ((new_effect ''proc_flurryStrike'' ''Flurry Strike'' d)
                 \<lparr>onApply := Some [AddModifier AutoSpeed ''proc_flurryStrike'' haste],
                  onExpire := Some [RemoveModifier AutoSpeed ''proc_flurryStrike'']\<rparr>) s))"

definition overpoweringStrikes_onTrigger :: "proc_config \<Rightarrow> sim \<Rightarrow> trigger_result \<times> sim" where
  "overpoweringStrikes_onTrigger cfg s =
     (let d = max 0 (number_or_zero (js_get cfg ''duration''));
          bonus = number_or_zero (js_get cfg ''damagePercent'') / 100
      in if d \<le> 0 \<or> bonus \<le> 0
         then (\<lparr>result_log = Some [T ''Overpowering Strikes triggered but has no effect.''],
                result_floatingText = None, result_floatingTextType = None\<rparr>, s)
         else (\<lparr>result_log = Some [T ''Overpowering Strikes grants +'',
                                   V (js_get cfg ''damagePercent''), T ''% damage for '', N d, T ''s.''],
                result_floatingText = Some [T ''Overpowering!''],
                result_floatingTextType = None\<rparr>,
               applyBuff ((new_effect ''proc_overpoweringStrikes'' ''Overpowering Strikes'' d)
                 \<lparr>onApply := Some [AddModifier Damage ''proc_overpoweringStrikes'' bonus],
                  onExpire := Some [RemoveModifier Damage ''proc_overpoweringStrikes'']\<rparr>) s))"

definition criticalInsight_onTrigger :: "proc_config \<Rightarrow> sim \<Rightarrow> trigger_result \<times> sim" where
  "criticalInsight_onTrigger cfg s =
     (let d = max 0 (number_or_zero (js_get cfg ''duration''));
          crit = number_or_zero (js_get cfg ''critPercent'')
      in if d \<le> 0 \<or> crit \<le> 0
         then (\<lparr>result_log = Some [T ''Critical Insight triggered but has no effect.''],
                result_floatingText = None, result_floatingTextType = None\<rparr>, s)
         else (\<lparr>result_log = Some [T ''Critical Insight grants +'', N crit,
                                   T ''% crit chance for '', N d, T ''s.''],
                result_floatingText = Some [T ''Critical Insight!''],
                result_floatingTextType = None\<rparr>,
               applyBuff ((new_effect ''proc_criticalInsight'' ''Critical Insight'' d)
                 \<lparr>onApply := Some [AddModifier CritChance ''proc_criticalInsight'' crit],
                  onExpire := Some [RemoveModifier CritChance ''proc_criticalInsight'']\<rparr>) s))"

definition shadowRecovery_onTrigger :: "proc_config \<Rightarrow> sim \<Rightarrow> trigger_result \<times> sim" where
  "shadowRecovery_onTrigger cfg s =
     (let energy_gain = max 0 (number_or_zero (js_get cfg ''energyGain''));
          s1 = (if energy_gain > 0 then refillEnergy energy_gain s else s);
          d = max 0 (number_or_zero (js_get cfg ''duration''));
          rate = number_or_zero (js_get cfg ''cooldownRatePercent'') / 100;
          log0 = [T ''Shadow Recovery restores '', N energy_gain, T '' energy.''];
          s2 = (if d > 0 \<and> rate > 0
                then applyBuff ((new_effect ''proc_shadowRecovery'' ''Shadow Recovery'' d)
                       \<lparr>onApply := Some [AddModifier CooldownRate ''proc_shadowRecovery'' rate],
                        onExpire := Some [RemoveModifier CooldownRate ''proc_shadowRecovery'']\<rparr>) s1
                else s1);
          log1 = (if d > 0 \<and> rate > 0
                  then log0 @ [T '' Cooldowns recover '', V (js_get cfg ''cooldownRatePercent''),
                               T ''% faster for '', N d, T ''s.'']
                  else log0);
          log2 = (if d \<le> 0 \<or> rate \<le> 0
                  then log1 @ [T '' Cooldown acceleration unavailable with current settings.'']
                  else log1)
      in (\<lparr>result_log = Some log2,
           result_floatingText = Some [T ''Shadow Recovery!''],
           result_floatingTextType = Some ''energy''\<rparr>, s2))"

definition chance_field :: "real \<Rightarrow> proc_field" where
  "chance_field dv = \<lparr>field_key = ''chance'', field_min = Some 0, field_max = Some 100, defaultValue = dv\<rparr>"

definition min0_field :: "string \<Rightarrow> real \<Rightarrow> proc_field" where
  "min0_field k dv = \<lparr>field_key = k, field_min = Some 0, field_max = None, defaultValue = dv\<rparr>"

definition energySurge :: proc_def where
  "energySurge =
     \<lparr>proc_id = ''energySurge'', proc_name = ''Energy Surge'', events = [''damage''],
      defaultConfig = [(''enabled'', JBool True), (''chance'', JNum 20), (''energyGain'', JNum 25)],
      proc_fields = [chance_field 20, min0_field ''energyGain'' 25],
      condition = (\<lambda>ctx. \<not> ev_isDot ctx),
      onTrigger = energySurge_onTrigger\<rparr>"

definition flurryStrike :: proc_def where
  "flurryStrike =
     \<lparr>proc_id = ''flurryStrike'', proc_name = ''Flurry Strike'', events = [''damage''],
      defaultConfig = [(''enabled'', JBool True), (''chance'', JNum 35), (''hastePercent'', JNum 25),
                       (''duration'', JNum 6)],
      proc_fields = [chance_field 35, min0_field ''hastePercent'' 25, min0_field ''duration'' 6],
      condition = (\<lambda>ctx. ev_isCrit ctx \<and> \<not> ev_isDot ctx),
      onTrigger = flurryStrike_onTrigger\<rparr>"

definition overpoweringStrikes :: proc_def where
  "overpoweringStrikes =
     \<lparr>proc_id = ''overpoweringStrikes'', proc_name = ''Overpowering Strikes'', events = [''damage''],
      defaultConfig = [(''enabled'', JBool True), (''chance'', JNum 25), (''damagePercent'', JNum 15),
                       (''duration'', JNum 8)],
      proc_fields = [chance_field 25, min0_field ''damagePercent'' 15, min0_field ''duration'' 8],
      condition = (\<lambda>ctx. \<not> ev_isAuto ctx \<and> \<not> ev_isDot ctx),
      onTrigger = overpoweringStrikes_onTrigger\<rparr>"

definition criticalInsight :: proc_def where
  "criticalInsight =
     \<lparr>proc_id = ''criticalInsight'', proc_name = ''Critical Insight'', events = [''damage''],
      defaultConfig = [(''enabled'', JBool True), (''chance'', JNum 20), (''critPercent'', JNum 10),
                       (''duration'', JNum 10)],
      proc_fields = [chance_field 20, min0_field ''critPercent'' 10, min0_field ''duration'' 10],
      condition = (\<lambda>ctx. \<not> ev_isDot ctx),
      onTrigger = criticalInsight_onTrigger\<rparr>"

definition shadowRecovery :: proc_def where
  "shadowRecovery =
     \<lparr>proc_id = ''shadowRecovery'', proc_name = ''Shadow Recovery'', events = [''damage''],
      defaultConfig = [(''enabled'', JBool True), (''chance'', JNum 15), (''energyGain'', JNum 15),
                       (''cooldownRatePercent'', JNum 30), (''duration'', JNum 6)],
      proc_fields = [chance_field 15, min0_field ''energyGain'' 15,
                min0_field ''cooldownRatePercent'' 30, min0_field ''duration'' 6],
      condition = (\<lambda>ctx. \<not> ev_isAuto ctx \<and> \<not> ev_isDot ctx),
      onTrigger = shadowRecovery_onTrigger\<rparr>"

definition PROC_DEFINITIONS :: "proc_def list" where
  "PROC_DEFINITIONS = [energySurge, flurryStrike, overpoweringStrikes, criticalInsight, shadowRecovery]"

definition getDefaultProcConfig :: "(string \<times> proc_config) list" where
  "getDefaultProcConfig = fold (\<lambda>d cfg. map_set (proc_id d) (defaultConfig d) cfg) PROC_DEFINITIONS []"

text \<open>The body of \<^verbatim>\<open>def.fields.forEach\<close> in \<^verbatim>\<open>ProcSystem.updateConfig\<close>.\<close>

definition clamp_field :: "proc_field \<Rightarrow> proc_config \<Rightarrow> proc_config" where
  "clamp_field f cfg =
     (if is_number (js_get cfg (field_key f)) then
        (let c1 = (case field_min f of
                     Some lo \<Rightarrow> map_set (field_key f) (Math_max lo (js_get cfg (field_key f))) cfg
                   | None \<Rightarrow> cfg)
         in (case field_max f of
               Some hi \<Rightarrow> map_set (field_key f) (Math_min hi (js_get c1 (field_key f))) c1
             | None \<Rightarrow> c1))
      else cfg)"

text \<open>The body of \<^verbatim>\<open>this.definitions.forEach\<close> in \<^verbatim>\<open>ProcSystem.updateConfig\<close>.\<close>

definition merge_proc_config :: "(string \<times> proc_config) list \<Rightarrow> proc_def \<Rightarrow> proc_config" where
  "merge_proc_config newConfig d =
     (let cfg0 = spread (defaultConfig d)
                   (case map_of newConfig (proc_id d) of None \<Rightarrow> [] | Some c \<Rightarrow> c);
          cfg1 = map_set ''enabled'' (JBool (js_Boolean (js_get cfg0 ''enabled''))) cfg0
      in fold clamp_field (proc_fields d) cfg1)"

definition ProcSystem_updateConfig :: "(string \<times> proc_config) list \<Rightarrow> (string \<times> proc_config) list" where
  "ProcSystem_updateConfig newConfig =
     fold (\<lambda>d merged. map_set (proc_id d) (merge_proc_config newConfig d) merged) PROC_DEFINITIONS []"

text \<open>
  The body of \<^verbatim>\<open>this.definitions.forEach\<close> in \<^verbatim>\<open>ProcSystem.handleEvent\<close>. A chance
  that reads as \<^verbatim>\<open>NaN\<close> is neither \<open>\<le> 0\<close> nor exceeded by the draw, so the proc fires.
\<close>

definition handleEvent_def :: "string \<Rightarrow> event_context \<Rightarrow> proc_def \<Rightarrow> sim \<Rightarrow> sim" where
  "handleEvent_def event ctx d s =
     (case map_of (procs (config s)) (proc_id d) of
        None \<Rightarrow> s
      | Some cfg \<Rightarrow>
          if \<not> js_Boolean (js_get cfg ''enabled'') then s
          else if event \<notin> set (events d) then s
          else if \<not> condition d ctx then s
          else
            (let chance = js_Number (nullish_or (js_get cfg ''chance'')
                            (nullish_or (js_get (defaultConfig d) ''chance'') (JNum 0)))
             in if (case chance of Some c \<Rightarrow> c \<le> 0 | None \<Rightarrow> False) then s
                else
                  (let (r, s1) = Math_random s
                   in if (case chance of Some c \<Rightarrow> r * 100 > c | None \<Rightarrow> False) then s1
                      else
                        (let (res, s2) = onTrigger d cfg s1;
                             logMessage = (case result_log res of
                                             Some m \<Rightarrow> m | None \<Rightarrow> [T (proc_name d), T '' triggered!'']);
                             floatingText = (case result_floatingText res of
                                               Some m \<Rightarrow> m
                                             | None \<Rightarrow> [Icon (proc_id d), T '' '', T (proc_name d), T ''!'']);
                             floatingType = (case result_floatingTextType res of
                                               Some ty \<Rightarrow> ty | None \<Rightarrow> ''proc'');
                             s3 = (if logMessage \<noteq> [] then addLogEntry logMessage ''system'' s2 else s2)
                         in if floatingText \<noteq> [] then showFloatingText floatingText floatingType s3
                            else s3))))"

definition handleEvent :: "string \<Rightarrow> event_context \<Rightarrow> sim \<Rightarrow> sim" where
  "handleEvent event ctx s = fold (handleEvent_def event ctx) PROC_DEFINITIONS s"

section \<open>Combat resolution\<close>

text \<open>The adapter methods of \<^verbatim>\<open>ActionRpgGame.getAdapter\<close> that change the dummy.\<close>

definition adapter_applyDamage :: "real \<Rightarrow> ext_dummy \<Rightarrow> ext_dummy" where
  "adapter_applyDamage amount t =
     (let t1 = t\<lparr>d_health := max 0 (d_health t - amount), d_highlight := 1\<rparr>
      in if d_health t1 \<le> 0 then t1\<lparr>d_respawnTimer := 5\<rparr> else t1)"

definition adapter_onReset :: "ext_dummy \<Rightarrow> ext_dummy" where
  "adapter_onReset t = t\<lparr>d_health := d_maxHealth t, d_respawnTimer := 0\<rparr>"

definition getCurrentDps :: "sim \<Rightarrow> real" where
  "getCurrentDps s = of_int (totalDamage (stats s)) / max (combatTime (stats s)) 1"

definition stopCombat :: "sim \<Rightarrow> sim" where
  "stopCombat s =
     (if \<not> inCombat s then s
      else
        (let s1 = clearEffects (s\<lparr>inCombat := False, globalCooldown := 0\<rparr>);
             sess = \<lparr>session_damage = totalDamage (stats s1),
                     session_duration = max (combatTime (stats s1)) 1,
                     session_dps = getCurrentDps s1\<rparr>;
             s2 = s1\<lparr>previousSession := currentSession s1, currentSession := Some sess,
                     sessionHistory := sessionHistory s1 @ [sess]\<rparr>;
             s3 = addLogEntry [T ''Combat ended.''] ''system'' s2
         in if externalTarget s3 = None then s3\<lparr>dummyHealth := dummyMaxHealth s3\<rparr> else s3))"

definition incrementAbilityUsage :: "string \<Rightarrow> int \<Rightarrow> sim \<Rightarrow> sim" where
  "incrementAbilityUsage nm dmg s =
     (let usage = (case map_of (abilityUsage (stats s)) nm of Some u \<Rightarrow> u | None \<Rightarrow> (0, 0))
      in s\<lparr>stats := (stats s)\<lparr>abilityUsage :=
              map_set nm (fst usage + 1, snd usage + dmg) (abilityUsage (stats s))\<rparr>\<rparr>)"

record damage_context =
  ctx_ability :: "(string \<times> string) option"
  isCrit :: bool
  isAuto :: bool
  isDot :: bool

text \<open>The target part of \<^verbatim>\<open>applyDamage\<close>: the bound adapter, or the internal dummy.\<close>

definition damage_target :: "int \<Rightarrow> sim \<Rightarrow> sim" where
  "damage_target dmg s =
     (case externalTarget s of
        Some t \<Rightarrow>
          (let t1 = adapter_applyDamage (of_int dmg) t
           in s\<lparr>externalTarget := Some t1, dummyMaxHealth := d_maxHealth t1,
                 dummyHealth := max 0 (d_health t1)\<rparr>)
      | None \<Rightarrow> s\<lparr>dummyHealth := max 0 (dummyHealth s - of_int dmg)\<rparr>)"

text \<open>The statistics, log and display part of \<^verbatim>\<open>applyDamage\<close>.\<close>

definition record_damage :: "int \<Rightarrow> damage_context \<Rightarrow> sim \<Rightarrow> sim" where
  "record_damage dmg ctx s =
     (let s1 = s\<lparr>stats := (stats s)\<lparr>totalDamage := totalDamage (stats s) + dmg,
                                   hitCount := hitCount (stats s) + 1\<rparr>\<rparr>;
          s2 = (if isCrit ctx then s1\<lparr>stats := (stats s1)\<lparr>critCount := critCount (stats s1) + 1\<rparr>\<rparr>
                else s1);
          entryType = (if isCrit ctx then ''crit'' else if isAuto ctx then ''auto'' else ''ability'');
          label = (case ctx_ability ctx of Some ab \<Rightarrow> fst ab | None \<Rightarrow> ''Damage'');
          critLabel = (if isCrit ctx then '' (CRIT!)'' else []);
          dotLabel = (if isDot ctx then '' (DoT)'' else []);
          s3 = addLogEntry [T label, T dotLabel, T '': '', N (of_int dmg), T critLabel] entryType s2;
          s4 = (if \<not> isDot ctx
                then s3\<lparr>ui := ui s3 @ [FlashDummy, DamageNumber dmg (isCrit ctx) (isAuto ctx)]\<rparr>
                else s3)
      in (case ctx_ability ctx of Some ab \<Rightarrow> incrementAbilityUsage (fst ab) dmg s4 | None \<Rightarrow> s4))"

text \<open>The defeat check that ends \<^verbatim>\<open>applyDamage\<close>.\<close>

definition check_defeat :: "sim \<Rightarrow> sim" where
  "check_defeat s =
     (if dummyHealth s \<le> 0 then
        (if externalTarget s \<noteq> None
         then stopCombat (addLogEntry [T ''Target defeated!''] ''system'' s)
         else (let s1 = stopCombat (addLogEntry [T ''Dummy defeated!''] ''system'' s)
               in s1\<lparr>dummyHealth := dummyMaxHealth s1\<rparr>))
      else s)"

definition applyDamage :: "real \<Rightarrow> damage_context \<Rightarrow> sim \<Rightarrow> sim" where
  "applyDamage amount ctx s =
     (let dmg = js_round amount
      in if dmg \<le> 0 then s
         else
           (let s1 = damage_target dmg s;
                s2 = record_damage dmg ctx s1;
                s3 = handleEvent ''damage''
                       \<lparr>ev_ability = ctx_ability ctx, ev_isCrit = isCrit ctx, ev_isAuto = isAuto ctx,
                        ev_isDot = isDot ctx, ev_damage = dmg\<rparr> s2
            in check_defeat s3))"

definition rollWeaponDamage :: "real \<Rightarrow> sim \<Rightarrow> real \<times> sim" where
  "rollWeaponDamage multiplier s =
     (let lower = min (weaponMin (cfg_stats (config s))) (weaponMax (cfg_stats (config s)));
          upper = max (weaponMin (cfg_stats (config s))) (weaponMax (cfg_stats (config s)));
          span = upper - lower
      in if span \<le> 0 then (lower * multiplier, s)
         else (let (r, s1) = Math_random s in ((lower + r * span) * multiplier, s1)))"

definition getAttackPowerContribution :: "real \<Rightarrow> sim \<Rightarrow> real" where
  "getAttackPowerContribution scaling s = (attackPower (cfg_stats (config s)) / 14) * scaling"

definition getTalentHitBonus :: "sim \<Rightarrow> real" where
  "getTalentHitBonus s = (if precisionStrikes (talents (config s)) then 0 + 3 else 0)"

definition rollHit :: "sim \<Rightarrow> bool \<times> sim" where
  "rollHit s =
     (let bonus = getTalentHitBonus s;
          chance = min (max (hitChance (cfg_stats (config s)) + bonus) 0) 100 / 100;
          (r, s1) = Math_random s
      in (r \<le> chance, s1))"

definition rollCrit :: "real \<Rightarrow> sim \<Rightarrow> bool \<times> sim" where
  "rollCrit chance s =
     (let totalChance = min (max (chance + getCritChanceBonus s) 0) 100 / 100;
          (r, s1) = Math_random s
      in (r \<le> totalChance, s1))"

definition applyDamageModifiers :: "real \<Rightarrow> bool \<Rightarrow> sim \<Rightarrow> real" where
  "applyDamageModifiers baseDamage crit s =
     (let d0 = baseDamage;
          d1 = (case map_of (debuffs s) ''exposeArmor'' of
                  Some expose \<Rightarrow>
                    (case armorReduction expose of
                       Some r \<Rightarrow> if r \<noteq> 0 then d0 * (1 + r) else d0
                     | None \<Rightarrow> d0)
                | None \<Rightarrow> d0);
          d2 = (if crit then d1 * 2 else d1)
      in d2 * getDamageMultiplier s)"

text \<open>
  The same three functions of the source, \<^verbatim>\<open>getModifierTotal\<close>, \<^verbatim>\<open>getDamageMultiplier\<close> and
  \<^verbatim>\<open>applyDamageModifiers\<close>, with the rounding of the arithmetic written out: \<open>rnd\<close> is
  applied to the exact result of every \<^verbatim>\<open>+\<close> and \<^verbatim>\<open>*\<close> (\<^verbatim>\<open>Math.max\<close> does not round). With
  \<open>rnd = f64\<close> this is the source's double arithmetic, in which the order of the
  operations shows in the result; with the identity it is the exact arithmetic of the
  three definitions above.
\<close>

definition getModifierTotal_with :: "(real \<Rightarrow> real) \<Rightarrow> channel \<Rightarrow> sim \<Rightarrow> real" where
  "getModifierTotal_with rnd ty s = fold (\<lambda>(k, v) total. rnd (total + v)) (modifiers s ty) 0"

definition getDamageMultiplier_with :: "(real \<Rightarrow> real) \<Rightarrow> sim \<Rightarrow> real" where
  "getDamageMultiplier_with rnd s = max 0 (rnd (1 + getModifierTotal_with rnd Damage s))"

definition applyDamageModifiers_with :: "(real \<Rightarrow> real) \<Rightarrow> real \<Rightarrow> bool \<Rightarrow> sim \<Rightarrow> real" where
  "applyDamageModifiers_with rnd baseDamage crit s =
     (let d0 = baseDamage;
          d1 = (case map_of (debuffs s) ''exposeArmor'' of
                  Some expose \<Rightarrow>
                    (case armorReduction expose of
                       Some r \<Rightarrow> if r \<noteq> 0 then rnd (d0 * rnd (1 + r)) else d0
                     | None \<Rightarrow> d0)
                | None \<Rightarrow> d0);
          d2 = (if crit then rnd (d1 * 2) else d1)
      in rnd (d2 * getDamageMultiplier_with rnd s))"

definition onComboPointsSpent :: "string \<Rightarrow> real \<Rightarrow> sim \<Rightarrow> sim" where
  "onComboPointsSpent abilityName amount s =
     (if amount = 0 then s
      else if relentlessStrikes (talents (config s)) then
        (let refund = js_round (8 + amount * 3)
         in if refund > 0 then
              showFloatingText [T ''+'', N (of_int refund), T '' Energy''] ''energy''
                (addLogEntry [T ''Relentless Strikes refunds '', N (of_int refund),
                              T '' energy after using '', T abilityName, T ''.''] ''system''
                   (refillEnergy (of_int refund) s))
            else s)
      else s)"

definition performWhiteDamage :: "real \<Rightarrow> sim \<Rightarrow> sim" where
  "performWhiteDamage baseDamage s =
     (let (hit, s1) = rollHit s
      in if \<not> hit then addLogEntry [T ''Auto Attack missed!''] ''auto'' s1
         else
           (let (crit, s2) = rollCrit (critChance (cfg_stats (config s1))) s1;
                dmg = applyDamageModifiers baseDamage crit s2;
                s3 = applyDamage dmg \<lparr>ctx_ability = Some (''Auto Attack'', ''auto''), isCrit = crit,
                                       isAuto = True, isDot = False\<rparr> s2
            in if shadowTechniques (talents (config s3)) then
                 (let (r, s4) = Math_random s3
                  in if r \<le> 3 / 10 then
                       showFloatingText [T ''+1 Combo''] ''combo''
                         (addLogEntry [T ''Shadow Techniques grants an extra combo point!''] ''system''
                            (addComboPoints 1 s4))
                     else s4)
               else s3))"

text \<open>
  \<^verbatim>\<open>performYellowDamage({ ability, baseDamage, comboPointsGenerated, comboPointsSpent,
  critBonus })\<close>; the ability is its name and id.
\<close>

definition performYellowDamage ::
  "(string \<times> string) \<Rightarrow> real \<Rightarrow> real \<Rightarrow> real \<Rightarrow> real \<Rightarrow> sim \<Rightarrow> bool \<times> sim" where
  "performYellowDamage ab baseDamage comboPointsGenerated comboPointsSpent critBonus s =
     (let (hit, s1) = rollHit s
      in if \<not> hit then (False, addLogEntry [T (fst ab), T '' missed!''] ''system'' s1)
         else
           (let isFinisher = comboPointsSpent > 0;
                precise = isFinisher \<and> precisionStrikes (talents (config s1));
                chance0 = critChance (cfg_stats (config s1)) + critBonus;
                chance = (if precise then chance0 + 5 else chance0);
                (crit, s2) = rollCrit chance s1;
                dmg0 = applyDamageModifiers baseDamage crit s2;
                dmg = (if precise then dmg0 * (108 / 100) else dmg0);
                s3 = applyDamage dmg \<lparr>ctx_ability = Some ab, isCrit = crit, isAuto = False,
                                       isDot = False\<rparr> s2;
                s4 = (if comboPointsGenerated \<noteq> 0 then addComboPoints comboPointsGenerated s3 else s3);
                s5 = (if comboPointsSpent \<noteq> 0
                      then onComboPointsSpent (fst ab) comboPointsSpent
                             (consumeComboPoints comboPointsSpent s4)
                      else s4)
            in (True, s5)))"

section \<open>Abilities and the cast protocol\<close>

text \<open>What a handler returns: \<^verbatim>\<open>false\<close>, \<^verbatim>\<open>true\<close>, or nothing.\<close>

datatype handler_result = ReturnsFalse | ReturnsTrue | ReturnsVoid

record ability =
  ability_id :: string
  ability_name :: string
  energyCost :: real
  ability_comboPoints :: real
  cooldown :: real
  triggersGcd :: bool
  handler :: "sim \<Rightarrow> handler_result \<times> sim"

definition sinisterStrike_handler :: "sim \<Rightarrow> handler_result \<times> sim" where
  "sinisterStrike_handler s =
     (let (w, s1) = rollWeaponDamage (105 / 100) s;
          base = w + 45 + getAttackPowerContribution (12 / 10) s1;
          (hit, s2) = performYellowDamage (''Sinister Strike'', ''sinisterStrike'') base 1 0 0 s1
      in (ReturnsVoid, s2))"

definition backstab_handler :: "sim \<Rightarrow> handler_result \<times> sim" where
  "backstab_handler s =
     (let (w, s1) = rollWeaponDamage (15 / 10) s;
          base = w + getAttackPowerContribution (17 / 10) s1;
          (hit, s2) = performYellowDamage (''Backstab'', ''backstab'') base 2 0 5 s1
      in (ReturnsVoid, s2))"

definition eviscerate_handler :: "sim \<Rightarrow> handler_result \<times> sim" where
  "eviscerate_handler s =
     (let combo = comboPoints s
      in if combo = 0
         then (ReturnsFalse, addLogEntry [T ''Eviscerate failed: no combo points''] ''system'' s)
         else
           (let base = 120 + combo * 90 + getAttackPowerContribution (4 / 10 * combo) s;
                (hit, s1) = performYellowDamage (''Eviscerate'', ''eviscerate'') base 0 combo 0 s
            in (ReturnsTrue, s1)))"

text \<open>The effect literal of \<^verbatim>\<open>sliceAndDice\<close>, with its duration: +40% attack speed.\<close>

definition sliceAndDice_buff :: "real \<Rightarrow> effect" where
  "sliceAndDice_buff d =
     (new_effect ''sliceAndDice'' ''Slice and Dice'' d)
       \<lparr>onApply := Some [AddModifier AutoSpeed ''sliceAndDice'' (4 / 10)],
        onExpire := Some [RemoveModifier AutoSpeed ''sliceAndDice'']\<rparr>"

definition sliceAndDice_handler :: "sim \<Rightarrow> handler_result \<times> sim" where
  "sliceAndDice_handler s =
     (let combo = comboPoints s
      in if combo = 0
         then (ReturnsFalse, addLogEntry [T ''Slice and Dice requires combo points.''] ''system'' s)
         else
           (let d = 6 + combo * 3;
                s1 = applyBuff (sliceAndDice_buff d) s;
                s2 = consumeComboPoints combo s1;
                s3 = onComboPointsSpent ''Slice and Dice'' combo s2
            in (ReturnsTrue,
                addLogEntry [T ''Slice and Dice refreshed for '', N d, T ''s''] ''system'' s3)))"

definition rupture_handler :: "sim \<Rightarrow> handler_result \<times> sim" where
  "rupture_handler s =
     (let combo = comboPoints s
      in if combo = 0
         then (ReturnsFalse, addLogEntry [T ''Rupture requires combo points.''] ''system'' s)
         else
           (let d = 8 + combo * 2;
                tickDamage = 40 + combo * 25 + getAttackPowerContribution (12 / 100 * combo) s;
                s1 = applyDebuff ((new_effect ''rupture'' ''Rupture'' d)
                       \<lparr>tickInterval := Some 2,
                        onTick := Some (DotDamage tickDamage ''Rupture'' ''rupture'')\<rparr>) s;
                s2 = consumeComboPoints combo s1;
                s3 = onComboPointsSpent ''Rupture'' combo s2
            in (ReturnsTrue, s3)))"

text \<open>The effect literal of \<^verbatim>\<open>hemorrhage\<close>: +4% damage for 15 seconds.\<close>

definition hemorrhage_debuff :: effect where
  "hemorrhage_debuff =
     (new_effect ''hemorrhage'' ''Hemorrhage'' 15)
       \<lparr>onApply := Some [AddModifier Damage ''hemorrhage'' (4 / 100)],
        onExpire := Some [RemoveModifier Damage ''hemorrhage'']\<rparr>"

definition hemorrhage_handler :: "sim \<Rightarrow> handler_result \<times> sim" where
  "hemorrhage_handler s =
     (let (w, s1) = rollWeaponDamage (11 / 10) s;
          base = w + 55 + getAttackPowerContribution (11 / 10) s1;
          (hit, s2) = performYellowDamage (''Hemorrhage'', ''hemorrhage'') base 1 0 0 s1
      in if \<not> hit then (ReturnsVoid, s2)
         else
           (let s3 = applyDebuff hemorrhage_debuff s2
            in (ReturnsVoid, addLogEntry [T ''Hemorrhage weakens the target!''] ''system'' s3)))"

definition envenom_handler :: "sim \<Rightarrow> handler_result \<times> sim" where
  "envenom_handler s =
     (let combo = comboPoints s
      in if combo = 0
         then (ReturnsFalse, addLogEntry [T ''Envenom requires combo points.''] ''system'' s)
         else
           (let base = 90 + combo * 75 + getAttackPowerContribution (3 / 10 * combo) s;
                (hit, s1) = performYellowDamage (''Envenom'', ''envenom'') base 0 combo 0 s
            in if \<not> hit then (ReturnsFalse, s1)
               else
                 (let critBonus = combo * 3;
                      d = 2 + combo * 2;
                      s2 = applyBuff ((new_effect ''envenom'' ''Envenom'' d)
                             \<lparr>onApply := Some [AddModifier CritChance ''envenom'' critBonus],
                              onExpire := Some [RemoveModifier CritChance ''envenom'']\<rparr>) s1
                  in (ReturnsTrue,
                      addLogEntry [T ''Envenom grants +'', N critBonus, T ''% crit chance for '',
                                   N d, T ''s''] ''system'' s2))))"

text \<open>The effect literal of \<^verbatim>\<open>exposeArmor\<close>, with its duration.\<close>

definition exposeArmor_debuff :: "real \<Rightarrow> effect" where
  "exposeArmor_debuff d =
     (new_effect ''exposeArmor'' ''Expose Armor'' d)\<lparr>armorReduction := Some (8 / 100)\<rparr>"

definition exposeArmor_handler :: "sim \<Rightarrow> handler_result \<times> sim" where
  "exposeArmor_handler s =
     (let combo = comboPoints s
      in if combo = 0
         then (ReturnsFalse, addLogEntry [T ''Expose Armor requires combo points.''] ''system'' s)
         else
           (let d = 12 + combo * 3;
                s1 = applyDebuff (exposeArmor_debuff d) s;
                s2 = consumeComboPoints combo s1;
                s3 = onComboPointsSpent ''Expose Armor'' combo s2
            in (ReturnsTrue,
                addLogEntry [T ''Expose Armor applied for '', N d, T ''s''] ''system'' s3)))"

definition adrenalineRush_handler :: "sim \<Rightarrow> handler_result \<times> sim" where
  "adrenalineRush_handler s =
     (let s1 = applyBuff ((new_effect ''adrenalineRush'' ''Adrenaline Rush'' 15)
                 \<lparr>onApply := Some [AddModifier EnergyRegen ''adrenalineRush'' 1],
                  onExpire := Some [RemoveModifier EnergyRegen ''adrenalineRush'']\<rparr>) s
      in (ReturnsVoid, addLogEntry [T ''Adrenaline Rush activated!''] ''system'' s1))"

text \<open>The effect literal of \<^verbatim>\<open>shadowFocus\<close>: 10 energy every second, for 4 seconds.\<close>

definition shadowFocus_buff :: effect where
  "shadowFocus_buff =
     (new_effect ''shadowFocus'' ''Shadow Focus'' 4)
       \<lparr>tickInterval := Some 1, onTick := Some (RefillEnergy 10)\<rparr>"

definition shadowFocus_handler :: "sim \<Rightarrow> handler_result \<times> sim" where
  "shadowFocus_handler s =
     (let s1 = applyBuff shadowFocus_buff s
      in (ReturnsVoid,
          addLogEntry [T ''Shadow Focus channels energy regeneration.''] ''system'' s1))"

text \<open>The effect literal of \<^verbatim>\<open>bladeFlurry\<close>: +20% attack speed and +20% damage.\<close>

definition bladeFlurry_buff :: effect where
  "bladeFlurry_buff =
     (new_effect ''bladeFlurry'' ''Blade Flurry'' 12)
       \<lparr>onApply := Some [AddModifier AutoSpeed ''bladeFlurry'' (2 / 10),
                         AddModifier Damage ''bladeFlurry'' (2 / 10)],
        onExpire := Some [RemoveModifier AutoSpeed ''bladeFlurry'',
                          RemoveModifier Damage ''bladeFlurry'']\<rparr>"

definition bladeFlurry_handler :: "sim \<Rightarrow> handler_result \<times> sim" where
  "bladeFlurry_handler s =
     (let s1 = applyBuff bladeFlurry_buff s
      in (ReturnsVoid, addLogEntry [T ''Blade Flurry activated!''] ''system'' s1))"

text \<open>The \<^verbatim>\<open>Ability\<close> constructor: \<^verbatim>\<open>comboPoints = 0, cooldown = 0, triggersGcd = true\<close> by default.\<close>

definition new_ability ::
  "string \<Rightarrow> string \<Rightarrow> real \<Rightarrow> real \<Rightarrow> (sim \<Rightarrow> handler_result \<times> sim) \<Rightarrow> ability" where
  "new_ability k nm cost cp h =
     \<lparr>ability_id = k, ability_name = nm, energyCost = cost, ability_comboPoints = cp,
      cooldown = 0, triggersGcd = True, handler = h\<rparr>"

definition initializeAbilities :: "ability list" where
  "initializeAbilities =
     [new_ability ''sinisterStrike'' ''Sinister Strike'' 40 1 sinisterStrike_handler,
      new_ability ''backstab'' ''Backstab'' 60 2 backstab_handler,
      new_ability ''eviscerate'' ''Eviscerate'' 35 0 eviscerate_handler,
      new_ability ''sliceAndDice'' ''Slice and Dice'' 25 0 sliceAndDice_handler,
      new_ability ''rupture'' ''Rupture'' 25 0 rupture_handler,
      new_ability ''hemorrhage'' ''Hemorrhage'' 35 1 hemorrhage_handler,
      new_ability ''envenom'' ''Envenom'' 35 0 envenom_handler,
      new_ability ''exposeArmor'' ''Expose Armor'' 25 0 exposeArmor_handler,
      (new_ability ''adrenalineRush'' ''Adrenaline Rush'' 0 0 adrenalineRush_handler)
        \<lparr>cooldown := 180, triggersGcd := False\<rparr>,
      (new_ability ''shadowFocus'' ''Shadow Focus'' 0 0 shadowFocus_handler)\<lparr>cooldown := 45\<rparr>,
      (new_ability ''bladeFlurry'' ''Blade Flurry'' 25 0 bladeFlurry_handler)
        \<lparr>cooldown := 120, triggersGcd := False\<rparr>]"

definition canUse :: "ability \<Rightarrow> sim \<Rightarrow> bool \<times> sim" where
  "canUse a s =
     (if energy s < energyCost a
      then (False, addLogEntry [T (ability_name a), T '' failed: not enough energy''] ''system'' s)
      else if triggersGcd a \<and> globalCooldown s > 0
      then (False, addLogEntry [T (ability_name a), T '' failed: on global cooldown''] ''system'' s)
      else if map_has (ability_id a) (cooldowns s)
      then (False, addLogEntry [T (ability_name a), T '' failed: ability on cooldown''] ''system'' s)
      else (True, s))"

definition triggerGlobalCooldown :: "sim \<Rightarrow> sim" where
  "triggerGlobalCooldown s = s\<lparr>globalCooldown := general_globalCooldown (config s)\<rparr>"

definition setCooldown :: "string \<Rightarrow> real \<Rightarrow> sim \<Rightarrow> sim" where
  "setCooldown k d s = s\<lparr>cooldowns := map_set k d (cooldowns s)\<rparr>"

definition execute :: "ability \<Rightarrow> sim \<Rightarrow> sim" where
  "execute a s =
     (let s1 = spendEnergy (energyCost a) s;
          (result, s2) = handler a s1
      in if result = ReturnsFalse then refundEnergy (energyCost a) s2
         else
           (let s3 = (if triggersGcd a then triggerGlobalCooldown s2 else s2)
            in if cooldown a > 0 then setCooldown (ability_id a) (cooldown a) s3 else s3))"

definition startCombat :: "sim \<Rightarrow> sim" where
  "startCombat s =
     (if inCombat s then s
      else
        (let s1 = s\<lparr>inCombat := True, cooldowns := [],
                     stats := (stats s)\<lparr>combatTime := 0, totalDamage := 0, hitCount := 0,
                                         critCount := 0, abilityUsage := [], dpsHistory := []\<rparr>,
                     comboPoints := 0, energy := maxEnergy s\<rparr>;
             s2 = (case externalTarget s1 of
                     Some t \<Rightarrow> s1\<lparr>dummyMaxHealth := d_maxHealth t, dummyHealth := d_health t\<rparr>
                   | None \<Rightarrow> s1\<lparr>dummyHealth := dummyMaxHealth s1\<rparr>);
             s3 = s2\<lparr>autoAttackTimer := baseAutoSpeed s2, energyTickProgress := 0\<rparr>
         in addLogEntry [T ''Combat started!''] ''system'' s3))"

definition castAbility :: "string \<Rightarrow> sim \<Rightarrow> sim" where
  "castAbility k s =
     (case find (\<lambda>spell. ability_id spell = k) initializeAbilities of
        None \<Rightarrow> s
      | Some a \<Rightarrow>
          (let s1 = (if \<not> inCombat s then startCombat s else s);
               (ok, s2) = canUse a s1
           in if \<not> ok then s2 else execute a s2))"

section \<open>The tick loop\<close>

text \<open>The body of the \<^verbatim>\<open>for\<close> loop of \<^verbatim>\<open>updateCooldowns\<close>, over a snapshot of the entries.\<close>

definition tick_cooldown :: "real \<Rightarrow> real \<Rightarrow> string \<times> real \<Rightarrow> sim \<Rightarrow> sim" where
  "tick_cooldown delta rate entry s =
     (let next = snd entry - delta * rate
      in if next \<le> 0 then s\<lparr>cooldowns := map_delete (fst entry) (cooldowns s)\<rparr>
         else s\<lparr>cooldowns := map_set (fst entry) next (cooldowns s)\<rparr>)"

definition updateCooldowns :: "real \<Rightarrow> sim \<Rightarrow> sim" where
  "updateCooldowns delta s =
     (let rate = getCooldownRateMultiplier s
      in fold (tick_cooldown delta rate) (cooldowns s) s)"

fun run_tick_action :: "tick_action \<Rightarrow> sim \<Rightarrow> sim" where
  "run_tick_action (RefillEnergy n) s = refillEnergy n s"
| "run_tick_action (DotDamage n nm k) s =
     applyDamage n \<lparr>ctx_ability = Some (nm, k), isCrit = False, isAuto = False, isDot = True\<rparr> s"

text \<open>\<^verbatim>\<open>buff.onTick?.()\<close>\<close>

definition call_onTick :: "effect \<Rightarrow> sim \<Rightarrow> sim" where
  "call_onTick e s =
     (case onTick e of None \<Rightarrow> s
      | Some act \<Rightarrow> run_tick_action act (s\<lparr>trace := trace s @ [OnTick (effect_id e)]\<rparr>))"

datatype effect_map = Buffs | Debuffs

fun get_effects :: "effect_map \<Rightarrow> sim \<Rightarrow> (string \<times> effect) list" where
  "get_effects Buffs s = buffs s"
| "get_effects Debuffs s = debuffs s"

fun set_effects :: "effect_map \<Rightarrow> (string \<times> effect) list \<Rightarrow> sim \<Rightarrow> sim" where
  "set_effects Buffs m s = s\<lparr>buffs := m\<rparr>"
| "set_effects Debuffs m s = s\<lparr>debuffs := m\<rparr>"

text \<open>
  The body of the \<^verbatim>\<open>for\<close> loop of \<^verbatim>\<open>updateMap\<close> in \<^verbatim>\<open>updateBuffs\<close>. The loop runs
  over a snapshot of the entries; each entry's object is changed in its own turn only, so
  the object is the snapshot's value. It is written back under its id (or the id is
  deleted) in the map as it is after the callbacks, whatever they did to the map.
\<close>

definition tick_effect :: "effect_map \<Rightarrow> real \<Rightarrow> string \<times> effect \<Rightarrow> sim \<Rightarrow> sim" where
  "tick_effect m delta entry s =
     (let k = fst entry;
          b1 = (snd entry)\<lparr>remaining := remaining (snd entry) - delta\<rparr>;
          (b2, s1) =
            (case tickInterval b1 of
               Some ti \<Rightarrow>
                 if ti \<noteq> 0 then
                   (let tp = (case tickProgress b1 of Some p \<Rightarrow> p | None \<Rightarrow> 0) + delta
                    in if tp \<ge> ti then (b1\<lparr>tickProgress := Some (tp - ti)\<rparr>, call_onTick b1 s)
                       else (b1\<lparr>tickProgress := Some tp\<rparr>, s))
                 else (b1, s)
             | None \<Rightarrow> (b1, s))
      in if remaining b2 \<le> 0 then
           (let s2 = call_onExpire b2 s1;
                s3 = set_effects m (map_delete k (get_effects m s2)) s2
            in addLogEntry [T (effect_name b2), T '' faded.''] ''system'' s3)
         else set_effects m (map_set k b2 (get_effects m s1)) s1)"

definition updateMap :: "effect_map \<Rightarrow> real \<Rightarrow> sim \<Rightarrow> sim" where
  "updateMap m delta s = fold (tick_effect m delta) (get_effects m s) s"

definition updateBuffs :: "real \<Rightarrow> sim \<Rightarrow> sim" where
  "updateBuffs delta s = updateMap Debuffs delta (updateMap Buffs delta s)"

text \<open>
  The \<^verbatim>\<open>while\<close> loop of \<^verbatim>\<open>handleEnergy\<close>. With a tick interval \<open>\<le> 0\<close> that the progress
  has reached, the loop of the source never exits: \<open>handleEnergy\<close> is then \<open>None\<close>, and
  the recursion below is only entered with a positive interval.
\<close>

function energy_loop :: "real \<Rightarrow> real \<Rightarrow> sim \<Rightarrow> sim" where
  "energy_loop ti gain s =
     (if 0 < ti \<and> ti \<le> energyTickProgress s
      then energy_loop ti gain (refillEnergy gain (s\<lparr>energyTickProgress := energyTickProgress s - ti\<rparr>))
      else s)"
  by pat_completeness auto

termination energy_loop
proof (relation "measure (\<lambda>(ti, gain, s). nat \<lfloor>energyTickProgress s / ti\<rfloor>)", goal_cases)
  case 1
  show ?case by simp
next
  case (2 ti gain s)
  then have pos: "0 < ti" and reached: "ti \<le> energyTickProgress s"
    by auto
  have "(energyTickProgress s - ti) / ti = energyTickProgress s / ti - 1"
    using pos by (simp add: field_simps)
  moreover have "1 \<le> energyTickProgress s / ti"
    using pos reached by simp
  then have "1 \<le> \<lfloor>energyTickProgress s / ti\<rfloor>"
    by linarith
  ultimately show ?case
    by (simp add: refillEnergy_def Let_def addLogEntry_def)
qed

text \<open>The equation is unfolded one step at a time, where a proof asks for it.\<close>

declare energy_loop.simps [simp del]

definition handleEnergy :: "real \<Rightarrow> sim \<Rightarrow> sim option" where
  "handleEnergy delta s =
     (let regenPerTick = energyPerTick (cfg_regen (config s)) * (1 + talentBonus (cfg_regen (config s)));
          ti = regen_tickInterval (cfg_regen (config s));
          multiplier = getEnergyRegenMultiplier s;
          s1 = s\<lparr>energyTickProgress := energyTickProgress s + delta\<rparr>
      in if ti \<le> 0 \<and> ti \<le> energyTickProgress s1 then None
         else Some (energy_loop ti (regenPerTick * multiplier) s1))"

definition performAutoAttack :: "sim \<Rightarrow> sim" where
  "performAutoAttack s =
     (let (w, s1) = rollWeaponDamage 1 s;
          base = w + getAttackPowerContribution (12 / 10) s1
      in performWhiteDamage base s1)"

definition handleAutoAttack :: "real \<Rightarrow> sim \<Rightarrow> sim" where
  "handleAutoAttack delta s =
     (let interval = baseAutoSpeed s / getAutoSpeedMultiplier s;
          s1 = s\<lparr>autoAttackTimer := autoAttackTimer s - delta\<rparr>
      in if autoAttackTimer s1 \<le> 0 then
           (let s2 = performAutoAttack s1 in s2\<lparr>autoAttackTimer := autoAttackTimer s2 + interval\<rparr>)
         else s1)"

definition updateDpsHistory :: "sim \<Rightarrow> sim" where
  "updateDpsHistory s =
     (let time = combatTime (stats s);
          h = dpsHistory (stats s)
      in if h = [] \<or> time - fst (last h) \<ge> 1 then
           (let h1 = h @ [(time, getCurrentDps s)];
                h2 = (if length h1 > 120 then tl h1 else h1)
            in s\<lparr>stats := (stats s)\<lparr>dpsHistory := h2\<rparr>\<rparr>)
         else s)"

text \<open>One pass of the \<^verbatim>\<open>while (remaining > 0)\<close> loop of \<^verbatim>\<open>update\<close>.\<close>

definition update_step :: "real \<Rightarrow> sim \<Rightarrow> sim option" where
  "update_step step s =
     (let s1 = s\<lparr>globalCooldown := max 0 (globalCooldown s - step)\<rparr>;
          s2 = updateCooldowns step s1
      in if inCombat s2 then
           (let s3 = s2\<lparr>stats := (stats s2)\<lparr>combatTime := combatTime (stats s2) + step\<rparr>\<rparr>;
                s4 = updateBuffs step s3
            in (case handleEnergy step s4 of
                  None \<Rightarrow> None
                | Some s5 \<Rightarrow> Some (updateDpsHistory (handleAutoAttack step s5))))
         else Some s2)"

function update_loop :: "real \<Rightarrow> sim \<Rightarrow> sim option" where
  "update_loop rem s =
     (if rem > 0 then
        (case update_step (min rem (1 / 2)) s of
           None \<Rightarrow> None
         | Some s' \<Rightarrow> update_loop (rem - min rem (1 / 2)) s')
      else Some s)"
  by pat_completeness auto

termination update_loop
proof (relation "measure (\<lambda>(rem, s). nat \<lceil>2 * rem\<rceil>)", goal_cases)
  case 1
  show ?case by simp
next
  case (2 rem s s')
  then have pos: "0 < rem"
    by simp
  then have ceil_pos: "0 < \<lceil>2 * rem\<rceil>"
    by linarith
  show ?case
  proof (cases "rem \<le> 1 / 2")
    case True
    then have "min rem (1 / 2) = rem"
      by simp
    then show ?thesis
      using ceil_pos by simp
  next
    case False
    then have half: "min rem (1 / 2) = 1 / 2"
      by simp
    have "\<lceil>2 * (rem - 1 / 2)\<rceil> = \<lceil>2 * rem\<rceil> - 1"
      by (simp add: algebra_simps)
    then show ?thesis
      using half ceil_pos by simp
  qed
qed

declare update_loop.simps [simp del]

text \<open>
  \<^verbatim>\<open>update(delta)\<close>, the engine's \<open>advance\<close>. The calls that redraw the page after
  the loop change nothing in the engine and are left out.
\<close>

definition update :: "real \<Rightarrow> sim \<Rightarrow> sim option" where
  "update delta s = update_loop (max delta 0) s"

section \<open>Configuration\<close>

definition getDefaultConfig :: rogue_config where
  "getDefaultConfig =
     \<lparr>cfg_stats = \<lparr>attackPower = 1200, weaponMin = 150, weaponMax = 220, critChance = 25,
                   hitChance = 95\<rparr>,
      cfg_regen = \<lparr>regen_tickInterval = 2, energyPerTick = 20, talentBonus = 3 / 10,
                   regen_maxEnergy = 100\<rparr>,
      general_globalCooldown = 1,
      talents = \<lparr>precisionStrikes = False, relentlessStrikes = False, shadowTechniques = False\<rparr>,
      procs = getDefaultProcConfig\<rparr>"

text \<open>\<^verbatim>\<open>Partial<RogueConfig>\<close>: each group is given whole or not at all.\<close>

record partial_config =
  pc_stats :: "stats_config option"
  pc_regen :: "regen_config option"
  pc_globalCooldown :: "real option"
  pc_talents :: "talents_config option"
  pc_procs :: "(string \<times> proc_config) list option"

definition applyConfigDefaults :: "partial_config \<Rightarrow> rogue_config" where
  "applyConfigDefaults c =
     \<lparr>cfg_stats = (case pc_stats c of Some x \<Rightarrow> x | None \<Rightarrow> cfg_stats getDefaultConfig),
      cfg_regen = (case pc_regen c of Some x \<Rightarrow> x | None \<Rightarrow> cfg_regen getDefaultConfig),
      general_globalCooldown =
        (case pc_globalCooldown c of Some x \<Rightarrow> x | None \<Rightarrow> general_globalCooldown getDefaultConfig),
      talents = (case pc_talents c of Some x \<Rightarrow> x | None \<Rightarrow> talents getDefaultConfig),
      procs = (case pc_procs c of Some x \<Rightarrow> x | None \<Rightarrow> procs getDefaultConfig)\<rparr>"

definition updateConfig :: "partial_config \<Rightarrow> sim \<Rightarrow> sim" where
  "updateConfig newConfig s =
     (let merged0 = applyConfigDefaults newConfig;
          merged = merged0\<lparr>procs := ProcSystem_updateConfig (procs merged0)\<rparr>;
          s1 = s\<lparr>config := merged\<rparr>;
          s2 = s1\<lparr>maxEnergy := regen_maxEnergy (cfg_regen (config s1))\<rparr>;
          s3 = s2\<lparr>energy := min (energy s2) (maxEnergy s2)\<rparr>
      in if \<not> inCombat s3 then s3\<lparr>energy := maxEnergy s3\<rparr> else s3)"

text \<open>
  The state the \<^verbatim>\<open>RogueSimulator\<close> constructor builds, given the configuration read from
  the page and the random source.
\<close>

definition new_simulator :: "partial_config \<Rightarrow> (nat \<Rightarrow> real) \<Rightarrow> sim" where
  "new_simulator inputs rnd =
     (let c0 = applyConfigDefaults inputs;
          c = c0\<lparr>procs := ProcSystem_updateConfig (procs c0)\<rparr>
      in \<lparr>inCombat = False, energy = regen_maxEnergy (cfg_regen c),
          maxEnergy = regen_maxEnergy (cfg_regen c), comboPoints = 0, maxComboPoints = 5,
          globalCooldown = 0, dummyMaxHealth = 1000000, dummyHealth = 1000000,
          autoAttackTimer = 2, baseAutoSpeed = 2, energyTickProgress = 0,
          modifiers = (\<lambda>ty. []), buffs = [], debuffs = [], cooldowns = [],
          stats = \<lparr>totalDamage = 0, hitCount = 0, critCount = 0, combatTime = 0,
                   dpsHistory = [], abilityUsage = []\<rparr>,
          config = c, externalTarget = None, sessionHistory = [], currentSession = None,
          previousSession = None, ui = [], trace = [], random_src = rnd, random_pos = 0\<rparr>)"

section \<open>Definitions used by the properties\<close>

text \<open>A simulator whose weapon bounds are reversed, \<open>weaponMin > weaponMax\<close>.\<close>

definition reversed_weapon_sim :: sim where
  "reversed_weapon_sim =
     new_simulator \<lparr>pc_stats = Some \<lparr>attackPower = 1200, weaponMin = 220, weaponMax = 150,
                                      critChance = 25, hitChance = 95\<rparr>,
                    pc_regen = None, pc_globalCooldown = None, pc_talents = None, pc_procs = None\<rparr>
       (\<lambda>n. 1 / 2)"

text \<open>A simulator as the constructor leaves it, with the default configuration.\<close>

definition fresh_sim :: sim where
  "fresh_sim =
     new_simulator \<lparr>pc_stats = None, pc_regen = None, pc_globalCooldown = None,
                    pc_talents = None, pc_procs = None\<rparr> (\<lambda>n. 1 / 2)"

text \<open>The armor reduction of the active \<^verbatim>\<open>exposeArmor\<close> debuff, 0 when there is none.\<close>

definition exposeArmor_reduction :: "sim \<Rightarrow> real" where
  "exposeArmor_reduction s =
     (case map_of (debuffs s) ''exposeArmor'' of
        Some e \<Rightarrow> (case armorReduction e of Some r \<Rightarrow> r | None \<Rightarrow> 0)
      | None \<Rightarrow> 0)"

text \<open>
  Out of combat with the Expose Armor debuff (armor reduction 0.08) on the target, and the
  same with the Overpowering Strikes proc at its default +15% damage.
\<close>

definition exposed_sim :: sim where
  "exposed_sim = applyDebuff (exposeArmor_debuff 15) fresh_sim"

definition empowered_sim :: sim where
  "empowered_sim = snd (overpoweringStrikes_onTrigger (defaultConfig overpoweringStrikes) exposed_sim)"

definition auto_hit :: damage_context where
  "auto_hit = \<lparr>ctx_ability = Some (''Auto Attack'', ''auto''), isCrit = False, isAuto = True, isDot = False\<rparr>"

text \<open>A proc definition's defaults with the input for its id spread over them.\<close>

definition merged_over_defaults :: "(string \<times> proc_config) list \<Rightarrow> proc_def \<Rightarrow> proc_config" where
  "merged_over_defaults newConfig d =
     spread (defaultConfig d) (case map_of newConfig (proc_id d) of None \<Rightarrow> [] | Some c \<Rightarrow> c)"

text \<open>An out-of-range input for Energy Surge, and what the update makes of it.\<close>

definition wild_proc_input :: "(string \<times> proc_config) list" where
  "wild_proc_input =
     [(''energySurge'', [(''chance'', JNum 250), (''enabled'', JNum 1), (''energyGain'', JNum (- 5))])]"

definition tamed_energySurge :: proc_config where
  "tamed_energySurge = [(''enabled'', JBool True), (''chance'', JNum 100), (''energyGain'', JNum 0)]"

text \<open>
  The value of a declared field lies within the field's declared bounds. The comparisons
  are the language's: none holds for \<^verbatim>\<open>NaN\<close>.
\<close>

definition within_bounds :: "proc_field \<Rightarrow> jsval \<Rightarrow> bool" where
  "within_bounds f v =
     (case js_Number v of
        None \<Rightarrow> False
      | Some x \<Rightarrow> (case field_min f of Some lo \<Rightarrow> lo \<le> x | None \<Rightarrow> True)
                 \<and> (case field_max f of Some hi \<Rightarrow> x \<le> hi | None \<Rightarrow> True))"

text \<open>
  Clamping in words: a number below the declared minimum becomes the minimum, one above
  the declared maximum becomes the maximum, any other number is kept.
\<close>

definition nearest_in_bounds :: "proc_field \<Rightarrow> real \<Rightarrow> real" where
  "nearest_in_bounds f x =
     (let kept_or_max = (case field_max f of Some hi \<Rightarrow> if hi < x then hi else x | None \<Rightarrow> x)
      in (case field_min f of Some lo \<Rightarrow> if x < lo then lo else kept_or_max | None \<Rightarrow> kept_or_max))"

text \<open>An input whose chance for Energy Surge is \<^verbatim>\<open>NaN\<close>, and what the update makes of it.\<close>

definition nan_proc_input :: "(string \<times> proc_config) list" where
  "nan_proc_input = [(''energySurge'', [(''chance'', JNaN)])]"

definition nan_energySurge :: proc_config where
  "nan_energySurge = [(''enabled'', JBool True), (''chance'', JNaN), (''energyGain'', JNum 25)]"

text \<open>How often the \<open>onTick\<close> callback of the effect with id \<open>k\<close> has run.\<close>

definition ticks_fired :: "string \<Rightarrow> sim \<Rightarrow> nat" where
  "ticks_fired k s = length (filter (\<lambda>e. e = OnTick k) (trace s))"

text \<open>The accumulated tick progress of an effect: \<^verbatim>\<open>buff.tickProgress || 0\<close>.\<close>

definition progress_of :: "effect \<Rightarrow> real" where
  "progress_of b = (case tickProgress b of Some p \<Rightarrow> p | None \<Rightarrow> 0)"

text \<open>In combat, out of energy, with Shadow Focus (10 energy every second) just applied.\<close>

definition focus_sim :: sim where
  "focus_sim = applyBuff shadowFocus_buff ((startCombat fresh_sim)\<lparr>energy := 0\<rparr>)"

text \<open>
  The energy a proc restores when it fires under the current configuration: its
  \<^verbatim>\<open>energyGain\<close> (negative or non-numeric reads as 0), and 0 when the proc is disabled.
\<close>

definition proc_gain :: "sim \<Rightarrow> string \<Rightarrow> real" where
  "proc_gain s pid =
     (case map_of (procs (config s)) pid of
        None \<Rightarrow> 0
      | Some cfg \<Rightarrow>
          if js_Boolean (js_get cfg ''enabled'')
          then max 0 (number_or_zero (js_get cfg ''energyGain'')) else 0)"

text \<open>
  The energy levels one damage event can lead to: Energy Surge and Shadow Recovery are the
  two procs that restore energy, each may fire or not, and energy is capped at \<open>maxEnergy\<close>.
\<close>

definition energy_outcomes :: "sim \<Rightarrow> real set" where
  "energy_outcomes s =
     {energy s,
      min (maxEnergy s) (energy s + proc_gain s ''energySurge''),
      min (maxEnergy s) (energy s + proc_gain s ''shadowRecovery''),
      min (maxEnergy s) (min (maxEnergy s) (energy s + proc_gain s ''energySurge'')
                          + proc_gain s ''shadowRecovery'')}"

text \<open>
  Scenario A: a simulator built with \<open>hitChance = 100\<close>, the other settings at their
  defaults and the given proc input, with combat started.
\<close>

definition arena :: "(string \<times> proc_config) list option \<Rightarrow> (nat \<Rightarrow> real) \<Rightarrow> sim" where
  "arena proc_input rnd =
     startCombat
       (new_simulator
          \<lparr>pc_stats = Some \<lparr>attackPower = 1200, weaponMin = 150, weaponMax = 220,
                             critChance = 25, hitChance = 100\<rparr>,
           pc_regen = None, pc_globalCooldown = None, pc_talents = None,
           pc_procs = proc_input\<rparr> rnd)"

text \<open>A proc input that switches the two energy-restoring procs off.\<close>

definition no_energy_procs :: "(string \<times> proc_config) list" where
  "no_energy_procs =
     [(''energySurge'', [(''enabled'', JBool False)]),
      (''shadowRecovery'', [(''enabled'', JBool False)])]"

text \<open>Draws under which only Energy Surge fires on the first ability hit.\<close>

definition surge_draws :: "nat \<Rightarrow> real" where
  "surge_draws n = (if n = 3 then 0 else 99 / 100)"

text \<open>The global cooldown is what it was, or has been reset to 0 (combat ended).\<close>

definition gcd_kept :: "sim \<Rightarrow> sim \<Rightarrow> bool" where
  "gcd_kept s s' = (globalCooldown s' = globalCooldown s \<or> globalCooldown s' = 0)"

text \<open>
  The cooldown state is well formed: the cooldown map has one entry per id (it is a
  \<^verbatim>\<open>Map\<close>), every entry is positive, and the global cooldown is not negative.
\<close>

definition cooldowns_ok :: "sim \<Rightarrow> bool" where
  "cooldowns_ok s =
     (distinct (map fst (cooldowns s)) \<and> (\<forall>k v. map_of (cooldowns s) k = Some v \<longrightarrow> 0 < v)
      \<and> 0 \<le> globalCooldown s)"

text \<open>From \<open>s\<close> to \<open>s'\<close> no cooldown has grown and none has appeared.\<close>

definition cooldowns_le :: "sim \<Rightarrow> sim \<Rightarrow> bool" where
  "cooldowns_le s s' =
     (globalCooldown s' \<le> globalCooldown s
      \<and> (\<forall>k v'. map_of (cooldowns s') k = Some v' \<longrightarrow>
            (\<exists>v. map_of (cooldowns s) k = Some v \<and> v' \<le> v)))"

text \<open>A sequence of \<open>update\<close> calls, with nothing in between.\<close>

fun advances :: "real list \<Rightarrow> sim \<Rightarrow> sim option" where
  "advances [] s = Some s"
| "advances (d # ds) s = (case update d s of None \<Rightarrow> None | Some s' \<Rightarrow> advances ds s')"

text \<open>In combat, with the global cooldown running and Shadow Focus on cooldown.\<close>

definition cooling_sim :: sim where
  "cooling_sim = (startCombat fresh_sim)\<lparr>globalCooldown := 1, cooldowns := [(''shadowFocus'', 3 / 10)]\<rparr>"

text \<open>Energy and combo points are within their ranges.\<close>

definition resources_ok :: "sim \<Rightarrow> bool" where
  "resources_ok s =
     (0 \<le> energy s \<and> energy s \<le> maxEnergy s
      \<and> 0 \<le> comboPoints s \<and> comboPoints s \<le> maxComboPoints s)"

text \<open>
  An effect whose tick restores energy restores a non-negative amount (Shadow Focus, the
  one such effect of the source, restores 10).
\<close>

definition refill_nonneg :: "effect \<Rightarrow> bool" where
  "refill_nonneg e = (case onTick e of Some (RefillEnergy n) \<Rightarrow> 0 \<le> n | _ \<Rightarrow> True)"

definition ticks_ok :: "sim \<Rightarrow> bool" where
  "ticks_ok s = (list_all (\<lambda>entry. refill_nonneg (snd entry)) (buffs s)
               \<and> list_all (\<lambda>entry. refill_nonneg (snd entry)) (debuffs s))"

text \<open>The configured energy per regeneration tick is not negative.\<close>

definition regen_ok :: "sim \<Rightarrow> bool" where
  "regen_ok s = (0 \<le> energyPerTick (cfg_regen (config s)) * (1 + talentBonus (cfg_regen (config s))))"

text \<open>A configuration input that lowers the energy cap to 30 and changes nothing else.\<close>

definition low_cap_input :: partial_config where
  "low_cap_input =
     \<lparr>pc_stats = None,
      pc_regen = Some \<lparr>regen_tickInterval = 2, energyPerTick = 20, talentBonus = 3 / 10,
                       regen_maxEnergy = 30\<rparr>,
      pc_globalCooldown = None, pc_talents = None, pc_procs = None\<rparr>"

text \<open>
  The state of an engine in service: the resources are in range, tick refills are not
  negative, and the regeneration settings are those the page can produce (a positive tick
  interval, a non-negative energy per tick).
\<close>

definition engine_ok :: "sim \<Rightarrow> bool" where
  "engine_ok s = (resources_ok s \<and> ticks_ok s \<and> regen_ok s
                \<and> 0 < regen_tickInterval (cfg_regen (config s)))"

text \<open>The mutating operations of the engine, with their arguments.\<close>

datatype operation =
    Spend real | Refund real | Refill real | AddCombo real | ConsumeCombo real
  | Advance real | Cast string | Configure partial_config

fun run_op :: "operation \<Rightarrow> sim \<Rightarrow> sim option" where
  "run_op (Spend a) s = Some (spendEnergy a s)"
| "run_op (Refund a) s = Some (refundEnergy a s)"
| "run_op (Refill a) s = Some (refillEnergy a s)"
| "run_op (AddCombo a) s = Some (addComboPoints a s)"
| "run_op (ConsumeCombo a) s = Some (consumeComboPoints a s)"
| "run_op (Advance d) s = update d s"
| "run_op (Cast k) s = Some (castAbility k s)"
| "run_op (Configure c) s = Some (updateConfig c s)"

text \<open>
  The arguments the engine passes: amounts are not negative, and a regeneration group is
  as \<^verbatim>\<open>getConfigFromInputs\<close> builds it (tick interval at least 0.1, energy per tick and
  talent bonus at least 0, energy cap between 100 and 250). Of the group only this much is
  needed: a positive tick interval, a non-negative energy per tick after the talent bonus,
  a non-negative energy cap.
\<close>

definition regen_input_ok :: "regen_config \<Rightarrow> bool" where
  "regen_input_ok r = (0 < regen_tickInterval r \<and> 0 \<le> energyPerTick r * (1 + talentBonus r)
                     \<and> 0 \<le> regen_maxEnergy r)"

fun op_ok :: "operation \<Rightarrow> bool" where
  "op_ok (Spend a) = (0 \<le> a)"
| "op_ok (Refund a) = (0 \<le> a)"
| "op_ok (Refill a) = (0 \<le> a)"
| "op_ok (AddCombo a) = (0 \<le> a)"
| "op_ok (ConsumeCombo a) = (0 \<le> a)"
| "op_ok (Advance d) = True"
| "op_ok (Cast k) = True"
| "op_ok (Configure c) = (case pc_regen c of None \<Rightarrow> True | Some r \<Rightarrow> regen_input_ok r)"

text \<open>
  Configuration inputs the page cannot produce: an energy cap of \<open>-10\<close>, and an energy per
  tick of \<open>-200\<close> every half second.
\<close>

definition negative_cap_input :: partial_config where
  "negative_cap_input =
     \<lparr>pc_stats = None,
      pc_regen = Some \<lparr>regen_tickInterval = 2, energyPerTick = 20, talentBonus = 3 / 10,
                       regen_maxEnergy = - 10\<rparr>,
      pc_globalCooldown = None, pc_talents = None, pc_procs = None\<rparr>"

definition drain_input :: partial_config where
  "drain_input =
     \<lparr>pc_stats = None,
      pc_regen = Some \<lparr>regen_tickInterval = 1 / 2, energyPerTick = - 200, talentBonus = 0,
                       regen_maxEnergy = 100\<rparr>,
      pc_globalCooldown = None, pc_talents = None, pc_procs = None\<rparr>"

section \<open>Frame lemmas: what each operation leaves unchanged\<close>

lemma fold_sel:
  assumes "\<And>x s. sel (f x s) = sel s"
  shows "sel (fold f xs s) = sel s"
  using assms by (induction xs arbitrary: s) simp_all

lemma fold_sel_in:
  assumes "\<And>x s. x \<in> set xs \<Longrightarrow> sel (f x s) = sel s"
  shows "sel (fold f xs s) = sel s"
  using assms by (induction xs arbitrary: s) simp_all

lemma addLogEntry_sel [simp]:
  "inCombat (addLogEntry m t s) = inCombat s" "energy (addLogEntry m t s) = energy s"
  "maxEnergy (addLogEntry m t s) = maxEnergy s" "comboPoints (addLogEntry m t s) = comboPoints s"
  "maxComboPoints (addLogEntry m t s) = maxComboPoints s"
  "globalCooldown (addLogEntry m t s) = globalCooldown s"
  "dummyHealth (addLogEntry m t s) = dummyHealth s"
  "dummyMaxHealth (addLogEntry m t s) = dummyMaxHealth s"
  "externalTarget (addLogEntry m t s) = externalTarget s" "buffs (addLogEntry m t s) = buffs s"
  "debuffs (addLogEntry m t s) = debuffs s" "modifiers (addLogEntry m t s) = modifiers s"
  "cooldowns (addLogEntry m t s) = cooldowns s" "stats (addLogEntry m t s) = stats s"
  "config (addLogEntry m t s) = config s" "trace (addLogEntry m t s) = trace s"
  "random_src (addLogEntry m t s) = random_src s"
  by (simp_all add: addLogEntry_def)

lemma showFloatingText_sel [simp]:
  "inCombat (showFloatingText m t s) = inCombat s" "energy (showFloatingText m t s) = energy s"
  "maxEnergy (showFloatingText m t s) = maxEnergy s"
  "comboPoints (showFloatingText m t s) = comboPoints s"
  "maxComboPoints (showFloatingText m t s) = maxComboPoints s"
  "globalCooldown (showFloatingText m t s) = globalCooldown s"
  "dummyHealth (showFloatingText m t s) = dummyHealth s"
  "dummyMaxHealth (showFloatingText m t s) = dummyMaxHealth s"
  "externalTarget (showFloatingText m t s) = externalTarget s"
  "buffs (showFloatingText m t s) = buffs s" "debuffs (showFloatingText m t s) = debuffs s"
  "modifiers (showFloatingText m t s) = modifiers s"
  "cooldowns (showFloatingText m t s) = cooldowns s" "stats (showFloatingText m t s) = stats s"
  "config (showFloatingText m t s) = config s" "trace (showFloatingText m t s) = trace s"
  "random_src (showFloatingText m t s) = random_src s"
  by (simp_all add: showFloatingText_def)

lemma Math_random_sel [simp]:
  "inCombat (snd (Math_random s)) = inCombat s" "energy (snd (Math_random s)) = energy s"
  "maxEnergy (snd (Math_random s)) = maxEnergy s"
  "comboPoints (snd (Math_random s)) = comboPoints s"
  "maxComboPoints (snd (Math_random s)) = maxComboPoints s"
  "globalCooldown (snd (Math_random s)) = globalCooldown s"
  "dummyHealth (snd (Math_random s)) = dummyHealth s"
  "dummyMaxHealth (snd (Math_random s)) = dummyMaxHealth s"
  "externalTarget (snd (Math_random s)) = externalTarget s"
  "buffs (snd (Math_random s)) = buffs s" "debuffs (snd (Math_random s)) = debuffs s"
  "modifiers (snd (Math_random s)) = modifiers s" "cooldowns (snd (Math_random s)) = cooldowns s"
  "stats (snd (Math_random s)) = stats s" "config (snd (Math_random s)) = config s"
  "trace (snd (Math_random s)) = trace s" "random_src (snd (Math_random s)) = random_src s"
  "fst (Math_random s) = random_src s (random_pos s)"
  by (simp_all add: Math_random_def)

lemma spendEnergy_sel [simp]:
  "inCombat (spendEnergy a s) = inCombat s" "maxEnergy (spendEnergy a s) = maxEnergy s"
  "comboPoints (spendEnergy a s) = comboPoints s"
  "maxComboPoints (spendEnergy a s) = maxComboPoints s"
  "globalCooldown (spendEnergy a s) = globalCooldown s"
  "dummyHealth (spendEnergy a s) = dummyHealth s"
  "dummyMaxHealth (spendEnergy a s) = dummyMaxHealth s"
  "externalTarget (spendEnergy a s) = externalTarget s" "buffs (spendEnergy a s) = buffs s"
  "debuffs (spendEnergy a s) = debuffs s" "modifiers (spendEnergy a s) = modifiers s"
  "cooldowns (spendEnergy a s) = cooldowns s" "stats (spendEnergy a s) = stats s"
  "config (spendEnergy a s) = config s" "trace (spendEnergy a s) = trace s"
  "random_src (spendEnergy a s) = random_src s" "energy (spendEnergy a s) = max 0 (energy s - a)"
  by (simp_all add: spendEnergy_def)

lemma refundEnergy_sel [simp]:
  "inCombat (refundEnergy a s) = inCombat s" "maxEnergy (refundEnergy a s) = maxEnergy s"
  "comboPoints (refundEnergy a s) = comboPoints s"
  "maxComboPoints (refundEnergy a s) = maxComboPoints s"
  "globalCooldown (refundEnergy a s) = globalCooldown s"
  "dummyHealth (refundEnergy a s) = dummyHealth s"
  "dummyMaxHealth (refundEnergy a s) = dummyMaxHealth s"
  "externalTarget (refundEnergy a s) = externalTarget s" "buffs (refundEnergy a s) = buffs s"
  "debuffs (refundEnergy a s) = debuffs s" "modifiers (refundEnergy a s) = modifiers s"
  "cooldowns (refundEnergy a s) = cooldowns s" "stats (refundEnergy a s) = stats s"
  "config (refundEnergy a s) = config s" "trace (refundEnergy a s) = trace s"
  "random_src (refundEnergy a s) = random_src s"
  "energy (refundEnergy a s) = min (maxEnergy s) (energy s + a)"
  by (simp_all add: refundEnergy_def)

lemma refillEnergy_sel [simp]:
  "inCombat (refillEnergy a s) = inCombat s" "maxEnergy (refillEnergy a s) = maxEnergy s"
  "comboPoints (refillEnergy a s) = comboPoints s"
  "maxComboPoints (refillEnergy a s) = maxComboPoints s"
  "globalCooldown (refillEnergy a s) = globalCooldown s"
  "dummyHealth (refillEnergy a s) = dummyHealth s"
  "dummyMaxHealth (refillEnergy a s) = dummyMaxHealth s"
  "externalTarget (refillEnergy a s) = externalTarget s" "buffs (refillEnergy a s) = buffs s"
  "debuffs (refillEnergy a s) = debuffs s" "modifiers (refillEnergy a s) = modifiers s"
  "cooldowns (refillEnergy a s) = cooldowns s" "stats (refillEnergy a s) = stats s"
  "config (refillEnergy a s) = config s" "trace (refillEnergy a s) = trace s"
  "random_src (refillEnergy a s) = random_src s"
  "energy (refillEnergy a s) = min (maxEnergy s) (energy s + a)"
  by (simp_all add: refillEnergy_def Let_def)

lemma addComboPoints_sel [simp]:
  "inCombat (addComboPoints a s) = inCombat s" "energy (addComboPoints a s) = energy s"
  "maxEnergy (addComboPoints a s) = maxEnergy s"
  "maxComboPoints (addComboPoints a s) = maxComboPoints s"
  "globalCooldown (addComboPoints a s) = globalCooldown s"
  "dummyHealth (addComboPoints a s) = dummyHealth s"
  "dummyMaxHealth (addComboPoints a s) = dummyMaxHealth s"
  "externalTarget (addComboPoints a s) = externalTarget s" "buffs (addComboPoints a s) = buffs s"
  "debuffs (addComboPoints a s) = debuffs s" "modifiers (addComboPoints a s) = modifiers s"
  "cooldowns (addComboPoints a s) = cooldowns s" "stats (addComboPoints a s) = stats s"
  "config (addComboPoints a s) = config s" "trace (addComboPoints a s) = trace s"
  "random_src (addComboPoints a s) = random_src s"
  "comboPoints (addComboPoints a s) = min (maxComboPoints s) (comboPoints s + a)"
  by (simp_all add: addComboPoints_def)

lemma consumeComboPoints_sel [simp]:
  "inCombat (consumeComboPoints a s) = inCombat s" "energy (consumeComboPoints a s) = energy s"
  "maxEnergy (consumeComboPoints a s) = maxEnergy s"
  "maxComboPoints (consumeComboPoints a s) = maxComboPoints s"
  "globalCooldown (consumeComboPoints a s) = globalCooldown s"
  "dummyHealth (consumeComboPoints a s) = dummyHealth s"
  "dummyMaxHealth (consumeComboPoints a s) = dummyMaxHealth s"
  "externalTarget (consumeComboPoints a s) = externalTarget s"
  "buffs (consumeComboPoints a s) = buffs s" "debuffs (consumeComboPoints a s) = debuffs s"
  "modifiers (consumeComboPoints a s) = modifiers s"
  "cooldowns (consumeComboPoints a s) = cooldowns s" "stats (consumeComboPoints a s) = stats s"
  "config (consumeComboPoints a s) = config s" "trace (consumeComboPoints a s) = trace s"
  "random_src (consumeComboPoints a s) = random_src s"
  "comboPoints (consumeComboPoints a s) = max 0 (comboPoints s - a)"
  by (simp_all add: consumeComboPoints_def)

lemma addModifier_sel [simp]:
  "inCombat (addModifier ty k v s) = inCombat s" "energy (addModifier ty k v s) = energy s"
  "maxEnergy (addModifier ty k v s) = maxEnergy s"
  "comboPoints (addModifier ty k v s) = comboPoints s"
  "maxComboPoints (addModifier ty k v s) = maxComboPoints s"
  "globalCooldown (addModifier ty k v s) = globalCooldown s"
  "dummyHealth (addModifier ty k v s) = dummyHealth s"
  "dummyMaxHealth (addModifier ty k v s) = dummyMaxHealth s"
  "externalTarget (addModifier ty k v s) = externalTarget s"
  "buffs (addModifier ty k v s) = buffs s" "debuffs (addModifier ty k v s) = debuffs s"
  "cooldowns (addModifier ty k v s) = cooldowns s" "stats (addModifier ty k v s) = stats s"
  "config (addModifier ty k v s) = config s" "trace (addModifier ty k v s) = trace s"
  "random_src (addModifier ty k v s) = random_src s"
  "modifiers (addModifier ty k v s) = (modifiers s)(ty := map_set k v (modifiers s ty))"
  by (simp_all add: addModifier_def)

lemma removeModifier_sel [simp]:
  "inCombat (removeModifier ty k s) = inCombat s" "energy (removeModifier ty k s) = energy s"
  "maxEnergy (removeModifier ty k s) = maxEnergy s"
  "comboPoints (removeModifier ty k s) = comboPoints s"
  "maxComboPoints (removeModifier ty k s) = maxComboPoints s"
  "globalCooldown (removeModifier ty k s) = globalCooldown s"
  "dummyHealth (removeModifier ty k s) = dummyHealth s"
  "dummyMaxHealth (removeModifier ty k s) = dummyMaxHealth s"
  "externalTarget (removeModifier ty k s) = externalTarget s"
  "buffs (removeModifier ty k s) = buffs s" "debuffs (removeModifier ty k s) = debuffs s"
  "cooldowns (removeModifier ty k s) = cooldowns s" "stats (removeModifier ty k s) = stats s"
  "config (removeModifier ty k s) = config s" "trace (removeModifier ty k s) = trace s"
  "random_src (removeModifier ty k s) = random_src s"
  "modifiers (removeModifier ty k s) = (modifiers s)(ty := map_delete k (modifiers s ty))"
  by (simp_all add: removeModifier_def)

lemma run_mod_action_sel [simp]:
  "inCombat (run_mod_action a s) = inCombat s" "energy (run_mod_action a s) = energy s"
  "maxEnergy (run_mod_action a s) = maxEnergy s"
  "comboPoints (run_mod_action a s) = comboPoints s"
  "maxComboPoints (run_mod_action a s) = maxComboPoints s"
  "globalCooldown (run_mod_action a s) = globalCooldown s"
  "dummyHealth (run_mod_action a s) = dummyHealth s"
  "dummyMaxHealth (run_mod_action a s) = dummyMaxHealth s"
  "externalTarget (run_mod_action a s) = externalTarget s" "buffs (run_mod_action a s) = buffs s"
  "debuffs (run_mod_action a s) = debuffs s" "cooldowns (run_mod_action a s) = cooldowns s"
  "stats (run_mod_action a s) = stats s" "config (run_mod_action a s) = config s"
  "trace (run_mod_action a s) = trace s" "random_src (run_mod_action a s) = random_src s"
  by (cases a; simp)+

lemma run_mod_actions_sel [simp]:
  "inCombat (fold run_mod_action acts s) = inCombat s"
  "energy (fold run_mod_action acts s) = energy s"
  "maxEnergy (fold run_mod_action acts s) = maxEnergy s"
  "comboPoints (fold run_mod_action acts s) = comboPoints s"
  "maxComboPoints (fold run_mod_action acts s) = maxComboPoints s"
  "globalCooldown (fold run_mod_action acts s) = globalCooldown s"
  "dummyHealth (fold run_mod_action acts s) = dummyHealth s"
  "dummyMaxHealth (fold run_mod_action acts s) = dummyMaxHealth s"
  "externalTarget (fold run_mod_action acts s) = externalTarget s"
  "buffs (fold run_mod_action acts s) = buffs s"
  "debuffs (fold run_mod_action acts s) = debuffs s"
  "cooldowns (fold run_mod_action acts s) = cooldowns s"
  "stats (fold run_mod_action acts s) = stats s" "config (fold run_mod_action acts s) = config s"
  "trace (fold run_mod_action acts s) = trace s"
  "random_src (fold run_mod_action acts s) = random_src s"
  by (rule fold_sel, simp)+

lemma call_onApply_sel [simp]:
  "inCombat (call_onApply e s) = inCombat s" "energy (call_onApply e s) = energy s"
  "maxEnergy (call_onApply e s) = maxEnergy s" "comboPoints (call_onApply e s) = comboPoints s"
  "maxComboPoints (call_onApply e s) = maxComboPoints s"
  "globalCooldown (call_onApply e s) = globalCooldown s"
  "dummyHealth (call_onApply e s) = dummyHealth s"
  "dummyMaxHealth (call_onApply e s) = dummyMaxHealth s"
  "externalTarget (call_onApply e s) = externalTarget s" "buffs (call_onApply e s) = buffs s"
  "debuffs (call_onApply e s) = debuffs s" "cooldowns (call_onApply e s) = cooldowns s"
  "stats (call_onApply e s) = stats s" "config (call_onApply e s) = config s"
  "random_src (call_onApply e s) = random_src s"
  by (simp_all add: call_onApply_def split: option.split)

lemma call_onExpire_sel [simp]:
  "inCombat (call_onExpire e s) = inCombat s" "energy (call_onExpire e s) = energy s"
  "maxEnergy (call_onExpire e s) = maxEnergy s" "comboPoints (call_onExpire e s) = comboPoints s"
  "maxComboPoints (call_onExpire e s) = maxComboPoints s"
  "globalCooldown (call_onExpire e s) = globalCooldown s"
  "dummyHealth (call_onExpire e s) = dummyHealth s"
  "dummyMaxHealth (call_onExpire e s) = dummyMaxHealth s"
  "externalTarget (call_onExpire e s) = externalTarget s" "buffs (call_onExpire e s) = buffs s"
  "debuffs (call_onExpire e s) = debuffs s" "cooldowns (call_onExpire e s) = cooldowns s"
  "stats (call_onExpire e s) = stats s" "config (call_onExpire e s) = config s"
  "random_src (call_onExpire e s) = random_src s"
  by (simp_all add: call_onExpire_def split: option.split)

lemma applyBuff_sel [simp]:
  "inCombat (applyBuff b s) = inCombat s" "energy (applyBuff b s) = energy s"
  "maxEnergy (applyBuff b s) = maxEnergy s" "comboPoints (applyBuff b s) = comboPoints s"
  "maxComboPoints (applyBuff b s) = maxComboPoints s"
  "globalCooldown (applyBuff b s) = globalCooldown s"
  "dummyHealth (applyBuff b s) = dummyHealth s"
  "dummyMaxHealth (applyBuff b s) = dummyMaxHealth s"
  "externalTarget (applyBuff b s) = externalTarget s" "debuffs (applyBuff b s) = debuffs s"
  "cooldowns (applyBuff b s) = cooldowns s" "stats (applyBuff b s) = stats s"
  "config (applyBuff b s) = config s" "random_src (applyBuff b s) = random_src s"
  by (simp_all add: applyBuff_def Let_def split: option.split)

lemma applyDebuff_sel [simp]:
  "inCombat (applyDebuff b s) = inCombat s" "energy (applyDebuff b s) = energy s"
  "maxEnergy (applyDebuff b s) = maxEnergy s" "comboPoints (applyDebuff b s) = comboPoints s"
  "maxComboPoints (applyDebuff b s) = maxComboPoints s"
  "globalCooldown (applyDebuff b s) = globalCooldown s"
  "dummyHealth (applyDebuff b s) = dummyHealth s"
  "dummyMaxHealth (applyDebuff b s) = dummyMaxHealth s"
  "externalTarget (applyDebuff b s) = externalTarget s" "buffs (applyDebuff b s) = buffs s"
  "cooldowns (applyDebuff b s) = cooldowns s" "stats (applyDebuff b s) = stats s"
  "config (applyDebuff b s) = config s" "random_src (applyDebuff b s) = random_src s"
  by (simp_all add: applyDebuff_def Let_def split: option.split)

lemma removeBuff_sel [simp]:
  "inCombat (removeBuff k s) = inCombat s" "energy (removeBuff k s) = energy s"
  "maxEnergy (removeBuff k s) = maxEnergy s" "comboPoints (removeBuff k s) = comboPoints s"
  "maxComboPoints (removeBuff k s) = maxComboPoints s"
  "globalCooldown (removeBuff k s) = globalCooldown s"
  "dummyHealth (removeBuff k s) = dummyHealth s"
  "dummyMaxHealth (removeBuff k s) = dummyMaxHealth s"
  "externalTarget (removeBuff k s) = externalTarget s" "debuffs (removeBuff k s) = debuffs s"
  "cooldowns (removeBuff k s) = cooldowns s" "stats (removeBuff k s) = stats s"
  "config (removeBuff k s) = config s" "random_src (removeBuff k s) = random_src s"
  by (simp_all add: removeBuff_def Let_def split: option.split)

lemma expire_all_sel [simp]:
  "inCombat (fold (\<lambda>(k, e). call_onExpire e) es s) = inCombat s"
  "energy (fold (\<lambda>(k, e). call_onExpire e) es s) = energy s"
  "maxEnergy (fold (\<lambda>(k, e). call_onExpire e) es s) = maxEnergy s"
  "comboPoints (fold (\<lambda>(k, e). call_onExpire e) es s) = comboPoints s"
  "maxComboPoints (fold (\<lambda>(k, e). call_onExpire e) es s) = maxComboPoints s"
  "globalCooldown (fold (\<lambda>(k, e). call_onExpire e) es s) = globalCooldown s"
  "dummyHealth (fold (\<lambda>(k, e). call_onExpire e) es s) = dummyHealth s"
  "dummyMaxHealth (fold (\<lambda>(k, e). call_onExpire e) es s) = dummyMaxHealth s"
  "externalTarget (fold (\<lambda>(k, e). call_onExpire e) es s) = externalTarget s"
  "buffs (fold (\<lambda>(k, e). call_onExpire e) es s) = buffs s"
  "debuffs (fold (\<lambda>(k, e). call_onExpire e) es s) = debuffs s"
  "cooldowns (fold (\<lambda>(k, e). call_onExpire e) es s) = cooldowns s"
  "stats (fold (\<lambda>(k, e). call_onExpire e) es s) = stats s"
  "config (fold (\<lambda>(k, e). call_onExpire e) es s) = config s"
  "random_src (fold (\<lambda>(k, e). call_onExpire e) es s) = random_src s"
  by (rule fold_sel, simp add: split_def)+

lemma clearEffects_sel [simp]:
  "inCombat (clearEffects s) = inCombat s" "energy (clearEffects s) = energy s"
  "maxEnergy (clearEffects s) = maxEnergy s" "comboPoints (clearEffects s) = comboPoints s"
  "maxComboPoints (clearEffects s) = maxComboPoints s"
  "globalCooldown (clearEffects s) = globalCooldown s"
  "dummyHealth (clearEffects s) = dummyHealth s"
  "dummyMaxHealth (clearEffects s) = dummyMaxHealth s"
  "externalTarget (clearEffects s) = externalTarget s" "cooldowns (clearEffects s) = cooldowns s"
  "stats (clearEffects s) = stats s" "config (clearEffects s) = config s"
  "random_src (clearEffects s) = random_src s" "buffs (clearEffects s) = []"
  "debuffs (clearEffects s) = []" "modifiers (clearEffects s) = (\<lambda>ty. [])"
  by (simp_all add: clearEffects_def Let_def)

lemma energySurge_onTrigger_sel [simp]:
  "inCombat (snd (energySurge_onTrigger cfg s)) = inCombat s"
  "maxEnergy (snd (energySurge_onTrigger cfg s)) = maxEnergy s"
  "comboPoints (snd (energySurge_onTrigger cfg s)) = comboPoints s"
  "maxComboPoints (snd (energySurge_onTrigger cfg s)) = maxComboPoints s"
  "globalCooldown (snd (energySurge_onTrigger cfg s)) = globalCooldown s"
  "dummyHealth (snd (energySurge_onTrigger cfg s)) = dummyHealth s"
  "dummyMaxHealth (snd (energySurge_onTrigger cfg s)) = dummyMaxHealth s"
  "externalTarget (snd (energySurge_onTrigger cfg s)) = externalTarget s"
  "debuffs (snd (energySurge_onTrigger cfg s)) = debuffs s"
  "cooldowns (snd (energySurge_onTrigger cfg s)) = cooldowns s"
  "stats (snd (energySurge_onTrigger cfg s)) = stats s"
  "config (snd (energySurge_onTrigger cfg s)) = config s"
  "random_src (snd (energySurge_onTrigger cfg s)) = random_src s"
  by (simp_all add: energySurge_onTrigger_def Let_def)

lemma flurryStrike_onTrigger_sel [simp]:
  "inCombat (snd (flurryStrike_onTrigger cfg s)) = inCombat s"
  "maxEnergy (snd (flurryStrike_onTrigger cfg s)) = maxEnergy s"
  "comboPoints (snd (flurryStrike_onTrigger cfg s)) = comboPoints s"
  "maxComboPoints (snd (flurryStrike_onTrigger cfg s)) = maxComboPoints s"
  "globalCooldown (snd (flurryStrike_onTrigger cfg s)) = globalCooldown s"
  "dummyHealth (snd (flurryStrike_onTrigger cfg s)) = dummyHealth s"
  "dummyMaxHealth (snd (flurryStrike_onTrigger cfg s)) = dummyMaxHealth s"
  "externalTarget (snd (flurryStrike_onTrigger cfg s)) = externalTarget s"
  "debuffs (snd (flurryStrike_onTrigger cfg s)) = debuffs s"
  "cooldowns (snd (flurryStrike_onTrigger cfg s)) = cooldowns s"
  "stats (snd (flurryStrike_onTrigger cfg s)) = stats s"
  "config (snd (flurryStrike_onTrigger cfg s)) = config s"
  "random_src (snd (flurryStrike_onTrigger cfg s)) = random_src s"
  by (simp_all add: flurryStrike_onTrigger_def Let_def)

lemma overpoweringStrikes_onTrigger_sel [simp]:
  "inCombat (snd (overpoweringStrikes_onTrigger cfg s)) = inCombat s"
  "maxEnergy (snd (overpoweringStrikes_onTrigger cfg s)) = maxEnergy s"
  "comboPoints (snd (overpoweringStrikes_onTrigger cfg s)) = comboPoints s"
  "maxComboPoints (snd (overpoweringStrikes_onTrigger cfg s)) = maxComboPoints s"
  "globalCooldown (snd (overpoweringStrikes_onTrigger cfg s)) = globalCooldown s"
  "dummyHealth (snd (overpoweringStrikes_onTrigger cfg s)) = dummyHealth s"
  "dummyMaxHealth (snd (overpoweringStrikes_onTrigger cfg s)) = dummyMaxHealth s"
  "externalTarget (snd (overpoweringStrikes_onTrigger cfg s)) = externalTarget s"
  "debuffs (snd (overpoweringStrikes_onTrigger cfg s)) = debuffs s"
  "cooldowns (snd (overpoweringStrikes_onTrigger cfg s)) = cooldowns s"
  "stats (snd (overpoweringStrikes_onTrigger cfg s)) = stats s"
  "config (snd (overpoweringStrikes_onTrigger cfg s)) = config s"
  "random_src (snd (overpoweringStrikes_onTrigger cfg s)) = random_src s"
  by (simp_all add: overpoweringStrikes_onTrigger_def Let_def)

lemma criticalInsight_onTrigger_sel [simp]:
  "inCombat (snd (criticalInsight_onTrigger cfg s)) = inCombat s"
  "maxEnergy (snd (criticalInsight_onTrigger cfg s)) = maxEnergy s"
  "comboPoints (snd (criticalInsight_onTrigger cfg s)) = comboPoints s"
  "maxComboPoints (snd (criticalInsight_onTrigger cfg s)) = maxComboPoints s"
  "globalCooldown (snd (criticalInsight_onTrigger cfg s)) = globalCooldown s"
  "dummyHealth (snd (criticalInsight_onTrigger cfg s)) = dummyHealth s"
  "dummyMaxHealth (snd (criticalInsight_onTrigger cfg s)) = dummyMaxHealth s"
  "externalTarget (snd (criticalInsight_onTrigger cfg s)) = externalTarget s"
  "debuffs (snd (criticalInsight_onTrigger cfg s)) = debuffs s"
  "cooldowns (snd (criticalInsight_onTrigger cfg s)) = cooldowns s"
  "stats (snd (criticalInsight_onTrigger cfg s)) = stats s"
  "config (snd (criticalInsight_onTrigger cfg s)) = config s"
  "random_src (snd (criticalInsight_onTrigger cfg s)) = random_src s"
  by (simp_all add: criticalInsight_onTrigger_def Let_def)

lemma shadowRecovery_onTrigger_sel [simp]:
  "inCombat (snd (shadowRecovery_onTrigger cfg s)) = inCombat s"
  "maxEnergy (snd (shadowRecovery_onTrigger cfg s)) = maxEnergy s"
  "comboPoints (snd (shadowRecovery_onTrigger cfg s)) = comboPoints s"
  "maxComboPoints (snd (shadowRecovery_onTrigger cfg s)) = maxComboPoints s"
  "globalCooldown (snd (shadowRecovery_onTrigger cfg s)) = globalCooldown s"
  "dummyHealth (snd (shadowRecovery_onTrigger cfg s)) = dummyHealth s"
  "dummyMaxHealth (snd (shadowRecovery_onTrigger cfg s)) = dummyMaxHealth s"
  "externalTarget (snd (shadowRecovery_onTrigger cfg s)) = externalTarget s"
  "debuffs (snd (shadowRecovery_onTrigger cfg s)) = debuffs s"
  "cooldowns (snd (shadowRecovery_onTrigger cfg s)) = cooldowns s"
  "stats (snd (shadowRecovery_onTrigger cfg s)) = stats s"
  "config (snd (shadowRecovery_onTrigger cfg s)) = config s"
  "random_src (snd (shadowRecovery_onTrigger cfg s)) = random_src s"
  by (simp_all add: shadowRecovery_onTrigger_def Let_def)

lemma onTrigger_sel:
  assumes "d \<in> set PROC_DEFINITIONS"
  shows "inCombat (snd (onTrigger d cfg s)) = inCombat s"
    "maxEnergy (snd (onTrigger d cfg s)) = maxEnergy s"
    "comboPoints (snd (onTrigger d cfg s)) = comboPoints s"
    "maxComboPoints (snd (onTrigger d cfg s)) = maxComboPoints s"
    "globalCooldown (snd (onTrigger d cfg s)) = globalCooldown s"
    "dummyHealth (snd (onTrigger d cfg s)) = dummyHealth s"
    "dummyMaxHealth (snd (onTrigger d cfg s)) = dummyMaxHealth s"
    "externalTarget (snd (onTrigger d cfg s)) = externalTarget s"
    "debuffs (snd (onTrigger d cfg s)) = debuffs s"
    "cooldowns (snd (onTrigger d cfg s)) = cooldowns s"
    "stats (snd (onTrigger d cfg s)) = stats s" "config (snd (onTrigger d cfg s)) = config s"
    "random_src (snd (onTrigger d cfg s)) = random_src s"
  using assms by (auto simp: PROC_DEFINITIONS_def energySurge_def flurryStrike_def
      overpoweringStrikes_def criticalInsight_def shadowRecovery_def)

lemma handleEvent_def_sel:
  assumes "d \<in> set PROC_DEFINITIONS"
  shows "inCombat (handleEvent_def ev ctx d s) = inCombat s"
    "maxEnergy (handleEvent_def ev ctx d s) = maxEnergy s"
    "comboPoints (handleEvent_def ev ctx d s) = comboPoints s"
    "maxComboPoints (handleEvent_def ev ctx d s) = maxComboPoints s"
    "globalCooldown (handleEvent_def ev ctx d s) = globalCooldown s"
    "dummyHealth (handleEvent_def ev ctx d s) = dummyHealth s"
    "dummyMaxHealth (handleEvent_def ev ctx d s) = dummyMaxHealth s"
    "externalTarget (handleEvent_def ev ctx d s) = externalTarget s"
    "debuffs (handleEvent_def ev ctx d s) = debuffs s"
    "cooldowns (handleEvent_def ev ctx d s) = cooldowns s"
    "stats (handleEvent_def ev ctx d s) = stats s"
    "config (handleEvent_def ev ctx d s) = config s"
    "random_src (handleEvent_def ev ctx d s) = random_src s"
  using assms by (simp_all add: handleEvent_def_def Let_def split_def onTrigger_sel split: option.split)

lemma handleEvent_sel [simp]:
  "inCombat (handleEvent ev ctx s) = inCombat s" "maxEnergy (handleEvent ev ctx s) = maxEnergy s"
  "comboPoints (handleEvent ev ctx s) = comboPoints s"
  "maxComboPoints (handleEvent ev ctx s) = maxComboPoints s"
  "globalCooldown (handleEvent ev ctx s) = globalCooldown s"
  "dummyHealth (handleEvent ev ctx s) = dummyHealth s"
  "dummyMaxHealth (handleEvent ev ctx s) = dummyMaxHealth s"
  "externalTarget (handleEvent ev ctx s) = externalTarget s"
  "debuffs (handleEvent ev ctx s) = debuffs s" "cooldowns (handleEvent ev ctx s) = cooldowns s"
  "stats (handleEvent ev ctx s) = stats s" "config (handleEvent ev ctx s) = config s"
  "random_src (handleEvent ev ctx s) = random_src s"
  unfolding handleEvent_def by (rule fold_sel_in, simp add: handleEvent_def_sel)+

lemma stopCombat_sel [simp]:
  "energy (stopCombat s) = energy s" "maxEnergy (stopCombat s) = maxEnergy s"
  "comboPoints (stopCombat s) = comboPoints s" "maxComboPoints (stopCombat s) = maxComboPoints s"
  "dummyMaxHealth (stopCombat s) = dummyMaxHealth s"
  "externalTarget (stopCombat s) = externalTarget s" "cooldowns (stopCombat s) = cooldowns s"
  "stats (stopCombat s) = stats s" "config (stopCombat s) = config s"
  "random_src (stopCombat s) = random_src s"
  by (simp_all add: stopCombat_def Let_def)

lemma damage_target_sel [simp]:
  "inCombat (damage_target dmg s) = inCombat s" "energy (damage_target dmg s) = energy s"
  "maxEnergy (damage_target dmg s) = maxEnergy s"
  "comboPoints (damage_target dmg s) = comboPoints s"
  "maxComboPoints (damage_target dmg s) = maxComboPoints s"
  "globalCooldown (damage_target dmg s) = globalCooldown s"
  "buffs (damage_target dmg s) = buffs s" "debuffs (damage_target dmg s) = debuffs s"
  "modifiers (damage_target dmg s) = modifiers s" "cooldowns (damage_target dmg s) = cooldowns s"
  "stats (damage_target dmg s) = stats s" "config (damage_target dmg s) = config s"
  "trace (damage_target dmg s) = trace s" "random_src (damage_target dmg s) = random_src s"
  by (simp_all add: damage_target_def Let_def split: option.split)

lemma incrementAbilityUsage_sel [simp]:
  "inCombat (incrementAbilityUsage nm dmg s) = inCombat s"
  "energy (incrementAbilityUsage nm dmg s) = energy s"
  "maxEnergy (incrementAbilityUsage nm dmg s) = maxEnergy s"
  "comboPoints (incrementAbilityUsage nm dmg s) = comboPoints s"
  "maxComboPoints (incrementAbilityUsage nm dmg s) = maxComboPoints s"
  "globalCooldown (incrementAbilityUsage nm dmg s) = globalCooldown s"
  "dummyHealth (incrementAbilityUsage nm dmg s) = dummyHealth s"
  "dummyMaxHealth (incrementAbilityUsage nm dmg s) = dummyMaxHealth s"
  "externalTarget (incrementAbilityUsage nm dmg s) = externalTarget s"
  "buffs (incrementAbilityUsage nm dmg s) = buffs s"
  "debuffs (incrementAbilityUsage nm dmg s) = debuffs s"
  "modifiers (incrementAbilityUsage nm dmg s) = modifiers s"
  "cooldowns (incrementAbilityUsage nm dmg s) = cooldowns s"
  "config (incrementAbilityUsage nm dmg s) = config s"
  "trace (incrementAbilityUsage nm dmg s) = trace s"
  "random_src (incrementAbilityUsage nm dmg s) = random_src s"
  by (simp_all add: incrementAbilityUsage_def Let_def)

lemma record_damage_sel [simp]:
  "inCombat (record_damage dmg ctx s) = inCombat s" "energy (record_damage dmg ctx s) = energy s"
  "maxEnergy (record_damage dmg ctx s) = maxEnergy s"
  "comboPoints (record_damage dmg ctx s) = comboPoints s"
  "maxComboPoints (record_damage dmg ctx s) = maxComboPoints s"
  "globalCooldown (record_damage dmg ctx s) = globalCooldown s"
  "dummyHealth (record_damage dmg ctx s) = dummyHealth s"
  "dummyMaxHealth (record_damage dmg ctx s) = dummyMaxHealth s"
  "externalTarget (record_damage dmg ctx s) = externalTarget s"
  "buffs (record_damage dmg ctx s) = buffs s" "debuffs (record_damage dmg ctx s) = debuffs s"
  "modifiers (record_damage dmg ctx s) = modifiers s"
  "cooldowns (record_damage dmg ctx s) = cooldowns s"
  "config (record_damage dmg ctx s) = config s" "trace (record_damage dmg ctx s) = trace s"
  "random_src (record_damage dmg ctx s) = random_src s"
  by (simp_all add: record_damage_def Let_def split: option.split)

lemma check_defeat_sel [simp]:
  "energy (check_defeat s) = energy s" "maxEnergy (check_defeat s) = maxEnergy s"
  "comboPoints (check_defeat s) = comboPoints s"
  "maxComboPoints (check_defeat s) = maxComboPoints s"
  "dummyMaxHealth (check_defeat s) = dummyMaxHealth s"
  "externalTarget (check_defeat s) = externalTarget s" "cooldowns (check_defeat s) = cooldowns s"
  "stats (check_defeat s) = stats s" "config (check_defeat s) = config s"
  "random_src (check_defeat s) = random_src s"
  by (simp_all add: check_defeat_def Let_def)

lemma applyDamage_sel [simp]:
  "maxEnergy (applyDamage amount ctx s) = maxEnergy s"
  "comboPoints (applyDamage amount ctx s) = comboPoints s"
  "maxComboPoints (applyDamage amount ctx s) = maxComboPoints s"
  "cooldowns (applyDamage amount ctx s) = cooldowns s"
  "config (applyDamage amount ctx s) = config s"
  "random_src (applyDamage amount ctx s) = random_src s"
  by (simp_all add: applyDamage_def Let_def)

lemma rollWeaponDamage_sel [simp]:
  "inCombat (snd (rollWeaponDamage m s)) = inCombat s"
  "energy (snd (rollWeaponDamage m s)) = energy s"
  "maxEnergy (snd (rollWeaponDamage m s)) = maxEnergy s"
  "comboPoints (snd (rollWeaponDamage m s)) = comboPoints s"
  "maxComboPoints (snd (rollWeaponDamage m s)) = maxComboPoints s"
  "globalCooldown (snd (rollWeaponDamage m s)) = globalCooldown s"
  "dummyHealth (snd (rollWeaponDamage m s)) = dummyHealth s"
  "dummyMaxHealth (snd (rollWeaponDamage m s)) = dummyMaxHealth s"
  "externalTarget (snd (rollWeaponDamage m s)) = externalTarget s"
  "buffs (snd (rollWeaponDamage m s)) = buffs s"
  "debuffs (snd (rollWeaponDamage m s)) = debuffs s"
  "modifiers (snd (rollWeaponDamage m s)) = modifiers s"
  "cooldowns (snd (rollWeaponDamage m s)) = cooldowns s"
  "stats (snd (rollWeaponDamage m s)) = stats s" "config (snd (rollWeaponDamage m s)) = config s"
  "trace (snd (rollWeaponDamage m s)) = trace s"
  "random_src (snd (rollWeaponDamage m s)) = random_src s"
  by (simp_all add: rollWeaponDamage_def Let_def split_def)

lemma rollHit_sel [simp]:
  "inCombat (snd (rollHit s)) = inCombat s" "energy (snd (rollHit s)) = energy s"
  "maxEnergy (snd (rollHit s)) = maxEnergy s" "comboPoints (snd (rollHit s)) = comboPoints s"
  "maxComboPoints (snd (rollHit s)) = maxComboPoints s"
  "globalCooldown (snd (rollHit s)) = globalCooldown s"
  "dummyHealth (snd (rollHit s)) = dummyHealth s"
  "dummyMaxHealth (snd (rollHit s)) = dummyMaxHealth s"
  "externalTarget (snd (rollHit s)) = externalTarget s" "buffs (snd (rollHit s)) = buffs s"
  "debuffs (snd (rollHit s)) = debuffs s" "modifiers (snd (rollHit s)) = modifiers s"
  "cooldowns (snd (rollHit s)) = cooldowns s" "stats (snd (rollHit s)) = stats s"
  "config (snd (rollHit s)) = config s" "trace (snd (rollHit s)) = trace s"
  "random_src (snd (rollHit s)) = random_src s"
  by (simp_all add: rollHit_def Let_def split_def)

lemma rollCrit_sel [simp]:
  "inCombat (snd (rollCrit c s)) = inCombat s" "energy (snd (rollCrit c s)) = energy s"
  "maxEnergy (snd (rollCrit c s)) = maxEnergy s"
  "comboPoints (snd (rollCrit c s)) = comboPoints s"
  "maxComboPoints (snd (rollCrit c s)) = maxComboPoints s"
  "globalCooldown (snd (rollCrit c s)) = globalCooldown s"
  "dummyHealth (snd (rollCrit c s)) = dummyHealth s"
  "dummyMaxHealth (snd (rollCrit c s)) = dummyMaxHealth s"
  "externalTarget (snd (rollCrit c s)) = externalTarget s" "buffs (snd (rollCrit c s)) = buffs s"
  "debuffs (snd (rollCrit c s)) = debuffs s" "modifiers (snd (rollCrit c s)) = modifiers s"
  "cooldowns (snd (rollCrit c s)) = cooldowns s" "stats (snd (rollCrit c s)) = stats s"
  "config (snd (rollCrit c s)) = config s" "trace (snd (rollCrit c s)) = trace s"
  "random_src (snd (rollCrit c s)) = random_src s"
  by (simp_all add: rollCrit_def Let_def split_def)

lemma onComboPointsSpent_sel [simp]:
  "inCombat (onComboPointsSpent nm a s) = inCombat s"
  "maxEnergy (onComboPointsSpent nm a s) = maxEnergy s"
  "comboPoints (onComboPointsSpent nm a s) = comboPoints s"
  "maxComboPoints (onComboPointsSpent nm a s) = maxComboPoints s"
  "globalCooldown (onComboPointsSpent nm a s) = globalCooldown s"
  "dummyHealth (onComboPointsSpent nm a s) = dummyHealth s"
  "dummyMaxHealth (onComboPointsSpent nm a s) = dummyMaxHealth s"
  "externalTarget (onComboPointsSpent nm a s) = externalTarget s"
  "buffs (onComboPointsSpent nm a s) = buffs s" "debuffs (onComboPointsSpent nm a s) = debuffs s"
  "modifiers (onComboPointsSpent nm a s) = modifiers s"
  "cooldowns (onComboPointsSpent nm a s) = cooldowns s"
  "stats (onComboPointsSpent nm a s) = stats s" "config (onComboPointsSpent nm a s) = config s"
  "trace (onComboPointsSpent nm a s) = trace s"
  "random_src (onComboPointsSpent nm a s) = random_src s"
  by (simp_all add: onComboPointsSpent_def Let_def)

lemma performWhiteDamage_sel [simp]:
  "maxEnergy (performWhiteDamage base s) = maxEnergy s"
  "maxComboPoints (performWhiteDamage base s) = maxComboPoints s"
  "cooldowns (performWhiteDamage base s) = cooldowns s"
  "config (performWhiteDamage base s) = config s"
  "random_src (performWhiteDamage base s) = random_src s"
  by (simp_all add: performWhiteDamage_def Let_def split_def)

lemma performYellowDamage_sel [simp]:
  "maxEnergy (snd (performYellowDamage ab base gen spent bonus s)) = maxEnergy s"
  "maxComboPoints (snd (performYellowDamage ab base gen spent bonus s)) = maxComboPoints s"
  "cooldowns (snd (performYellowDamage ab base gen spent bonus s)) = cooldowns s"
  "config (snd (performYellowDamage ab base gen spent bonus s)) = config s"
  "random_src (snd (performYellowDamage ab base gen spent bonus s)) = random_src s"
  by (simp_all add: performYellowDamage_def Let_def split_def)

lemma triggerGlobalCooldown_sel [simp]:
  "inCombat (triggerGlobalCooldown s) = inCombat s" "energy (triggerGlobalCooldown s) = energy s"
  "maxEnergy (triggerGlobalCooldown s) = maxEnergy s"
  "comboPoints (triggerGlobalCooldown s) = comboPoints s"
  "maxComboPoints (triggerGlobalCooldown s) = maxComboPoints s"
  "dummyHealth (triggerGlobalCooldown s) = dummyHealth s"
  "dummyMaxHealth (triggerGlobalCooldown s) = dummyMaxHealth s"
  "externalTarget (triggerGlobalCooldown s) = externalTarget s"
  "buffs (triggerGlobalCooldown s) = buffs s" "debuffs (triggerGlobalCooldown s) = debuffs s"
  "modifiers (triggerGlobalCooldown s) = modifiers s"
  "cooldowns (triggerGlobalCooldown s) = cooldowns s" "stats (triggerGlobalCooldown s) = stats s"
  "config (triggerGlobalCooldown s) = config s" "trace (triggerGlobalCooldown s) = trace s"
  "random_src (triggerGlobalCooldown s) = random_src s"
  by (simp_all add: triggerGlobalCooldown_def)

lemma setCooldown_sel [simp]:
  "inCombat (setCooldown k d s) = inCombat s" "energy (setCooldown k d s) = energy s"
  "maxEnergy (setCooldown k d s) = maxEnergy s" "comboPoints (setCooldown k d s) = comboPoints s"
  "maxComboPoints (setCooldown k d s) = maxComboPoints s"
  "globalCooldown (setCooldown k d s) = globalCooldown s"
  "dummyHealth (setCooldown k d s) = dummyHealth s"
  "dummyMaxHealth (setCooldown k d s) = dummyMaxHealth s"
  "externalTarget (setCooldown k d s) = externalTarget s" "buffs (setCooldown k d s) = buffs s"
  "debuffs (setCooldown k d s) = debuffs s" "modifiers (setCooldown k d s) = modifiers s"
  "stats (setCooldown k d s) = stats s" "config (setCooldown k d s) = config s"
  "trace (setCooldown k d s) = trace s" "random_src (setCooldown k d s) = random_src s"
  by (simp_all add: setCooldown_def)

lemma canUse_sel [simp]:
  "inCombat (snd (canUse a s)) = inCombat s" "energy (snd (canUse a s)) = energy s"
  "maxEnergy (snd (canUse a s)) = maxEnergy s" "comboPoints (snd (canUse a s)) = comboPoints s"
  "maxComboPoints (snd (canUse a s)) = maxComboPoints s"
  "globalCooldown (snd (canUse a s)) = globalCooldown s"
  "dummyHealth (snd (canUse a s)) = dummyHealth s"
  "dummyMaxHealth (snd (canUse a s)) = dummyMaxHealth s"
  "externalTarget (snd (canUse a s)) = externalTarget s" "buffs (snd (canUse a s)) = buffs s"
  "debuffs (snd (canUse a s)) = debuffs s" "modifiers (snd (canUse a s)) = modifiers s"
  "cooldowns (snd (canUse a s)) = cooldowns s" "stats (snd (canUse a s)) = stats s"
  "config (snd (canUse a s)) = config s" "trace (snd (canUse a s)) = trace s"
  "random_src (snd (canUse a s)) = random_src s"
  by (simp_all add: canUse_def)


section \<open>Frame lemmas for the tick loop\<close>

lemma updateCooldowns_sel [simp]:
  "inCombat (updateCooldowns d s) = inCombat s" "energy (updateCooldowns d s) = energy s"
  "maxEnergy (updateCooldowns d s) = maxEnergy s"
  "comboPoints (updateCooldowns d s) = comboPoints s"
  "maxComboPoints (updateCooldowns d s) = maxComboPoints s"
  "globalCooldown (updateCooldowns d s) = globalCooldown s"
  "dummyHealth (updateCooldowns d s) = dummyHealth s"
  "dummyMaxHealth (updateCooldowns d s) = dummyMaxHealth s"
  "externalTarget (updateCooldowns d s) = externalTarget s"
  "buffs (updateCooldowns d s) = buffs s" "debuffs (updateCooldowns d s) = debuffs s"
  "modifiers (updateCooldowns d s) = modifiers s" "stats (updateCooldowns d s) = stats s"
  "config (updateCooldowns d s) = config s" "trace (updateCooldowns d s) = trace s"
  "random_src (updateCooldowns d s) = random_src s"
  unfolding updateCooldowns_def Let_def by (rule fold_sel, simp add: tick_cooldown_def Let_def)+

lemma run_tick_action_sel [simp]:
  "maxEnergy (run_tick_action act s) = maxEnergy s"
  "comboPoints (run_tick_action act s) = comboPoints s"
  "maxComboPoints (run_tick_action act s) = maxComboPoints s"
  "cooldowns (run_tick_action act s) = cooldowns s" "config (run_tick_action act s) = config s"
  "random_src (run_tick_action act s) = random_src s"
  by (cases act; simp)+

lemma call_onTick_sel [simp]:
  "maxEnergy (call_onTick e s) = maxEnergy s" "comboPoints (call_onTick e s) = comboPoints s"
  "maxComboPoints (call_onTick e s) = maxComboPoints s"
  "cooldowns (call_onTick e s) = cooldowns s" "config (call_onTick e s) = config s"
  "random_src (call_onTick e s) = random_src s"
  by (simp_all add: call_onTick_def split: option.split)

lemma set_effects_sel [simp]:
  "inCombat (set_effects m es s) = inCombat s" "energy (set_effects m es s) = energy s"
  "maxEnergy (set_effects m es s) = maxEnergy s"
  "comboPoints (set_effects m es s) = comboPoints s"
  "maxComboPoints (set_effects m es s) = maxComboPoints s"
  "globalCooldown (set_effects m es s) = globalCooldown s"
  "dummyHealth (set_effects m es s) = dummyHealth s"
  "dummyMaxHealth (set_effects m es s) = dummyMaxHealth s"
  "externalTarget (set_effects m es s) = externalTarget s"
  "modifiers (set_effects m es s) = modifiers s" "cooldowns (set_effects m es s) = cooldowns s"
  "stats (set_effects m es s) = stats s" "config (set_effects m es s) = config s"
  "trace (set_effects m es s) = trace s" "random_src (set_effects m es s) = random_src s"
  by (cases m; simp)+

lemma tick_effect_sel [simp]:
  "maxEnergy (tick_effect m d entry s) = maxEnergy s"
  "comboPoints (tick_effect m d entry s) = comboPoints s"
  "maxComboPoints (tick_effect m d entry s) = maxComboPoints s"
  "cooldowns (tick_effect m d entry s) = cooldowns s"
  "config (tick_effect m d entry s) = config s"
  "random_src (tick_effect m d entry s) = random_src s"
  by (simp_all add: tick_effect_def Let_def split_def split: option.split)

lemma updateMap_sel [simp]:
  "maxEnergy (updateMap m d s) = maxEnergy s" "comboPoints (updateMap m d s) = comboPoints s"
  "maxComboPoints (updateMap m d s) = maxComboPoints s"
  "cooldowns (updateMap m d s) = cooldowns s" "config (updateMap m d s) = config s"
  "random_src (updateMap m d s) = random_src s"
  unfolding updateMap_def by (rule fold_sel, simp)+

lemma updateBuffs_sel [simp]:
  "maxEnergy (updateBuffs d s) = maxEnergy s" "comboPoints (updateBuffs d s) = comboPoints s"
  "maxComboPoints (updateBuffs d s) = maxComboPoints s"
  "cooldowns (updateBuffs d s) = cooldowns s" "config (updateBuffs d s) = config s"
  "random_src (updateBuffs d s) = random_src s"
  by (simp_all add: updateBuffs_def)

lemma performAutoAttack_sel [simp]:
  "maxEnergy (performAutoAttack s) = maxEnergy s"
  "maxComboPoints (performAutoAttack s) = maxComboPoints s"
  "cooldowns (performAutoAttack s) = cooldowns s" "config (performAutoAttack s) = config s"
  "random_src (performAutoAttack s) = random_src s"
  by (simp_all add: performAutoAttack_def Let_def split_def)

lemma handleAutoAttack_sel [simp]:
  "maxEnergy (handleAutoAttack d s) = maxEnergy s"
  "maxComboPoints (handleAutoAttack d s) = maxComboPoints s"
  "cooldowns (handleAutoAttack d s) = cooldowns s" "config (handleAutoAttack d s) = config s"
  "random_src (handleAutoAttack d s) = random_src s"
  by (simp_all add: handleAutoAttack_def Let_def)

lemma updateDpsHistory_sel [simp]:
  "inCombat (updateDpsHistory s) = inCombat s" "energy (updateDpsHistory s) = energy s"
  "maxEnergy (updateDpsHistory s) = maxEnergy s"
  "comboPoints (updateDpsHistory s) = comboPoints s"
  "maxComboPoints (updateDpsHistory s) = maxComboPoints s"
  "globalCooldown (updateDpsHistory s) = globalCooldown s"
  "dummyHealth (updateDpsHistory s) = dummyHealth s"
  "dummyMaxHealth (updateDpsHistory s) = dummyMaxHealth s"
  "externalTarget (updateDpsHistory s) = externalTarget s" "buffs (updateDpsHistory s) = buffs s"
  "debuffs (updateDpsHistory s) = debuffs s" "modifiers (updateDpsHistory s) = modifiers s"
  "cooldowns (updateDpsHistory s) = cooldowns s" "config (updateDpsHistory s) = config s"
  "trace (updateDpsHistory s) = trace s" "random_src (updateDpsHistory s) = random_src s"
  by (simp_all add: updateDpsHistory_def Let_def)

lemma energy_loop_frame:
  assumes "\<And>a s. sel (refillEnergy a s) = sel s"
    and "\<And>x s. sel (s\<lparr>energyTickProgress := x\<rparr>) = sel s"
  shows "sel (energy_loop ti gain s) = sel s"
proof (induction ti gain s rule: energy_loop.induct)
  case (1 ti gain s)
  show ?case
  proof (cases "0 < ti \<and> ti \<le> energyTickProgress s")
    case True
    then show ?thesis
      using 1 by (subst energy_loop.simps) (simp add: assms)
  next
    case False
    then show ?thesis
      by (subst energy_loop.simps) auto
  qed
qed

lemma energy_loop_sel [simp]:
  "inCombat (energy_loop ti gain s) = inCombat s"
  "maxEnergy (energy_loop ti gain s) = maxEnergy s"
  "comboPoints (energy_loop ti gain s) = comboPoints s"
  "maxComboPoints (energy_loop ti gain s) = maxComboPoints s"
  "globalCooldown (energy_loop ti gain s) = globalCooldown s"
  "dummyHealth (energy_loop ti gain s) = dummyHealth s"
  "dummyMaxHealth (energy_loop ti gain s) = dummyMaxHealth s"
  "externalTarget (energy_loop ti gain s) = externalTarget s"
  "buffs (energy_loop ti gain s) = buffs s"
  "debuffs (energy_loop ti gain s) = debuffs s"
  "modifiers (energy_loop ti gain s) = modifiers s"
  "cooldowns (energy_loop ti gain s) = cooldowns s"
  "stats (energy_loop ti gain s) = stats s"
  "config (energy_loop ti gain s) = config s"
  "trace (energy_loop ti gain s) = trace s"
  "random_src (energy_loop ti gain s) = random_src s"
  apply (rule energy_loop_frame [of inCombat]; simp)
  apply (rule energy_loop_frame [of maxEnergy]; simp)
  apply (rule energy_loop_frame [of comboPoints]; simp)
  apply (rule energy_loop_frame [of maxComboPoints]; simp)
  apply (rule energy_loop_frame [of globalCooldown]; simp)
  apply (rule energy_loop_frame [of dummyHealth]; simp)
  apply (rule energy_loop_frame [of dummyMaxHealth]; simp)
  apply (rule energy_loop_frame [of externalTarget]; simp)
  apply (rule energy_loop_frame [of buffs]; simp)
  apply (rule energy_loop_frame [of debuffs]; simp)
  apply (rule energy_loop_frame [of modifiers]; simp)
  apply (rule energy_loop_frame [of cooldowns]; simp)
  apply (rule energy_loop_frame [of stats]; simp)
  apply (rule energy_loop_frame [of config]; simp)
  apply (rule energy_loop_frame [of trace]; simp)
  apply (rule energy_loop_frame [of random_src]; simp)
  done

lemma handleEnergy_sel:
  assumes "handleEnergy d s = Some s'"
  shows "inCombat (s') = inCombat s" "maxEnergy (s') = maxEnergy s" "comboPoints (s') = comboPoints s"
    "maxComboPoints (s') = maxComboPoints s" "globalCooldown (s') = globalCooldown s"
    "dummyHealth (s') = dummyHealth s" "dummyMaxHealth (s') = dummyMaxHealth s"
    "externalTarget (s') = externalTarget s" "buffs (s') = buffs s" "debuffs (s') = debuffs s"
    "modifiers (s') = modifiers s" "cooldowns (s') = cooldowns s" "stats (s') = stats s"
    "config (s') = config s" "trace (s') = trace s" "random_src (s') = random_src s"
  using assms by (auto simp: handleEnergy_def Let_def split: if_splits)

lemma handleEnergy_returns:
  "0 < regen_tickInterval (cfg_regen (config s)) \<Longrightarrow> \<exists>s'. handleEnergy d s = Some s'"
  by (simp add: handleEnergy_def Let_def)


lemma gcd_kept_refl [simp]: "gcd_kept s s"
  by (simp add: gcd_kept_def)

lemma gcd_kept_same: "globalCooldown s' = globalCooldown s \<Longrightarrow> gcd_kept s s'"
  by (simp add: gcd_kept_def)

lemma gcd_kept_trans: "gcd_kept s s' \<Longrightarrow> gcd_kept s' s'' \<Longrightarrow> gcd_kept s s''"
  by (auto simp: gcd_kept_def)

lemma gcd_kept_fold:
  assumes "\<And>x s. gcd_kept s (f x s)"
  shows "gcd_kept s (fold f xs s)"
proof (induction xs arbitrary: s)
  case Nil
  show ?case by simp
next
  case (Cons x xs)
  show ?case
    using gcd_kept_trans [OF assms [of s x] Cons.IH [of "f x s"]] by simp
qed

lemma gcd_kept_stopCombat: "gcd_kept s (stopCombat s)"
  by (simp add: gcd_kept_def stopCombat_def Let_def)

lemma gcd_kept_check_defeat: "gcd_kept s (check_defeat s)"
  using gcd_kept_stopCombat [of "addLogEntry [T ''Target defeated!''] ''system'' s"]
    gcd_kept_stopCombat [of "addLogEntry [T ''Dummy defeated!''] ''system'' s"]
  by (simp add: gcd_kept_def check_defeat_def Let_def)

lemma gcd_kept_applyDamage: "gcd_kept s (applyDamage amount ctx s)"
proof (cases "js_round amount \<le> 0")
  case True
  then show ?thesis by (simp add: applyDamage_def)
next
  case False
  then show ?thesis
    using gcd_kept_check_defeat [of "handleEvent ''damage''
      \<lparr>ev_ability = ctx_ability ctx, ev_isCrit = isCrit ctx, ev_isAuto = isAuto ctx,
       ev_isDot = isDot ctx, ev_damage = js_round amount\<rparr>
      (record_damage (js_round amount) ctx (damage_target (js_round amount) s))"]
    by (simp add: applyDamage_def Let_def gcd_kept_def)
qed

lemma gcd_kept_call_onTick: "gcd_kept s (call_onTick e s)"
proof (cases "onTick e")
  case None
  then show ?thesis by (simp add: call_onTick_def)
next
  case (Some act)
  show ?thesis
  proof (cases act)
    case (RefillEnergy n)
    then show ?thesis using Some by (simp add: call_onTick_def gcd_kept_def)
  next
    case (DotDamage n nm k)
    then show ?thesis
      using Some gcd_kept_applyDamage [of "s\<lparr>trace := trace s @ [OnTick (effect_id e)]\<rparr>" n]
      by (simp add: call_onTick_def gcd_kept_def)
  qed
qed

lemma gcd_kept_tick_effect: "gcd_kept s (tick_effect m d entry s)"
  using gcd_kept_call_onTick [of s "(snd entry)\<lparr>remaining := remaining (snd entry) - d\<rparr>"]
  by (simp add: tick_effect_def Let_def split_def gcd_kept_def split: option.split)

lemma gcd_kept_updateBuffs: "gcd_kept s (updateBuffs d s)"
proof -
  have "gcd_kept s (updateMap m d s)" for m s
    unfolding updateMap_def by (rule gcd_kept_fold) (rule gcd_kept_tick_effect)
  then show ?thesis
    unfolding updateBuffs_def by (blast intro: gcd_kept_trans)
qed

lemma gcd_kept_performWhiteDamage: "gcd_kept s (performWhiteDamage base s)"
proof (cases "fst (rollHit s)")
  case False
  then show ?thesis by (simp add: performWhiteDamage_def Let_def split_def gcd_kept_def)
next
  case True
  let ?s2 = "snd (rollCrit (critChance (cfg_stats (config s))) (snd (rollHit s)))"
  have "gcd_kept ?s2 (applyDamage amount ctx ?s2)" for amount ctx
    by (rule gcd_kept_applyDamage)
  then show ?thesis
    using True by (simp add: performWhiteDamage_def Let_def split_def gcd_kept_def)
qed

lemma gcd_kept_handleAutoAttack: "gcd_kept s (handleAutoAttack d s)"
  using gcd_kept_performWhiteDamage [of "snd (rollWeaponDamage 1 (s\<lparr>autoAttackTimer := autoAttackTimer s - d\<rparr>))"]
  by (simp add: handleAutoAttack_def performAutoAttack_def Let_def split_def gcd_kept_def)

section \<open>Containers, rounding and damage bookkeeping\<close>

lemma map_of_map_set [simp]: "map_of (map_set k v m) = (map_of m)(k \<mapsto> v)"
  by (induction m) (auto simp: fun_eq_iff)

lemma map_of_map_delete [simp]: "map_of (map_delete k m) = (map_of m)(k := None)"
  by (induction m) (auto simp: fun_eq_iff)

lemma js_round_nearest: "\<bar>x - of_int (js_round x)\<bar> \<le> 1 / 2"
  unfolding js_round_def by linarith

lemma record_damage_stats:
  "totalDamage (stats (record_damage d c s)) = totalDamage (stats s) + d"
  "hitCount (stats (record_damage d c s)) = hitCount (stats s) + 1"
  "critCount (stats (record_damage d c s)) = critCount (stats s) + (if isCrit c then 1 else 0)"
  by (simp_all add: record_damage_def Let_def incrementAbilityUsage_def split: option.split)

lemma applyDamage_stats:
  assumes "0 < js_round amount"
  shows "totalDamage (stats (applyDamage amount ctx s)) = totalDamage (stats s) + js_round amount"
    "hitCount (stats (applyDamage amount ctx s)) = hitCount (stats s) + 1"
    "critCount (stats (applyDamage amount ctx s)) = critCount (stats s) + (if isCrit ctx then 1 else 0)"
  using assms by (simp_all add: applyDamage_def Let_def record_damage_stats)

lemma applyDamage_dropped: "js_round amount \<le> 0 \<Longrightarrow> applyDamage amount ctx s = s"
  by (simp add: applyDamage_def)

lemma fold_total: "fold (\<lambda>(k, v) total. total + v) m a = a + sum_list (map snd m)"
  for a :: real
  by (induction m arbitrary: a) (auto simp: algebra_simps)

lemma getModifierTotal_sum: "getModifierTotal ty s = sum_list (map snd (modifiers s ty))"
  by (simp add: getModifierTotal_def fold_total)

lemma map_set_fresh: "k \<notin> fst ` set m \<Longrightarrow> map_set k v m = m @ [(k, v)]"
  by (induction m) auto

lemma map_delete_keys [simp]: "fst ` set (map_delete k m) = fst ` set m - {k}"
  by (induction m) auto

lemma map_delete_map_set [simp]: "map_delete k (map_set k v m) = map_delete k m"
  by (induction m) auto

lemma map_delete_absent: "k \<notin> fst ` set m \<Longrightarrow> map_delete k m = m"
  by (induction m) auto

lemma distinct_map_delete: "distinct (map fst m) \<Longrightarrow> distinct (map fst (map_delete k m))"
  by (induction m) auto

lemma map_set_keys: "fst ` set (map_set k v m) = insert k (fst ` set m)"
  by (induction m) auto

lemma distinct_map_set: "distinct (map fst m) \<Longrightarrow> distinct (map fst (map_set k v m))"
  by (induction m) (auto simp: map_set_keys)

lemma sum_map_delete:
  "distinct (map fst m) \<Longrightarrow> map_of m k = Some v \<Longrightarrow>
     sum_list (map snd m) = sum_list (map snd (map_delete k m)) + v"
  for v :: real
proof (induction m)
  case Nil
  then show ?case by simp
next
  case (Cons p m)
  show ?case
  proof (cases "fst p = k")
    case True
    then have "k \<notin> fst ` set m" using Cons.prems(1) by auto
    then show ?thesis using True Cons.prems(2) by (simp add: map_delete_absent)
  next
    case False
    then show ?thesis using Cons by (auto split: if_splits)
  qed
qed

lemma filter_key_map_delete [simp]: "filter (\<lambda>e. fst e = k) (map_delete k m) = []"
  by (induction m) auto

lemma filter_key_map_set:
  "length (filter (\<lambda>e. fst e = k') (map_set k v m))
     = (if k' = k \<and> k \<notin> fst ` set m then 1 else length (filter (\<lambda>e. fst e = k') m))"
  by (induction m) (force split: if_splits)+


lemma fresh_sim_fields:
  "buffs fresh_sim = []" "debuffs fresh_sim = []" "modifiers fresh_sim = (\<lambda>ty. [])"
  "trace fresh_sim = []" "totalDamage (stats fresh_sim) = 0" "hitCount (stats fresh_sim) = 0"
  by (simp_all add: fresh_sim_def new_simulator_def Let_def)

lemma combat_fresh_fields:
  "energy (startCombat fresh_sim) = 100" "maxEnergy (startCombat fresh_sim) = 100"
  "comboPoints (startCombat fresh_sim) = 0" "globalCooldown (startCombat fresh_sim) = 0"
  "cooldowns (startCombat fresh_sim) = []" "inCombat (startCombat fresh_sim)"
  by (simp_all add: startCombat_def fresh_sim_def new_simulator_def Let_def applyConfigDefaults_def
      getDefaultConfig_def)


section \<open>Weapon damage rolls\<close>

lemma rollWeaponDamage_range:
  assumes "0 \<le> random_src s (random_pos s)" and "random_src s (random_pos s) < 1"
    and "0 \<le> multiplier"
  shows "min (weaponMin (cfg_stats (config s))) (weaponMax (cfg_stats (config s))) * multiplier
           \<le> fst (rollWeaponDamage multiplier s)"
    and "fst (rollWeaponDamage multiplier s)
           \<le> max (weaponMin (cfg_stats (config s))) (weaponMax (cfg_stats (config s))) * multiplier"
proof -
  define lower where "lower = min (weaponMin (cfg_stats (config s))) (weaponMax (cfg_stats (config s)))"
  define upper where "upper = max (weaponMin (cfg_stats (config s))) (weaponMax (cfg_stats (config s)))"
  define r where "r = random_src s (random_pos s)"
  have le: "lower \<le> upper"
    by (simp add: lower_def upper_def)
  have r: "0 \<le> r" "r < 1"
    using assms by (simp_all add: r_def)
  have roll: "fst (rollWeaponDamage multiplier s)
      = (if upper - lower \<le> 0 then lower else lower + r * (upper - lower)) * multiplier"
    by (simp add: rollWeaponDamage_def Let_def Math_random_def lower_def upper_def r_def)
  have lo: "lower \<le> (if upper - lower \<le> 0 then lower else lower + r * (upper - lower))"
    using le r by simp
  have "r * (upper - lower) \<le> 1 * (upper - lower)"
    using le r by (intro mult_right_mono) simp_all
  then have hi: "(if upper - lower \<le> 0 then lower else lower + r * (upper - lower)) \<le> upper"
    using le by simp
  show "min (weaponMin (cfg_stats (config s))) (weaponMax (cfg_stats (config s))) * multiplier
           \<le> fst (rollWeaponDamage multiplier s)"
    unfolding roll lower_def [symmetric] using lo assms(3) by (simp add: mult_right_mono)
  show "fst (rollWeaponDamage multiplier s)
           \<le> max (weaponMin (cfg_stats (config s))) (weaponMax (cfg_stats (config s))) * multiplier"
    unfolding roll upper_def [symmetric] using hi assms(3) by (simp add: mult_right_mono)
qed

text \<open>
  Claim C10. For every stats configuration, also one with \<open>weaponMin > weaponMax\<close>, and every
  draw in \<open>[0, 1)\<close>, \<open>rollWeaponDamage multiplier\<close> lies between
  \<open>min weaponMin weaponMax * multiplier\<close> and \<open>max weaponMin weaponMax * multiplier\<close>:
  reversed bounds are swapped. The multiplier is non-negative, as at every call of the
  source (1, 1.05, 1.1, 1.5).
\<close>

theorem rollWeaponDamage_within_bounds:
  assumes "0 \<le> random_src s (random_pos s)" and "random_src s (random_pos s) < 1"
    and "0 \<le> multiplier"
  shows "min (weaponMin (cfg_stats (config s))) (weaponMax (cfg_stats (config s))) * multiplier
           \<le> fst (rollWeaponDamage multiplier s)
       \<and> fst (rollWeaponDamage multiplier s)
           \<le> max (weaponMin (cfg_stats (config s))) (weaponMax (cfg_stats (config s))) * multiplier"
  using rollWeaponDamage_range [OF assms] by simp

theorem rollWeaponDamage_within_bounds_witness:
  "0 \<le> random_src reversed_weapon_sim (random_pos reversed_weapon_sim)
   \<and> random_src reversed_weapon_sim (random_pos reversed_weapon_sim) < 1
   \<and> (0::real) \<le> 105 / 100
   \<and> weaponMin (cfg_stats (config reversed_weapon_sim)) > weaponMax (cfg_stats (config reversed_weapon_sim))
   \<and> 150 * (105 / 100) \<le> fst (rollWeaponDamage (105 / 100) reversed_weapon_sim)
   \<and> fst (rollWeaponDamage (105 / 100) reversed_weapon_sim) \<le> 220 * (105 / 100)"
  using rollWeaponDamage_within_bounds [of reversed_weapon_sim "105 / 100"]
  by (simp add: reversed_weapon_sim_def new_simulator_def applyConfigDefaults_def Let_def)

section \<open>Damage that rounds to nothing\<close>

text \<open>
  Claim C8. \<open>applyDamage\<close> rounds its amount to the nearest integer. When the rounded
  amount is \<open>\<le> 0\<close> the call returns the simulator as it was: no change of target
  health, of the cumulative statistics or the per-ability usage, no log entry, and no proc
  evaluation (no random draw, no buff). A positive rounded amount is what is added to the
  total damage, with one hit counted.
\<close>

theorem applyDamage_rounds_and_drops:
  "\<bar>amount - of_int (js_round amount)\<bar> \<le> 1 / 2
   \<and> (js_round amount \<le> 0 \<longrightarrow> applyDamage amount ctx s = s)
   \<and> (0 < js_round amount \<longrightarrow>
        totalDamage (stats (applyDamage amount ctx s)) = totalDamage (stats s) + js_round amount
        \<and> hitCount (stats (applyDamage amount ctx s)) = hitCount (stats s) + 1)"
  using js_round_nearest [of amount] applyDamage_dropped [of amount ctx s]
    applyDamage_stats(1,2) [of amount ctx s] by blast

theorem applyDamage_rounds_and_drops_witness:
  "js_round (4 / 10) \<le> 0 \<and> applyDamage (4 / 10) auto_hit fresh_sim = fresh_sim
   \<and> 0 < js_round (3 / 2)
   \<and> totalDamage (stats (applyDamage (3 / 2) auto_hit fresh_sim)) = totalDamage (stats fresh_sim) + 2
   \<and> hitCount (stats (applyDamage (3 / 2) auto_hit fresh_sim)) = hitCount (stats fresh_sim) + 1"
  using applyDamage_rounds_and_drops [of "4 / 10" auto_hit fresh_sim]
    applyDamage_rounds_and_drops [of "3 / 2" auto_hit fresh_sim]
  by (simp add: js_round_def)


section \<open>The order of the damage modifiers\<close>

text \<open>The rounding function: exponent, mantissa and distance.\<close>

lemma bit_length_bounds:
  "0 < n \<Longrightarrow> 2 ^ (bit_length n - 1) \<le> n \<and> n < 2 ^ bit_length n"
proof (induction n rule: bit_length.induct)
  case (1 n)
  show ?case
  proof (cases "n div 2 = 0")
    case True
    then have "n = 1"
      using "1.prems" by (simp add: div_eq_0_iff) 
    then show ?thesis
      by (simp add: bit_length.simps [of "Suc 0"] bit_length.simps [of 0])
  next
    case False
    then have IH: "2 ^ (bit_length (n div 2) - 1) \<le> n div 2" "n div 2 < 2 ^ bit_length (n div 2)"
      using "1.IH" "1.prems" by simp_all
    have pos: "0 < bit_length (n div 2)"
      using False by (simp add: bit_length.simps [of "n div 2"])
    have eq: "bit_length n = Suc (bit_length (n div 2))"
      using "1.prems" by (simp add: bit_length.simps [of n])
    have "2 ^ (bit_length n - 1) = 2 * 2 ^ (bit_length (n div 2) - 1)"
      using pos by (cases "bit_length (n div 2)") (simp_all add: eq)
    also have "\<dots> \<le> 2 * (n div 2)"
      using IH(1) by simp
    also have "\<dots> \<le> n"
      by simp
    finally have lower: "2 ^ (bit_length n - 1) \<le> n" .
    have "n < 2 * (n div 2) + 2"
      by presburger
    also have "\<dots> \<le> 2 * 2 ^ bit_length (n div 2)"
      using IH(2) by simp
    finally have "n < 2 ^ bit_length n"
      by (simp add: eq)
    then show ?thesis
      using lower by simp
  qed
qed

lemma pow2_nat: "pow2 (int k) = 2 ^ k"
  by (simp add: pow2_def)

lemma pow2_neg: "pow2 (- int k) = 1 / 2 ^ k"
  by (simp add: pow2_def)

lemma pow2_pos [simp]: "0 < pow2 k"
  by (simp add: pow2_def)

lemma pow2_Suc: "pow2 (k + 1) = 2 * pow2 k"
proof (cases "0 \<le> k")
  case True
  then show ?thesis
    by (simp add: pow2_def nat_add_distrib)
next
  case False
  then have "nat (- k) = Suc (nat (- (k + 1)))"
    by simp
  then show ?thesis
    using False by (simp add: pow2_def)
qed

lemma binary_exponent_bounds:
  assumes "0 < x"
  shows "pow2 (binary_exponent x) \<le> x" and "x < pow2 (binary_exponent x + 1)"
proof -
  have "pow2 (binary_exponent x) \<le> x \<and> x < pow2 (binary_exponent x + 1)"
  proof (cases "1 \<le> x")
    case True
    define n where "n = nat \<lfloor>x\<rfloor>"
    have fl: "real_of_int \<lfloor>x\<rfloor> \<le> x" "x < real_of_int \<lfloor>x\<rfloor> + 1"
      using floor_correct [of x] by simp_all
    have "1 \<le> \<lfloor>x\<rfloor>"
      using True by linarith
    then have real_n: "0 < n" "real n = real_of_int \<lfloor>x\<rfloor>"
      by (simp_all add: n_def)
    have n: "0 < n" "real n \<le> x" "x < real n + 1"
      using real_n fl by simp_all
    note b = bit_length_bounds [OF n(1)]
    have pos: "0 < bit_length n"
      using n(1) by (simp add: bit_length.simps [of n])
    have e: "binary_exponent x = int (bit_length n - 1)"
      using True pos by (simp add: binary_exponent_def n_def [symmetric])
    have "(2::real) ^ (bit_length n - 1) \<le> real n"
      using b by (metis of_nat_le_iff of_nat_numeral of_nat_power)
    then have lower: "pow2 (binary_exponent x) \<le> x"
      using n(2) unfolding e pow2_nat by linarith
    have "n + 1 \<le> 2 ^ bit_length n"
      using b by simp
    then have "real n + 1 \<le> 2 ^ bit_length n"
      by (metis of_nat_le_iff of_nat_numeral of_nat_power of_nat_add of_nat_1)
    then have "x < 2 ^ bit_length n"
      using n(3) by linarith
    moreover have "binary_exponent x + 1 = int (bit_length n)"
      using pos by (simp add: e)
    ultimately have "x < pow2 (binary_exponent x + 1)"
      by (simp add: pow2_nat)
    then show ?thesis
      using lower by simp
  next
    case False
    define y where "y = 1 / x"
    define n where "n = nat (\<lceil>y\<rceil> - 1)"
    have y: "1 < y"
      using False assms by (simp add: y_def)
    have c: "real_of_int \<lceil>y\<rceil> - 1 < y" "y \<le> real_of_int \<lceil>y\<rceil>"
      using ceiling_correct [of y] by simp_all
    have "1 < \<lceil>y\<rceil>"
      using y by linarith
    then have real_n: "0 < n" "real n = real_of_int \<lceil>y\<rceil> - 1"
      by (simp_all add: n_def)
    have n: "0 < n" "real n < y" "y \<le> real n + 1"
      using real_n c by simp_all
    note b = bit_length_bounds [OF n(1)]
    have pos: "0 < bit_length n"
      using n(1) by (simp add: bit_length.simps [of n])
    have e: "binary_exponent x = - int (bit_length n)"
      using False by (simp add: binary_exponent_def n_def y_def)
    have "n + 1 \<le> 2 ^ bit_length n"
      using b by simp
    then have "real n + 1 \<le> 2 ^ bit_length n"
      by (metis of_nat_le_iff of_nat_numeral of_nat_power of_nat_add of_nat_1)
    then have "y \<le> 2 ^ bit_length n"
      using n(3) by linarith
    then have "1 / 2 ^ bit_length n \<le> x"
      using assms by (simp add: y_def field_simps)
    then have lower: "pow2 (binary_exponent x) \<le> x"
      by (simp add: e pow2_neg)
    have "(2::real) ^ (bit_length n - 1) \<le> real n"
      using b by (metis of_nat_le_iff of_nat_numeral of_nat_power)
    then have "2 ^ (bit_length n - 1) < y"
      using n(2) by linarith
    then have "x < 1 / 2 ^ (bit_length n - 1)"
      using assms by (simp add: y_def field_simps)
    moreover have "binary_exponent x + 1 = - int (bit_length n - 1)"
      using pos by (simp add: e)
    ultimately have "x < pow2 (binary_exponent x + 1)"
      by (simp add: pow2_neg)
    then show ?thesis
      using lower by simp
  qed
  then show "pow2 (binary_exponent x) \<le> x" and "x < pow2 (binary_exponent x + 1)"
    by simp_all
qed

lemma round_half_even_near: "\<bar>of_int (round_half_even m) - m\<bar> \<le> 1 / 2"
  by (simp add: round_half_even_def Let_def; linarith)

lemma round_half_even_mono_int: "of_int k \<le> m \<Longrightarrow> k \<le> round_half_even m"
  by (simp add: round_half_even_def Let_def; linarith)

lemma round_half_even_le_int: "m \<le> of_int k \<Longrightarrow> round_half_even m \<le> k"
  by (simp add: round_half_even_def Let_def; linarith)


lemma pow2_power_int: "pow2 k = 2 powi k"
  by (simp add: pow2_def power_int_def power_one_over inverse_eq_divide)

lemma pow2_add: "pow2 (j + k) = pow2 j * pow2 k"
  by (simp add: pow2_power_int power_int_add)

text \<open>
  \<open>f64 x\<close> is a number of 53 significant bits at the binary exponent of \<open>x\<close> (or the power
  of two above), at most half a unit in the last place away from \<open>x\<close>.
\<close>

lemma f64_nearest:
  assumes "x \<noteq> 0"
  shows "\<exists>m. f64 x = sgn x * of_int m * pow2 (binary_exponent \<bar>x\<bar> - 52)
           \<and> 2 ^ 52 \<le> m \<and> m \<le> 2 ^ 53
           \<and> \<bar>f64 x - x\<bar> \<le> pow2 (binary_exponent \<bar>x\<bar> - 52) / 2"
proof -
  define a where "a = \<bar>x\<bar>"
  define e where "e = binary_exponent a"
  define q where "q = pow2 (e - 52)"
  define m where "m = round_half_even (a / q)"
  have a: "0 < a"
    using assms by (simp add: a_def)
  have q: "0 < q"
    by (simp add: q_def)
  have "pow2 e = pow2 52 * q"
    using pow2_add [of 52 "e - 52"] by (simp add: q_def)
  then have lower: "2 ^ 52 * q \<le> a"
    using binary_exponent_bounds(1) [OF a] by (simp add: e_def pow2_def)
  have "pow2 (e + 1) = pow2 53 * q"
    using pow2_add [of 53 "e - 52"] by (simp add: q_def add.commute)
  then have upper: "a < 2 ^ 53 * q"
    using binary_exponent_bounds(2) [OF a] by (simp add: e_def pow2_def)
  have "of_int (2 ^ 52) \<le> a / q"
    using lower q by (simp add: field_simps)
  then have m_lower: "2 ^ 52 \<le> m"
    unfolding m_def by (rule round_half_even_mono_int)
  have "a / q \<le> of_int (2 ^ 53)"
    using upper q by (simp add: field_simps)
  then have m_upper: "m \<le> 2 ^ 53"
    unfolding m_def by (rule round_half_even_le_int)
  have rounded: "f64 x = sgn x * of_int m * q"
    using assms by (simp add: f64_def Let_def a_def e_def q_def m_def)
  have "\<bar>of_int m - a / q\<bar> \<le> 1 / 2"
    unfolding m_def by (rule round_half_even_near)
  then have "\<bar>of_int m - a / q\<bar> * q \<le> 1 / 2 * q"
    using q by (intro mult_right_mono) simp_all
  moreover have "(of_int m - a / q) * q = of_int m * q - a"
    using q by (simp add: field_simps)
  then have "\<bar>of_int m - a / q\<bar> * q = \<bar>of_int m * q - a\<bar>"
    using q abs_mult [of "of_int m - a / q" q] by simp
  ultimately have near: "\<bar>of_int m * q - a\<bar> \<le> q / 2"
    by simp
  have "x = sgn x * a"
    by (simp add: a_def sgn_mult_abs)
  then have "f64 x - x = sgn x * (of_int m * q) - sgn x * a"
    by (simp add: rounded mult.assoc)
  then have "f64 x - x = sgn x * (of_int m * q - a)"
    by (simp add: right_diff_distrib)
  then have "\<bar>f64 x - x\<bar> = \<bar>of_int m * q - a\<bar>"
    using assms by (simp add: abs_mult abs_sgn_eq)
  then have "\<bar>f64 x - x\<bar> \<le> q / 2"
    using near by simp
  then show ?thesis
    using rounded m_lower m_upper by (auto simp: q_def e_def a_def)
qed

text \<open>
  Some doubles: 0.1 is \<^verbatim>\<open>0x3FB999999999999A\<close>; a tie goes to the even mantissa; whole
  numbers below \<open>2 ^ 53\<close> are exact.
\<close>

lemma f64_examples:
  "f64 (1 / 10) = 3602879701896397 / 36028797018963968"
  "f64 (1 + 1 / 2 ^ 53) = 1" "f64 (1 + 3 / 2 ^ 53) = 1 + 1 / 2 ^ 51"
  "f64 (- (1 / 3)) = - f64 (1 / 3)" "f64 1 = 1" "f64 1080 = 1080"
  by code_simp+

lemma applyDebuff_present:
  "map_of (debuffs (applyDebuff b s)) (effect_id b) = Some (b\<lparr>remaining := duration b\<rparr>)"
  by (simp add: applyDebuff_def Let_def)

text \<open>Without rounding, the three functions are those of the engine model.\<close>

lemma getModifierTotal_with_exact: "getModifierTotal_with (\<lambda>x. x) ty s = getModifierTotal ty s"
  by (simp add: getModifierTotal_with_def getModifierTotal_def)

lemma applyDamageModifiers_with_exact:
  "applyDamageModifiers_with (\<lambda>x. x) base crit s = applyDamageModifiers base crit s"
  by (simp add: applyDamageModifiers_with_def applyDamageModifiers_def getDamageMultiplier_with_def
      getDamageMultiplier_def getModifierTotal_with_exact)





lemma empowered_sim_fields:
  "exposeArmor_reduction empowered_sim = 8 / 100"
  "modifiers empowered_sim Damage = [(''proc_overpoweringStrikes'', 15 / 100)]"
  by code_simp+



section \<open>Re-applying an effect\<close>

lemma applyBuff_present:
  "map_of (buffs (applyBuff b s)) (effect_id b) = Some (b\<lparr>remaining := duration b\<rparr>)"
  by (simp add: applyBuff_def Let_def)

lemma applyBuff_trace:
  "trace (applyBuff b s) = trace s
     @ (case map_of (buffs s) (effect_id b) of
          Some old \<Rightarrow> if onExpire old = None then [] else [OnExpire (effect_id old)]
        | None \<Rightarrow> [])
     @ (if onApply b = None then [] else [OnApply (effect_id b)])"
  by (auto simp: applyBuff_def Let_def call_onApply_def call_onExpire_def split: option.split)

lemma applyDebuff_trace:
  "trace (applyDebuff b s) = trace s
     @ (case map_of (debuffs s) (effect_id b) of
          Some old \<Rightarrow> if onExpire old = None then [] else [OnExpire (effect_id old)]
        | None \<Rightarrow> [])
     @ (if onApply b = None then [] else [OnApply (effect_id b)])"
  by (auto simp: applyDebuff_def Let_def call_onApply_def call_onExpire_def split: option.split)

lemma applyBuff_count:
  "length (filter (\<lambda>e. fst e = k) (buffs (applyBuff b s)))
     = (if k = effect_id b \<and> effect_id b \<notin> fst ` set (buffs s) then 1
        else length (filter (\<lambda>e. fst e = k) (buffs s)))"
  by (auto simp: applyBuff_def Let_def filter_key_map_set split: option.split)

lemma applyDebuff_count:
  "length (filter (\<lambda>e. fst e = k) (debuffs (applyDebuff b s)))
     = (if k = effect_id b \<and> effect_id b \<notin> fst ` set (debuffs s) then 1
        else length (filter (\<lambda>e. fst e = k) (debuffs s)))"
  by (auto simp: applyDebuff_def Let_def filter_key_map_set split: option.split)

lemma reapply_modifiers:
  assumes "map_of (buffs s) (effect_id b) = Some old"
    and "onExpire old = Some [RemoveModifier ty k]" and "onApply b = Some [AddModifier ty k v]"
  shows "modifiers (applyBuff b s) ty = map_delete k (modifiers s ty) @ [(k, v)]"
  using assms by (simp add: applyBuff_def Let_def call_onApply_def call_onExpire_def map_set_fresh)

lemma reapply_modifiers_debuff:
  assumes "map_of (debuffs s) (effect_id b) = Some old"
    and "onExpire old = Some [RemoveModifier ty k]" and "onApply b = Some [AddModifier ty k v]"
  shows "modifiers (applyDebuff b s) ty = map_delete k (modifiers s ty) @ [(k, v)]"
  using assms by (simp add: applyDebuff_def Let_def call_onApply_def call_onExpire_def map_set_fresh)

lemma map_of_in_keys: "map_of m k = Some v \<Longrightarrow> k \<in> fst ` set m"
  by (metis domI dom_map_of_conv_image_fst)

text \<open>
  Claim C4. Applying a buff (or a debuff) whose id is already in the collection runs the
  existing instance's \<open>onExpire\<close>, then the new instance's \<open>onApply\<close>; the new instance
  takes the place of the old one, with \<open>remaining = duration\<close>, and the collection holds no
  more entries for the id than before. When the old instance removes the modifier the new
  one installs, the channel holds exactly one entry for it afterwards, and its total is what
  it was: applying the +20% damage buff of Blade Flurry twice leaves the damage total at
  0.2, not 0.4.
\<close>

theorem reapply_runs_onExpire_first:
  "(map_of (buffs s) (effect_id b) = Some old \<longrightarrow>
      trace (applyBuff b s) = trace s
        @ (if onExpire old = None then [] else [OnExpire (effect_id old)])
        @ (if onApply b = None then [] else [OnApply (effect_id b)])
      \<and> map_of (buffs (applyBuff b s)) (effect_id b) = Some (b\<lparr>remaining := duration b\<rparr>)
      \<and> length (filter (\<lambda>e. fst e = effect_id b) (buffs (applyBuff b s)))
          = length (filter (\<lambda>e. fst e = effect_id b) (buffs s))
      \<and> (onExpire old = Some [RemoveModifier ty k] \<and> onApply b = Some [AddModifier ty k v] \<longrightarrow>
           modifiers (applyBuff b s) ty = map_delete k (modifiers s ty) @ [(k, v)]
           \<and> (distinct (map fst (modifiers s ty)) \<and> map_of (modifiers s ty) k = Some v \<longrightarrow>
                getModifierTotal ty (applyBuff b s) = getModifierTotal ty s)))
   \<and> (map_of (debuffs s) (effect_id b) = Some old \<longrightarrow>
      trace (applyDebuff b s) = trace s
        @ (if onExpire old = None then [] else [OnExpire (effect_id old)])
        @ (if onApply b = None then [] else [OnApply (effect_id b)])
      \<and> map_of (debuffs (applyDebuff b s)) (effect_id b) = Some (b\<lparr>remaining := duration b\<rparr>)
      \<and> length (filter (\<lambda>e. fst e = effect_id b) (debuffs (applyDebuff b s)))
          = length (filter (\<lambda>e. fst e = effect_id b) (debuffs s))
      \<and> (onExpire old = Some [RemoveModifier ty k] \<and> onApply b = Some [AddModifier ty k v] \<longrightarrow>
           modifiers (applyDebuff b s) ty = map_delete k (modifiers s ty) @ [(k, v)]
           \<and> (distinct (map fst (modifiers s ty)) \<and> map_of (modifiers s ty) k = Some v \<longrightarrow>
                getModifierTotal ty (applyDebuff b s) = getModifierTotal ty s)))
   \<and> getModifierTotal Damage (applyBuff bladeFlurry_buff fresh_sim) = 2 / 10
   \<and> getModifierTotal Damage (applyBuff bladeFlurry_buff (applyBuff bladeFlurry_buff fresh_sim)) = 2 / 10
   \<and> trace (applyBuff bladeFlurry_buff (applyBuff bladeFlurry_buff fresh_sim))
       = [OnApply ''bladeFlurry'', OnExpire ''bladeFlurry'', OnApply ''bladeFlurry'']"
proof (intro conjI impI)
  assume old: "map_of (buffs s) (effect_id b) = Some old"
  show "trace (applyBuff b s) = trace s
        @ (if onExpire old = None then [] else [OnExpire (effect_id old)])
        @ (if onApply b = None then [] else [OnApply (effect_id b)])"
    using old by (simp add: applyBuff_trace)
  show "map_of (buffs (applyBuff b s)) (effect_id b) = Some (b\<lparr>remaining := duration b\<rparr>)"
    by (rule applyBuff_present)
  show "length (filter (\<lambda>e. fst e = effect_id b) (buffs (applyBuff b s)))
          = length (filter (\<lambda>e. fst e = effect_id b) (buffs s))"
    using map_of_in_keys [OF old] by (simp add: applyBuff_count)
  assume cb: "onExpire old = Some [RemoveModifier ty k] \<and> onApply b = Some [AddModifier ty k v]"
  show m: "modifiers (applyBuff b s) ty = map_delete k (modifiers s ty) @ [(k, v)]"
    using old cb by (simp add: reapply_modifiers)
  assume "distinct (map fst (modifiers s ty)) \<and> map_of (modifiers s ty) k = Some v"
  then show "getModifierTotal ty (applyBuff b s) = getModifierTotal ty s"
    using sum_map_delete [of "modifiers s ty" k v] by (simp add: getModifierTotal_sum m)
next
  assume old: "map_of (debuffs s) (effect_id b) = Some old"
  show "trace (applyDebuff b s) = trace s
        @ (if onExpire old = None then [] else [OnExpire (effect_id old)])
        @ (if onApply b = None then [] else [OnApply (effect_id b)])"
    using old by (simp add: applyDebuff_trace)
  show "map_of (debuffs (applyDebuff b s)) (effect_id b) = Some (b\<lparr>remaining := duration b\<rparr>)"
    by (rule applyDebuff_present)
  show "length (filter (\<lambda>e. fst e = effect_id b) (debuffs (applyDebuff b s)))
          = length (filter (\<lambda>e. fst e = effect_id b) (debuffs s))"
    using map_of_in_keys [OF old] by (simp add: applyDebuff_count)
  assume cb: "onExpire old = Some [RemoveModifier ty k] \<and> onApply b = Some [AddModifier ty k v]"
  show m: "modifiers (applyDebuff b s) ty = map_delete k (modifiers s ty) @ [(k, v)]"
    using old cb by (simp add: reapply_modifiers_debuff)
  assume "distinct (map fst (modifiers s ty)) \<and> map_of (modifiers s ty) k = Some v"
  then show "getModifierTotal ty (applyDebuff b s) = getModifierTotal ty s"
    using sum_map_delete [of "modifiers s ty" k v] by (simp add: getModifierTotal_sum m)
next
  show "getModifierTotal Damage (applyBuff bladeFlurry_buff fresh_sim) = 2 / 10"
    by (simp add: getModifierTotal_def applyBuff_def Let_def bladeFlurry_buff_def new_effect_def
        fresh_sim_def new_simulator_def call_onApply_def call_onExpire_def)
  show "getModifierTotal Damage (applyBuff bladeFlurry_buff (applyBuff bladeFlurry_buff fresh_sim)) = 2 / 10"
    by (simp add: getModifierTotal_def applyBuff_def Let_def bladeFlurry_buff_def new_effect_def
        fresh_sim_def new_simulator_def call_onApply_def call_onExpire_def)
  show "trace (applyBuff bladeFlurry_buff (applyBuff bladeFlurry_buff fresh_sim))
       = [OnApply ''bladeFlurry'', OnExpire ''bladeFlurry'', OnApply ''bladeFlurry'']"
    by (simp add: applyBuff_def Let_def bladeFlurry_buff_def new_effect_def
        fresh_sim_def new_simulator_def call_onApply_def call_onExpire_def)
qed


theorem reapply_runs_onExpire_first_witness:
  "map_of (buffs (applyBuff (sliceAndDice_buff 9) fresh_sim)) (effect_id (sliceAndDice_buff 9))
     = Some ((sliceAndDice_buff 9)\<lparr>remaining := 9\<rparr>)
   \<and> trace (applyBuff (sliceAndDice_buff 9) (applyBuff (sliceAndDice_buff 9) fresh_sim))
       = [OnApply ''sliceAndDice'', OnExpire ''sliceAndDice'', OnApply ''sliceAndDice'']
   \<and> getModifierTotal AutoSpeed (applyBuff (sliceAndDice_buff 9) (applyBuff (sliceAndDice_buff 9) fresh_sim))
       = 4 / 10
   \<and> map_of (debuffs (applyDebuff hemorrhage_debuff fresh_sim)) (effect_id hemorrhage_debuff)
       = Some (hemorrhage_debuff\<lparr>remaining := 15\<rparr>)
   \<and> trace (applyDebuff hemorrhage_debuff (applyDebuff hemorrhage_debuff fresh_sim))
       = [OnApply ''hemorrhage'', OnExpire ''hemorrhage'', OnApply ''hemorrhage'']
   \<and> getModifierTotal Damage (applyDebuff hemorrhage_debuff (applyDebuff hemorrhage_debuff fresh_sim))
       = 4 / 100"
proof -
  let ?b = "sliceAndDice_buff 9" and ?d = hemorrhage_debuff
  let ?s = "applyBuff ?b fresh_sim" and ?t = "applyDebuff ?d fresh_sim"
  have b: "map_of (buffs ?s) (effect_id ?b) = Some (?b\<lparr>remaining := 9\<rparr>)"
    "onExpire (?b\<lparr>remaining := 9\<rparr>) = Some [RemoveModifier AutoSpeed ''sliceAndDice'']
     \<and> onApply ?b = Some [AddModifier AutoSpeed ''sliceAndDice'' (4 / 10)]"
    "distinct (map fst (modifiers ?s AutoSpeed))
     \<and> map_of (modifiers ?s AutoSpeed) ''sliceAndDice'' = Some (4 / 10)"
    "trace ?s = [OnApply ''sliceAndDice'']" "getModifierTotal AutoSpeed ?s = 4 / 10"
    "effect_id (?b\<lparr>remaining := 9\<rparr>) = ''sliceAndDice''" "effect_id ?b = ''sliceAndDice''"
    by (simp_all add: applyBuff_def Let_def sliceAndDice_buff_def new_effect_def fresh_sim_fields
        call_onApply_def getModifierTotal_def)
  have d: "map_of (debuffs ?t) (effect_id ?d) = Some (?d\<lparr>remaining := 15\<rparr>)"
    "onExpire (?d\<lparr>remaining := 15\<rparr>) = Some [RemoveModifier Damage ''hemorrhage'']
     \<and> onApply ?d = Some [AddModifier Damage ''hemorrhage'' (4 / 100)]"
    "distinct (map fst (modifiers ?t Damage))
     \<and> map_of (modifiers ?t Damage) ''hemorrhage'' = Some (4 / 100)"
    "trace ?t = [OnApply ''hemorrhage'']" "getModifierTotal Damage ?t = 4 / 100"
    "effect_id (?d\<lparr>remaining := 15\<rparr>) = ''hemorrhage''" "effect_id ?d = ''hemorrhage''"
    by (simp_all add: applyDebuff_def Let_def hemorrhage_debuff_def new_effect_def fresh_sim_fields
        call_onApply_def getModifierTotal_def)
  have again: "trace (applyBuff ?b ?s) = trace ?s
        @ (if onExpire (?b\<lparr>remaining := 9\<rparr>) = None then []
           else [OnExpire (effect_id (?b\<lparr>remaining := 9\<rparr>))])
        @ (if onApply ?b = None then [] else [OnApply (effect_id ?b)])"
    "getModifierTotal AutoSpeed (applyBuff ?b ?s) = getModifierTotal AutoSpeed ?s"
    using b(1,2,3)
      reapply_runs_onExpire_first [of ?s ?b "?b\<lparr>remaining := 9\<rparr>" AutoSpeed "''sliceAndDice''" "4 / 10"]
    by blast+
  have again_debuff: "trace (applyDebuff ?d ?t) = trace ?t
        @ (if onExpire (?d\<lparr>remaining := 15\<rparr>) = None then []
           else [OnExpire (effect_id (?d\<lparr>remaining := 15\<rparr>))])
        @ (if onApply ?d = None then [] else [OnApply (effect_id ?d)])"
    "getModifierTotal Damage (applyDebuff ?d ?t) = getModifierTotal Damage ?t"
    using d(1,2,3)
      reapply_runs_onExpire_first [of ?t ?d "?d\<lparr>remaining := 15\<rparr>" Damage "''hemorrhage''" "4 / 100"]
    by blast+
  show ?thesis
    unfolding again again_debuff using b d by simp
qed

section \<open>Rollback of a failed cast\<close>

lemma performYellowDamage_miss:
  assumes "\<not> fst (performYellowDamage ab base gen spent bonus s)"
  shows "snd (performYellowDamage ab base gen spent bonus s)
           = addLogEntry [T (fst ab), T '' missed!''] ''system'' (snd (rollHit s))"
  using assms by (simp add: performYellowDamage_def Let_def split_def split: if_splits)

lemma handler_false_frame:
  assumes "a \<in> set initializeAbilities" and "fst (handler a s) = ReturnsFalse"
  shows "energy (snd (handler a s)) = energy s \<and> maxEnergy (snd (handler a s)) = maxEnergy s
       \<and> globalCooldown (snd (handler a s)) = globalCooldown s
       \<and> cooldowns (snd (handler a s)) = cooldowns s"
proof -
  consider "handler a = sinisterStrike_handler" | "handler a = backstab_handler"
    | "handler a = eviscerate_handler" | "handler a = sliceAndDice_handler"
    | "handler a = rupture_handler" | "handler a = hemorrhage_handler"
    | "handler a = envenom_handler" | "handler a = exposeArmor_handler"
    | "handler a = adrenalineRush_handler" | "handler a = shadowFocus_handler"
    | "handler a = bladeFlurry_handler"
    using assms(1) by (auto simp: initializeAbilities_def new_ability_def)
  then show ?thesis
  proof cases
    case 1
    then show ?thesis using assms(2) by (simp add: sinisterStrike_handler_def Let_def split_def)
  next
    case 2
    then show ?thesis using assms(2) by (simp add: backstab_handler_def Let_def split_def)
  next
    case 3
    then show ?thesis using assms(2)
      by (simp add: eviscerate_handler_def Let_def split_def split: if_splits)
  next
    case 4
    then show ?thesis using assms(2)
      by (simp add: sliceAndDice_handler_def Let_def split_def split: if_splits)
  next
    case 5
    then show ?thesis using assms(2)
      by (simp add: rupture_handler_def Let_def split_def split: if_splits)
  next
    case 6
    then show ?thesis using assms(2)
      by (simp add: hemorrhage_handler_def Let_def split_def split: if_splits)
  next
    case 7
    then show ?thesis using assms(2)
      by (simp add: envenom_handler_def Let_def split_def performYellowDamage_miss split: if_splits)
  next
    case 8
    then show ?thesis using assms(2)
      by (simp add: exposeArmor_handler_def Let_def split_def split: if_splits)
  next
    case 9
    then show ?thesis using assms(2) by (simp add: adrenalineRush_handler_def Let_def)
  next
    case 10
    then show ?thesis using assms(2) by (simp add: shadowFocus_handler_def Let_def)
  next
    case 11
    then show ?thesis using assms(2) by (simp add: bladeFlurry_handler_def Let_def)
  qed
qed

text \<open>
  Claim C3. When the handler of an ability returns \<^verbatim>\<open>false\<close> (a finisher cast with no
  combo points; Envenom that misses), and the energy was at least the cost (as \<open>canUse\<close>
  checks) and at most \<open>maxEnergy\<close>, then \<open>execute\<close> leaves the energy where it was before
  the cast, does not trigger the global cooldown and does not arm the ability's cooldown.
\<close>

theorem execute_rollback_refunds:
  assumes "a \<in> set initializeAbilities"
    and "energyCost a \<le> energy s" and "energy s \<le> maxEnergy s"
    and "fst (handler a (spendEnergy (energyCost a) s)) = ReturnsFalse"
  shows "energy (execute a s) = energy s
       \<and> globalCooldown (execute a s) = globalCooldown s
       \<and> cooldowns (execute a s) = cooldowns s"
proof -
  let ?s1 = "spendEnergy (energyCost a) s"
  have run: "execute a s = refundEnergy (energyCost a) (snd (handler a ?s1))"
    using assms(4) by (simp add: execute_def Let_def split_def)
  have frame: "energy (snd (handler a ?s1)) = energy ?s1"
    "maxEnergy (snd (handler a ?s1)) = maxEnergy ?s1"
    "globalCooldown (snd (handler a ?s1)) = globalCooldown ?s1"
    "cooldowns (snd (handler a ?s1)) = cooldowns ?s1"
    using handler_false_frame [OF assms(1,4)] by simp_all
  show ?thesis
    unfolding run using assms(2,3) by (simp add: frame)
qed

theorem execute_rollback_refunds_witness:
  "initializeAbilities ! 2 \<in> set initializeAbilities
   \<and> ability_id (initializeAbilities ! 2) = ''eviscerate''
   \<and> energyCost (initializeAbilities ! 2) \<le> energy (startCombat fresh_sim)
   \<and> energy (startCombat fresh_sim) \<le> maxEnergy (startCombat fresh_sim)
   \<and> comboPoints (startCombat fresh_sim) = 0
   \<and> fst (canUse (initializeAbilities ! 2) (startCombat fresh_sim))
   \<and> fst (handler (initializeAbilities ! 2)
            (spendEnergy (energyCost (initializeAbilities ! 2)) (startCombat fresh_sim))) = ReturnsFalse
   \<and> energy (execute (initializeAbilities ! 2) (startCombat fresh_sim)) = 100
   \<and> globalCooldown (execute (initializeAbilities ! 2) (startCombat fresh_sim)) = 0
   \<and> cooldowns (execute (initializeAbilities ! 2) (startCombat fresh_sim)) = []"
proof -
  let ?a = "initializeAbilities ! 2" and ?s = "startCombat fresh_sim"
  have a: "?a = new_ability ''eviscerate'' ''Eviscerate'' 35 0 eviscerate_handler"
    by (simp add: initializeAbilities_def)
  have pre: "?a \<in> set initializeAbilities" "energyCost ?a \<le> energy ?s" "energy ?s \<le> maxEnergy ?s"
    "fst (handler ?a (spendEnergy (energyCost ?a) ?s)) = ReturnsFalse"
    "ability_id ?a = ''eviscerate''" "fst (canUse ?a ?s)"
    unfolding a
    by (simp_all add: initializeAbilities_def new_ability_def combat_fresh_fields
        eviscerate_handler_def Let_def canUse_def map_has_def)
  show ?thesis
    using pre execute_rollback_refunds [OF pre(1-4)] by (simp add: combat_fresh_fields)
qed

section \<open>Proc configuration updates\<close>

lemma js_get_map_set: "js_get (map_set k v m) k' = (if k' = k then v else js_get m k')"
  by (simp add: js_get_def)

lemma map_of_spread: "map_of (spread a b) = map_of a ++ map_of (rev b)"
  unfolding spread_def
proof (induction b arbitrary: a)
  case Nil
  show ?case by simp
next
  case (Cons p b)
  obtain k v where p: "p = (k, v)" by (cases p)
  show ?case
    unfolding p by (simp add: Cons.IH) (auto simp: map_add_def fun_eq_iff split: option.split)
qed

lemma js_get_spread:
  "js_get (spread a b) k = (case map_of (rev b) k of Some v \<Rightarrow> v | None \<Rightarrow> js_get a k)"
  by (simp add: js_get_def map_of_spread map_add_def split: option.split)

lemma clamp_field_other: "k \<noteq> field_key f \<Longrightarrow> js_get (clamp_field f cfg) k = js_get cfg k"
  by (simp add: clamp_field_def Let_def js_get_map_set split: option.split)

lemma clamp_field_nonnumber:
  "\<not> is_number (js_get cfg (field_key f)) \<Longrightarrow> clamp_field f cfg = cfg"
  by (simp add: clamp_field_def)

lemma clamp_field_number:
  assumes "js_get cfg (field_key f) = JNum x"
  shows "js_get (clamp_field f cfg) (field_key f)
     = JNum (let x1 = (case field_min f of Some lo \<Rightarrow> max lo x | None \<Rightarrow> x)
             in (case field_max f of Some hi \<Rightarrow> min hi x1 | None \<Rightarrow> x1))"
  using assms
  by (simp add: clamp_field_def Let_def js_get_map_set Math_max_def Math_min_def split: option.split)

lemma clamp_field_nan:
  assumes "js_get cfg (field_key f) = JNaN"
  shows "js_get (clamp_field f cfg) (field_key f) = JNaN"
  using assms
  by (simp add: clamp_field_def Let_def js_get_map_set Math_max_def Math_min_def split: option.split)

lemma clamp_field_is_number:
  "is_number (js_get (clamp_field f cfg) k) = is_number (js_get cfg k)"
proof (cases "k = field_key f")
  case False
  then show ?thesis by (simp add: clamp_field_other)
next
  case True
  show ?thesis
  proof (cases "js_get cfg (field_key f)")
    case (JNum x)
    then show ?thesis using True clamp_field_number [OF JNum] by simp
  next
    case JNaN
    then show ?thesis using True clamp_field_nan [OF JNaN] by simp
  qed (simp_all add: True clamp_field_nonnumber)
qed

text \<open>What \<open>clamp_field\<close> stores under the field's key depends on the value there alone.\<close>

lemma clamp_field_value:
  "js_get (clamp_field f cfg) (field_key f)
     = (case js_get cfg (field_key f) of
          JNum x \<Rightarrow> JNum (let x1 = (case field_min f of Some lo \<Rightarrow> max lo x | None \<Rightarrow> x)
                         in (case field_max f of Some hi \<Rightarrow> min hi x1 | None \<Rightarrow> x1))
        | v \<Rightarrow> v)"
proof (cases "js_get cfg (field_key f)")
  case (JNum x)
  then show ?thesis using clamp_field_number [OF JNum] by simp
next
  case JNaN
  then show ?thesis using clamp_field_nan [OF JNaN] by simp
qed (simp_all add: clamp_field_nonnumber)

lemma fold_clamp_other:
  "k \<notin> field_key ` set fs \<Longrightarrow> js_get (fold clamp_field fs cfg) k = js_get cfg k"
  by (induction fs arbitrary: cfg) (simp_all add: clamp_field_other)

lemma fold_clamp_at:
  assumes "distinct (map field_key fs)" and "f \<in> set fs"
  shows "js_get (fold clamp_field fs cfg) (field_key f) = js_get (clamp_field f cfg) (field_key f)"
  using assms
proof (induction fs arbitrary: cfg)
  case Nil
  then show ?case by simp
next
  case (Cons g fs)
  show ?case
  proof (cases "g = f")
    case True
    then have "field_key f \<notin> field_key ` set fs"
      using Cons.prems(1) by auto
    then show ?thesis
      using True by (simp add: fold_clamp_other)
  next
    case False
    then have f: "f \<in> set fs"
      using Cons.prems(2) by simp
    then have "field_key f \<in> field_key ` set fs"
      by (rule imageI)
    then have "field_key f \<noteq> field_key g"
      using Cons.prems(1) by auto
    then have same: "js_get (clamp_field g cfg) (field_key f) = js_get cfg (field_key f)"
      by (simp add: clamp_field_other)
    have "js_get (fold clamp_field fs (clamp_field g cfg)) (field_key f)
        = js_get (clamp_field f (clamp_field g cfg)) (field_key f)"
      using Cons.IH [OF _ f] Cons.prems(1) by simp
    also have "\<dots> = js_get (clamp_field f cfg) (field_key f)"
      by (simp add: clamp_field_value same)
    finally show ?thesis
      by simp
  qed
qed

lemma proc_defs_wellformed:
  assumes "d \<in> set PROC_DEFINITIONS"
  shows "distinct (map field_key (proc_fields d))"
    and "''enabled'' \<notin> field_key ` set (proc_fields d)"
    and "f \<in> set (proc_fields d) \<Longrightarrow> field_min f = Some lo \<Longrightarrow> field_max f = Some hi \<Longrightarrow> lo \<le> hi"
  using assms
  by (auto simp: PROC_DEFINITIONS_def energySurge_def flurryStrike_def overpoweringStrikes_def
      criticalInsight_def shadowRecovery_def chance_field_def min0_field_def)

lemma updateConfig_lookup:
  assumes "d \<in> set PROC_DEFINITIONS"
  shows "map_of (ProcSystem_updateConfig newConfig) (proc_id d) = Some (merge_proc_config newConfig d)"
  using assms
  by (auto simp: ProcSystem_updateConfig_def PROC_DEFINITIONS_def energySurge_def flurryStrike_def
      overpoweringStrikes_def criticalInsight_def shadowRecovery_def)

lemma updateConfig_keys:
  "map fst (ProcSystem_updateConfig newConfig) = map proc_id PROC_DEFINITIONS"
  by (simp add: ProcSystem_updateConfig_def PROC_DEFINITIONS_def energySurge_def flurryStrike_def
      overpoweringStrikes_def criticalInsight_def shadowRecovery_def)

lemma clamp_field_keeps_nonnumber:
  "\<not> is_number (js_get cfg k) \<Longrightarrow> js_get (clamp_field f cfg) k = js_get cfg k"
  by (cases "k = field_key f") (simp_all add: clamp_field_other clamp_field_nonnumber)

lemma fold_clamp_keeps_nonnumber:
  "\<not> is_number (js_get cfg k) \<Longrightarrow> js_get (fold clamp_field fs cfg) k = js_get cfg k"
  by (induction fs arbitrary: cfg) (simp_all add: clamp_field_keeps_nonnumber clamp_field_is_number)

lemma merge_proc_config_enabled:
  assumes "d \<in> set PROC_DEFINITIONS"
  shows "js_get (merge_proc_config newConfig d) ''enabled''
           = JBool (js_Boolean (js_get (merged_over_defaults newConfig d) ''enabled''))"
  using proc_defs_wellformed(2) [OF assms]
  by (simp add: merge_proc_config_def Let_def fold_clamp_other js_get_map_set merged_over_defaults_def)

lemma merge_proc_config_other:
  assumes "k \<noteq> ''enabled''" and "k \<notin> field_key ` set (proc_fields d)"
  shows "js_get (merge_proc_config newConfig d) k = js_get (merged_over_defaults newConfig d) k"
  using assms
  by (simp add: merge_proc_config_def Let_def fold_clamp_other js_get_map_set merged_over_defaults_def)

lemma merge_proc_config_nonnumber:
  assumes "k \<noteq> ''enabled''" and "\<not> is_number (js_get (merged_over_defaults newConfig d) k)"
  shows "js_get (merge_proc_config newConfig d) k = js_get (merged_over_defaults newConfig d) k"
  using assms
  by (simp add: merge_proc_config_def Let_def fold_clamp_keeps_nonnumber js_get_map_set
      merged_over_defaults_def)

text \<open>The two one-sided steps of the source send a number to the nearest bound.\<close>

lemma clamp_steps_nearest:
  assumes "\<And>lo hi. field_min f = Some lo \<Longrightarrow> field_max f = Some hi \<Longrightarrow> lo \<le> hi"
  shows "(let x1 = (case field_min f of Some lo \<Rightarrow> max lo x | None \<Rightarrow> x)
          in (case field_max f of Some hi \<Rightarrow> min hi x1 | None \<Rightarrow> x1)) = nearest_in_bounds f x"
proof (cases "field_min f")
  case None
  then show ?thesis
    by (simp add: nearest_in_bounds_def Let_def split: option.split)
next
  case (Some lo)
  show ?thesis
  proof (cases "field_max f")
    case None
    then show ?thesis
      using Some by (simp add: nearest_in_bounds_def Let_def)
  next
    case (Some hi)
    have "lo \<le> hi"
      using assms \<open>field_min f = Some lo\<close> Some by simp
    then show ?thesis
      using \<open>field_min f = Some lo\<close> Some by (simp add: nearest_in_bounds_def Let_def)
  qed
qed

lemma nearest_within_bounds:
  assumes "\<And>lo hi. field_min f = Some lo \<Longrightarrow> field_max f = Some hi \<Longrightarrow> lo \<le> hi"
  shows "within_bounds f (JNum (nearest_in_bounds f x))"
proof (cases "field_min f")
  case None
  then show ?thesis
    by (simp add: nearest_in_bounds_def within_bounds_def Let_def split: option.split)
next
  case (Some lo)
  show ?thesis
  proof (cases "field_max f")
    case None
    then show ?thesis
      using Some by (simp add: nearest_in_bounds_def within_bounds_def Let_def)
  next
    case (Some hi)
    have "lo \<le> hi"
      using assms \<open>field_min f = Some lo\<close> Some by simp
    then show ?thesis
      using \<open>field_min f = Some lo\<close> Some by (simp add: nearest_in_bounds_def within_bounds_def Let_def)
  qed
qed

lemma nearest_keeps_in_range:
  "within_bounds f (JNum x) \<Longrightarrow> nearest_in_bounds f x = x"
  by (auto simp: nearest_in_bounds_def within_bounds_def Let_def split: option.splits)

lemma merge_proc_config_field:
  assumes "d \<in> set PROC_DEFINITIONS" and "f \<in> set (proc_fields d)"
  shows "js_get (merge_proc_config newConfig d) (field_key f)
     = (case js_get (merged_over_defaults newConfig d) (field_key f) of
          JNum x \<Rightarrow> JNum (nearest_in_bounds f x)
        | v \<Rightarrow> v)"
proof -
  let ?m = "merged_over_defaults newConfig d"
  let ?cfg1 = "map_set ''enabled'' (JBool (js_Boolean (js_get ?m ''enabled''))) ?m"
  have "field_key f \<in> field_key ` set (proc_fields d)"
    using assms(2) by (rule imageI)
  then have key: "field_key f \<noteq> ''enabled''"
    using proc_defs_wellformed(2) [OF assms(1)] by auto
  then have same: "js_get ?cfg1 (field_key f) = js_get ?m (field_key f)"
    by (simp add: js_get_map_set)
  have "js_get (merge_proc_config newConfig d) (field_key f)
      = js_get (clamp_field f ?cfg1) (field_key f)"
    using fold_clamp_at [OF proc_defs_wellformed(1) [OF assms(1)] assms(2), of ?cfg1]
    by (simp add: merge_proc_config_def Let_def merged_over_defaults_def)
  also have "\<dots> = (case js_get ?m (field_key f) of
          JNum x \<Rightarrow> JNum (let x1 = (case field_min f of Some lo \<Rightarrow> max lo x | None \<Rightarrow> x)
                         in (case field_max f of Some hi \<Rightarrow> min hi x1 | None \<Rightarrow> x1))
        | v \<Rightarrow> v)"
    by (simp add: clamp_field_value same)
  also have "\<dots> = (case js_get ?m (field_key f) of JNum x \<Rightarrow> JNum (nearest_in_bounds f x) | v \<Rightarrow> v)"
    using clamp_steps_nearest [of f] proc_defs_wellformed(3) [OF assms]
    by (simp split: jsval.split)
  finally show ?thesis .
qed

lemma updateConfig_procs:
  "procs (config (updateConfig pc s))
     = ProcSystem_updateConfig (case pc_procs pc of Some x \<Rightarrow> x | None \<Rightarrow> getDefaultProcConfig)"
  by (simp add: updateConfig_def Let_def applyConfigDefaults_def getDefaultConfig_def
      split: option.split)

text \<open>
  The claim as the specification words it fails for \<^verbatim>\<open>NaN\<close>: a chance of \<^verbatim>\<open>NaN\<close> is of type
  number, passes both \<^verbatim>\<open>Math.max\<close> and \<^verbatim>\<open>Math.min\<close>, and is stored, outside the declared
  bounds \<open>[0, 100]\<close>.
\<close>

theorem proc_updateConfig_nan_counterexample:
  "energySurge \<in> set PROC_DEFINITIONS
   \<and> chance_field 20 \<in> set (proc_fields energySurge)
   \<and> field_min (chance_field 20) = Some 0 \<and> field_max (chance_field 20) = Some 100
   \<and> map_of (ProcSystem_updateConfig nan_proc_input) (proc_id energySurge) = Some nan_energySurge
   \<and> js_get nan_energySurge (field_key (chance_field 20)) = JNaN
   \<and> is_number (js_get nan_energySurge (field_key (chance_field 20)))
   \<and> \<not> within_bounds (chance_field 20) (js_get nan_energySurge (field_key (chance_field 20)))"
proof -
  have result: "map_of (ProcSystem_updateConfig nan_proc_input) (proc_id energySurge) = Some nan_energySurge"
    by (simp add: ProcSystem_updateConfig_def PROC_DEFINITIONS_def energySurge_def flurryStrike_def
        overpoweringStrikes_def criticalInsight_def shadowRecovery_def merge_proc_config_def
        nan_proc_input_def nan_energySurge_def spread_def Let_def clamp_field_def js_get_def
        chance_field_def min0_field_def Math_max_def Math_min_def)
  have stored: "js_get nan_energySurge (field_key (chance_field 20)) = JNaN"
    by (simp add: nan_energySurge_def chance_field_def js_get_def)
  show ?thesis
    using result
    by (simp add: stored within_bounds_def)
      (simp add: PROC_DEFINITIONS_def energySurge_def chance_field_def)
qed

text \<open>
  Claim C9, amended. For every input, \<open>ProcSystem_updateConfig\<close> returns one configuration
  for each proc definition and nothing else (there is no error result, as the source has no
  statement that throws on this path): the input for the definition's id spread over its
  defaults, with \<open>enabled\<close> coerced to a boolean. A declared field whose merged value is a
  number other than \<^verbatim>\<open>NaN\<close> holds that number sent to the nearest of the field's declared
  bounds, which is the number itself when it lies within them, so the stored number lies
  within the bounds. A declared field whose merged value is \<^verbatim>\<open>NaN\<close> holds \<^verbatim>\<open>NaN\<close>. Values
  that are not numbers and keys that are no declared field are kept as merged. The proc
  configuration of the simulator after \<open>updateConfig\<close> is such a result.
\<close>

theorem proc_updateConfig_clamps:
  "map fst (ProcSystem_updateConfig newConfig) = map proc_id PROC_DEFINITIONS
   \<and> (\<forall>d \<in> set PROC_DEFINITIONS. \<exists>cfg.
        map_of (ProcSystem_updateConfig newConfig) (proc_id d) = Some cfg
        \<and> js_get cfg ''enabled'' = JBool (js_Boolean (js_get (merged_over_defaults newConfig d) ''enabled''))
        \<and> (\<forall>f \<in> set (proc_fields d).
              (\<forall>x. js_get (merged_over_defaults newConfig d) (field_key f) = JNum x \<longrightarrow>
                 js_get cfg (field_key f) = JNum (nearest_in_bounds f x)
                 \<and> within_bounds f (js_get cfg (field_key f))
                 \<and> (within_bounds f (JNum x) \<longrightarrow> js_get cfg (field_key f) = JNum x))
              \<and> (js_get (merged_over_defaults newConfig d) (field_key f) = JNaN \<longrightarrow>
                   js_get cfg (field_key f) = JNaN)
              \<and> (\<forall>y. js_get cfg (field_key f) = JNum y \<longrightarrow> within_bounds f (JNum y)))
        \<and> (\<forall>k. k \<noteq> ''enabled'' \<longrightarrow>
              k \<notin> field_key ` set (proc_fields d) \<or> \<not> is_number (js_get (merged_over_defaults newConfig d) k) \<longrightarrow>
              js_get cfg k = js_get (merged_over_defaults newConfig d) k))
   \<and> (\<forall>d k. js_get (merged_over_defaults newConfig d) k
          = (case map_of (rev (case map_of newConfig (proc_id d) of None \<Rightarrow> [] | Some c \<Rightarrow> c)) k of
               Some v \<Rightarrow> v | None \<Rightarrow> js_get (defaultConfig d) k))
   \<and> procs (config (updateConfig pc s))
       = ProcSystem_updateConfig (case pc_procs pc of Some x \<Rightarrow> x | None \<Rightarrow> getDefaultProcConfig)"
proof (intro conjI ballI allI)
  show "map fst (ProcSystem_updateConfig newConfig) = map proc_id PROC_DEFINITIONS"
    by (rule updateConfig_keys)
next
  fix d
  assume d: "d \<in> set PROC_DEFINITIONS"
  let ?m = "merged_over_defaults newConfig d"
  let ?cfg = "merge_proc_config newConfig d"
  have fields: "(\<forall>x. js_get ?m (field_key f) = JNum x \<longrightarrow>
                 js_get ?cfg (field_key f) = JNum (nearest_in_bounds f x)
                 \<and> within_bounds f (js_get ?cfg (field_key f))
                 \<and> (within_bounds f (JNum x) \<longrightarrow> js_get ?cfg (field_key f) = JNum x))
              \<and> (js_get ?m (field_key f) = JNaN \<longrightarrow> js_get ?cfg (field_key f) = JNaN)
              \<and> (\<forall>y. js_get ?cfg (field_key f) = JNum y \<longrightarrow> within_bounds f (JNum y))"
    if f: "f \<in> set (proc_fields d)" for f
  proof -
    note stored = merge_proc_config_field [OF d f, of newConfig]
    have ordered: "\<And>lo hi. field_min f = Some lo \<Longrightarrow> field_max f = Some hi \<Longrightarrow> lo \<le> hi"
      using proc_defs_wellformed(3) [OF d f] .
    have number: "js_get ?cfg (field_key f) = JNum (nearest_in_bounds f x)
        \<and> within_bounds f (js_get ?cfg (field_key f))
        \<and> (within_bounds f (JNum x) \<longrightarrow> js_get ?cfg (field_key f) = JNum x)"
      if "js_get ?m (field_key f) = JNum x" for x
      using that stored nearest_within_bounds [of f x] ordered nearest_keeps_in_range [of f x]
      by simp
    have nan: "js_get ?cfg (field_key f) = JNaN" if "js_get ?m (field_key f) = JNaN"
      using that stored by simp
    have bounded: "within_bounds f (JNum y)" if y: "js_get ?cfg (field_key f) = JNum y" for y
    proof (cases "js_get ?m (field_key f)")
      case (JNum x)
      have "within_bounds f (js_get ?cfg (field_key f))"
        using number [OF JNum] by (rule conjunct1 [OF conjunct2])
      then show ?thesis
        by (simp add: y)
    qed (use y stored in simp_all)
    show ?thesis
      using number nan bounded by blast
  qed
  show "\<exists>cfg.
        map_of (ProcSystem_updateConfig newConfig) (proc_id d) = Some cfg
        \<and> js_get cfg ''enabled'' = JBool (js_Boolean (js_get ?m ''enabled''))
        \<and> (\<forall>f \<in> set (proc_fields d).
              (\<forall>x. js_get ?m (field_key f) = JNum x \<longrightarrow>
                 js_get cfg (field_key f) = JNum (nearest_in_bounds f x)
                 \<and> within_bounds f (js_get cfg (field_key f))
                 \<and> (within_bounds f (JNum x) \<longrightarrow> js_get cfg (field_key f) = JNum x))
              \<and> (js_get ?m (field_key f) = JNaN \<longrightarrow> js_get cfg (field_key f) = JNaN)
              \<and> (\<forall>y. js_get cfg (field_key f) = JNum y \<longrightarrow> within_bounds f (JNum y)))
        \<and> (\<forall>k. k \<noteq> ''enabled'' \<longrightarrow>
              k \<notin> field_key ` set (proc_fields d) \<or> \<not> is_number (js_get ?m k) \<longrightarrow>
              js_get cfg k = js_get ?m k)"
  proof (rule exI [of _ ?cfg], intro conjI)
    show "map_of (ProcSystem_updateConfig newConfig) (proc_id d) = Some ?cfg"
      by (rule updateConfig_lookup [OF d])
    show "js_get ?cfg ''enabled'' = JBool (js_Boolean (js_get ?m ''enabled''))"
      by (rule merge_proc_config_enabled [OF d])
    show "\<forall>f \<in> set (proc_fields d).
              (\<forall>x. js_get ?m (field_key f) = JNum x \<longrightarrow>
                 js_get ?cfg (field_key f) = JNum (nearest_in_bounds f x)
                 \<and> within_bounds f (js_get ?cfg (field_key f))
                 \<and> (within_bounds f (JNum x) \<longrightarrow> js_get ?cfg (field_key f) = JNum x))
              \<and> (js_get ?m (field_key f) = JNaN \<longrightarrow> js_get ?cfg (field_key f) = JNaN)
              \<and> (\<forall>y. js_get ?cfg (field_key f) = JNum y \<longrightarrow> within_bounds f (JNum y))"
      using fields by (intro ballI)
    show "\<forall>k. k \<noteq> ''enabled'' \<longrightarrow>
              k \<notin> field_key ` set (proc_fields d) \<or> \<not> is_number (js_get ?m k) \<longrightarrow>
              js_get ?cfg k = js_get ?m k"
      using merge_proc_config_other merge_proc_config_nonnumber by blast
  qed
next
  fix d k
  show "js_get (merged_over_defaults newConfig d) k
          = (case map_of (rev (case map_of newConfig (proc_id d) of None \<Rightarrow> [] | Some c \<Rightarrow> c)) k of
               Some v \<Rightarrow> v | None \<Rightarrow> js_get (defaultConfig d) k)"
    by (simp add: merged_over_defaults_def js_get_spread)
next
  show "procs (config (updateConfig pc s))
       = ProcSystem_updateConfig (case pc_procs pc of Some x \<Rightarrow> x | None \<Rightarrow> getDefaultProcConfig)"
    by (rule updateConfig_procs)
qed

theorem proc_updateConfig_clamps_witness:
  "energySurge \<in> set PROC_DEFINITIONS
   \<and> chance_field 20 \<in> set (proc_fields energySurge)
   \<and> min0_field ''energyGain'' 25 \<in> set (proc_fields energySurge)
   \<and> js_get (merged_over_defaults wild_proc_input energySurge) (field_key (chance_field 20)) = JNum 250
   \<and> js_get (merged_over_defaults wild_proc_input energySurge) (field_key (min0_field ''energyGain'' 25))
       = JNum (- 5)
   \<and> map_of (ProcSystem_updateConfig wild_proc_input) (proc_id energySurge) = Some tamed_energySurge
   \<and> js_get tamed_energySurge (field_key (chance_field 20)) = JNum 100
   \<and> nearest_in_bounds (chance_field 20) 250 = 100
   \<and> js_get tamed_energySurge (field_key (min0_field ''energyGain'' 25)) = JNum 0
   \<and> nearest_in_bounds (min0_field ''energyGain'' 25) (- 5) = 0
   \<and> js_get tamed_energySurge ''enabled'' = JBool True
   \<and> map_of (ProcSystem_updateConfig wild_proc_input) (proc_id flurryStrike)
       = Some (defaultConfig flurryStrike)"
proof -
  have kept: "map_of (ProcSystem_updateConfig wild_proc_input) (proc_id flurryStrike)
       = Some (defaultConfig flurryStrike)"
    by (simp add: ProcSystem_updateConfig_def PROC_DEFINITIONS_def energySurge_def flurryStrike_def
        overpoweringStrikes_def criticalInsight_def shadowRecovery_def merge_proc_config_def
        wild_proc_input_def spread_def Let_def clamp_field_def js_get_def
        chance_field_def min0_field_def Math_max_def Math_min_def)
  have facts: "energySurge \<in> set PROC_DEFINITIONS" "chance_field 20 \<in> set (proc_fields energySurge)"
    "min0_field ''energyGain'' 25 \<in> set (proc_fields energySurge)"
    "js_get tamed_energySurge (field_key (chance_field 20)) = JNum 100"
    "js_get tamed_energySurge (field_key (min0_field ''energyGain'' 25)) = JNum 0"
    "js_get tamed_energySurge ''enabled'' = JBool True"
    by (simp_all add: PROC_DEFINITIONS_def energySurge_def chance_field_def min0_field_def
        tamed_energySurge_def js_get_def)
  have merged:
    "js_get (merged_over_defaults wild_proc_input energySurge) (field_key (chance_field 20)) = JNum 250"
    "js_get (merged_over_defaults wild_proc_input energySurge) (field_key (min0_field ''energyGain'' 25))
       = JNum (- 5)"
    by (simp_all add: merged_over_defaults_def wild_proc_input_def energySurge_def spread_def
        chance_field_def min0_field_def js_get_def)
  have result: "map_of (ProcSystem_updateConfig wild_proc_input) (proc_id energySurge) = Some tamed_energySurge"
    by (simp add: ProcSystem_updateConfig_def PROC_DEFINITIONS_def energySurge_def flurryStrike_def
        overpoweringStrikes_def criticalInsight_def shadowRecovery_def merge_proc_config_def
        wild_proc_input_def tamed_energySurge_def spread_def Let_def clamp_field_def js_get_def
        chance_field_def min0_field_def Math_max_def Math_min_def)
  note inst = proc_updateConfig_clamps [of wild_proc_input, THEN conjunct2, THEN conjunct1,
      THEN bspec, OF facts(1)]
  then obtain cfg where cfg: "map_of (ProcSystem_updateConfig wild_proc_input) (proc_id energySurge) = Some cfg"
    and fields: "\<forall>f \<in> set (proc_fields energySurge).
              (\<forall>x. js_get (merged_over_defaults wild_proc_input energySurge) (field_key f) = JNum x \<longrightarrow>
                 js_get cfg (field_key f) = JNum (nearest_in_bounds f x)
                 \<and> within_bounds f (js_get cfg (field_key f))
                 \<and> (within_bounds f (JNum x) \<longrightarrow> js_get cfg (field_key f) = JNum x))
              \<and> (js_get (merged_over_defaults wild_proc_input energySurge) (field_key f) = JNaN \<longrightarrow>
                   js_get cfg (field_key f) = JNaN)
              \<and> (\<forall>y. js_get cfg (field_key f) = JNum y \<longrightarrow> within_bounds f (JNum y))"
    by (elim exE conjE)
  have same: "cfg = tamed_energySurge"
    using cfg result by simp
  have chance: "js_get tamed_energySurge (field_key (chance_field 20))
      = JNum (nearest_in_bounds (chance_field 20) 250)"
    using bspec [OF fields facts(2)] merged(1) by (simp add: same)
  have gain: "js_get tamed_energySurge (field_key (min0_field ''energyGain'' 25))
      = JNum (nearest_in_bounds (min0_field ''energyGain'' 25) (- 5))"
    using bspec [OF fields facts(3)] merged(2) by (simp add: same)
  show ?thesis
    using facts merged result chance gain kept by simp
qed

section \<open>Ticking effects\<close>

lemma ticks_fired_call_onApply [simp]: "ticks_fired k (call_onApply e s) = ticks_fired k s"
  by (simp add: ticks_fired_def call_onApply_def split: option.split)

lemma ticks_fired_call_onExpire [simp]: "ticks_fired k (call_onExpire e s) = ticks_fired k s"
  by (simp add: ticks_fired_def call_onExpire_def split: option.split)

lemma ticks_fired_update [simp]:
  "ticks_fired k (s\<lparr>inCombat := x0\<rparr>) = ticks_fired k s"
  "ticks_fired k (s\<lparr>energy := x1\<rparr>) = ticks_fired k s"
  "ticks_fired k (s\<lparr>maxEnergy := x2\<rparr>) = ticks_fired k s"
  "ticks_fired k (s\<lparr>comboPoints := x3\<rparr>) = ticks_fired k s"
  "ticks_fired k (s\<lparr>maxComboPoints := x4\<rparr>) = ticks_fired k s"
  "ticks_fired k (s\<lparr>globalCooldown := x5\<rparr>) = ticks_fired k s"
  "ticks_fired k (s\<lparr>dummyMaxHealth := x6\<rparr>) = ticks_fired k s"
  "ticks_fired k (s\<lparr>dummyHealth := x7\<rparr>) = ticks_fired k s"
  "ticks_fired k (s\<lparr>autoAttackTimer := x8\<rparr>) = ticks_fired k s"
  "ticks_fired k (s\<lparr>baseAutoSpeed := x9\<rparr>) = ticks_fired k s"
  "ticks_fired k (s\<lparr>energyTickProgress := x10\<rparr>) = ticks_fired k s"
  "ticks_fired k (s\<lparr>modifiers := x11\<rparr>) = ticks_fired k s"
  "ticks_fired k (s\<lparr>buffs := x12\<rparr>) = ticks_fired k s"
  "ticks_fired k (s\<lparr>debuffs := x13\<rparr>) = ticks_fired k s"
  "ticks_fired k (s\<lparr>cooldowns := x14\<rparr>) = ticks_fired k s"
  "ticks_fired k (s\<lparr>stats := x15\<rparr>) = ticks_fired k s"
  "ticks_fired k (s\<lparr>config := x16\<rparr>) = ticks_fired k s"
  "ticks_fired k (s\<lparr>externalTarget := x17\<rparr>) = ticks_fired k s"
  "ticks_fired k (s\<lparr>sessionHistory := x18\<rparr>) = ticks_fired k s"
  "ticks_fired k (s\<lparr>currentSession := x19\<rparr>) = ticks_fired k s"
  "ticks_fired k (s\<lparr>previousSession := x20\<rparr>) = ticks_fired k s"
  "ticks_fired k (s\<lparr>ui := x21\<rparr>) = ticks_fired k s"
  "ticks_fired k (s\<lparr>random_src := x22\<rparr>) = ticks_fired k s"
  "ticks_fired k (s\<lparr>random_pos := x23\<rparr>) = ticks_fired k s"
  by (simp_all add: ticks_fired_def)

lemma ticks_fired_applyBuff [simp]: "ticks_fired k (applyBuff b s) = ticks_fired k s"
  by (simp add: applyBuff_def Let_def split: option.split)

lemma ticks_fired_applyDebuff [simp]: "ticks_fired k (applyDebuff b s) = ticks_fired k s"
  by (simp add: applyDebuff_def Let_def split: option.split)

lemma ticks_fired_expire_all [simp]:
  "ticks_fired k (fold (\<lambda>(i, e). call_onExpire e) es s) = ticks_fired k s"
  by (rule fold_sel) (simp add: split_def)

lemma ticks_fired_clearEffects [simp]: "ticks_fired k (clearEffects s) = ticks_fired k s"
  by (simp add: clearEffects_def Let_def)

lemma ticks_fired_simple [simp]:
  "ticks_fired k (addLogEntry m t s) = ticks_fired k s"
  "ticks_fired k (showFloatingText m t s) = ticks_fired k s"
  "ticks_fired k (refillEnergy a s) = ticks_fired k s"
  "ticks_fired k (snd (Math_random s)) = ticks_fired k s"
  "ticks_fired k (damage_target dmg s) = ticks_fired k s"
  "ticks_fired k (record_damage dmg ctx s) = ticks_fired k s"
  by (simp_all add: ticks_fired_def)

lemma ticks_fired_onTrigger:
  assumes "d \<in> set PROC_DEFINITIONS"
  shows "ticks_fired k (snd (onTrigger d cfg s)) = ticks_fired k s"
  using assms
  by (auto simp: PROC_DEFINITIONS_def energySurge_def flurryStrike_def overpoweringStrikes_def
      criticalInsight_def shadowRecovery_def energySurge_onTrigger_def flurryStrike_onTrigger_def
      overpoweringStrikes_onTrigger_def criticalInsight_onTrigger_def shadowRecovery_onTrigger_def
      Let_def)

lemma ticks_fired_handleEvent_def:
  assumes "d \<in> set PROC_DEFINITIONS"
  shows "ticks_fired k (handleEvent_def ev ctx d s) = ticks_fired k s"
  using assms
  by (simp add: handleEvent_def_def Let_def split_def ticks_fired_onTrigger split: option.split)

lemma ticks_fired_handleEvent [simp]: "ticks_fired k (handleEvent ev ctx s) = ticks_fired k s"
  unfolding handleEvent_def by (rule fold_sel_in) (simp add: ticks_fired_handleEvent_def)

lemma ticks_fired_stopCombat [simp]: "ticks_fired k (stopCombat s) = ticks_fired k s"
  by (simp add: stopCombat_def Let_def)

lemma ticks_fired_check_defeat [simp]: "ticks_fired k (check_defeat s) = ticks_fired k s"
  by (simp add: check_defeat_def Let_def)

lemma ticks_fired_applyDamage [simp]: "ticks_fired k (applyDamage amount ctx s) = ticks_fired k s"
  by (simp add: applyDamage_def Let_def)

lemma ticks_fired_call_onTick:
  "ticks_fired k (call_onTick e s)
     = ticks_fired k s + (if onTick e \<noteq> None \<and> effect_id e = k then 1 else 0)"
proof (cases "onTick e")
  case None
  then show ?thesis by (simp add: call_onTick_def)
next
  case (Some act)
  have "ticks_fired k (run_tick_action act s') = ticks_fired k s'" for s'
    by (cases act) simp_all
  then show ?thesis
    using Some by (simp add: call_onTick_def) (simp add: ticks_fired_def)
qed

lemma ticks_fired_set_effects [simp]: "ticks_fired k (set_effects m es s) = ticks_fired k s"
  by (cases m) simp_all

lemma get_set_effects [simp]: "get_effects m (set_effects m es s) = es"
  by (cases m) simp_all

text \<open>
  Claim C1, as the specification states it, fails: one \<open>updateBuffs\<close> call with delta 3.5
  on a buff with \<open>tickInterval = 1\<close> runs \<open>onTick\<close> once, not three times. The loop body
  tests the accumulated progress with an \<^verbatim>\<open>if\<close>, so one call fires at most once.
\<close>

theorem updateBuffs_long_delta_counterexample:
  "tickInterval shadowFocus_buff = Some 1
   \<and> ticks_fired ''shadowFocus'' focus_sim = 0
   \<and> ticks_fired ''shadowFocus'' (updateBuffs (7 / 2) focus_sim) = 1
   \<and> ticks_fired ''shadowFocus'' (updateBuffs (7 / 2) focus_sim) \<noteq> 3
   \<and> energy focus_sim = 0 \<and> energy (updateBuffs (7 / 2) focus_sim) = 10"
  by code_simp

text \<open>
  Claim C1, amended. For an active effect with a non-zero \<open>tickInterval\<close>, the loop body of
  one \<open>updateBuffs\<close> call with delta \<open>d\<close> adds \<open>d\<close> to the tick progress and runs \<open>onTick\<close>
  once if the progress has reached the interval (one interval is subtracted, the rest is
  kept), and not at all otherwise: at most once per call, whatever \<open>d\<close> is. While the
  accumulated progress stays below two intervals this is once per full interval elapsed.
  Several fires for a long delta come from the sub-steps of \<open>update\<close>, which are at most 0.5
  seconds long: Shadow Focus (interval 1) fires once in one \<open>updateBuffs\<close> call with delta
  3.5, and three times under \<open>update\<close> with delta 3.5.
\<close>

theorem tick_effect_fires_at_most_once:
  assumes "tickInterval b = Some ti" and "ti \<noteq> 0"
  shows "ticks_fired (effect_id b) (tick_effect m d (k, b) s)
           = ticks_fired (effect_id b) s + (if ti \<le> progress_of b + d \<and> onTick b \<noteq> None then 1 else 0)
       \<and> (0 < ti \<and> 0 \<le> progress_of b + d \<and> progress_of b + d < 2 * ti \<and> onTick b \<noteq> None \<longrightarrow>
            ticks_fired (effect_id b) (tick_effect m d (k, b) s)
              = ticks_fired (effect_id b) s + nat \<lfloor>(progress_of b + d) / ti\<rfloor>)
       \<and> (0 < remaining b - d \<longrightarrow>
            map_of (get_effects m (tick_effect m d (k, b) s)) k
              = Some (b\<lparr>remaining := remaining b - d,
                        tickProgress := Some (if ti \<le> progress_of b + d then progress_of b + d - ti
                                              else progress_of b + d)\<rparr>))
       \<and> ticks_fired ''shadowFocus'' (updateBuffs (7 / 2) focus_sim) = 1
       \<and> (\<exists>s'. update (7 / 2) focus_sim = Some s' \<and> ticks_fired ''shadowFocus'' s' = 3)"
proof -
  have count: "ticks_fired (effect_id b) (tick_effect m d (k, b) s)
           = ticks_fired (effect_id b) s + (if ti \<le> progress_of b + d \<and> onTick b \<noteq> None then 1 else 0)"
    using assms
    by (simp add: tick_effect_def Let_def progress_of_def ticks_fired_call_onTick)
  have floor: "nat \<lfloor>(progress_of b + d) / ti\<rfloor> = (if ti \<le> progress_of b + d then 1 else 0)"
    if "0 < ti" "0 \<le> progress_of b + d" "progress_of b + d < 2 * ti"
  proof (cases "ti \<le> progress_of b + d")
    case True
    then have "1 \<le> (progress_of b + d) / ti" "(progress_of b + d) / ti < 2"
      using that by (simp_all add: field_simps)
    then have "\<lfloor>(progress_of b + d) / ti\<rfloor> = 1" by linarith
    then show ?thesis using True by simp
  next
    case False
    then have "0 \<le> (progress_of b + d) / ti" "(progress_of b + d) / ti < 1"
      using that by (simp_all add: field_simps)
    then have "\<lfloor>(progress_of b + d) / ti\<rfloor> = 0" by linarith
    then show ?thesis using False by simp
  qed
  have kept: "map_of (get_effects m (tick_effect m d (k, b) s)) k
              = Some (b\<lparr>remaining := remaining b - d,
                        tickProgress := Some (if ti \<le> progress_of b + d then progress_of b + d - ti
                                              else progress_of b + d)\<rparr>)"
    if "0 < remaining b - d"
    using assms that by (simp add: tick_effect_def Let_def progress_of_def)
  have one_call: "ticks_fired ''shadowFocus'' (updateBuffs (7 / 2) focus_sim) = 1"
    by code_simp
  have "update (7 / 2) focus_sim \<noteq> None"
    and "ticks_fired ''shadowFocus'' (the (update (7 / 2) focus_sim)) = 3"
    by code_simp+
  then have advance: "\<exists>s'. update (7 / 2) focus_sim = Some s' \<and> ticks_fired ''shadowFocus'' s' = 3"
    by auto
  show ?thesis
    using count floor kept one_call advance by simp
qed

theorem tick_effect_fires_at_most_once_witness:
  "tickInterval (shadowFocus_buff\<lparr>remaining := 4\<rparr>) = Some 1 \<and> (1 :: real) \<noteq> 0
   \<and> ticks_fired ''shadowFocus''
        (tick_effect Buffs (7 / 2) (''shadowFocus'', shadowFocus_buff\<lparr>remaining := 4\<rparr>) focus_sim) = 1
   \<and> map_of (buffs (tick_effect Buffs (7 / 2) (''shadowFocus'', shadowFocus_buff\<lparr>remaining := 4\<rparr>)
                  focus_sim)) ''shadowFocus''
       = Some (shadowFocus_buff\<lparr>remaining := 1 / 2, tickProgress := Some (5 / 2)\<rparr>)
   \<and> ticks_fired ''shadowFocus''
        (tick_effect Buffs (1 / 2)
           (''shadowFocus'', shadowFocus_buff\<lparr>remaining := 4, tickProgress := Some (1 / 2)\<rparr>) focus_sim)
       = 1"
proof -
  let ?b = "shadowFocus_buff\<lparr>remaining := 4\<rparr>"
  let ?c = "shadowFocus_buff\<lparr>remaining := 4, tickProgress := Some (1 / 2)\<rparr>"
  have b: "tickInterval ?b = Some 1" "effect_id ?b = ''shadowFocus''" "progress_of ?b = 0"
    "onTick ?b \<noteq> None" "remaining ?b = 4"
    and c: "tickInterval ?c = Some 1" "effect_id ?c = ''shadowFocus''" "progress_of ?c = 1 / 2"
    "onTick ?c \<noteq> None"
    and tick: "onTick shadowFocus_buff = Some (RefillEnergy 10)"
    by (simp_all add: shadowFocus_buff_def new_effect_def progress_of_def)
  have s: "ticks_fired ''shadowFocus'' focus_sim = 0"
    by code_simp
  have one: "(1 :: real) \<noteq> 0"
    by simp
  show ?thesis
    using tick_effect_fires_at_most_once [OF b(1) one, of Buffs "7 / 2" "''shadowFocus''" focus_sim]
      tick_effect_fires_at_most_once [OF c(1) one, of Buffs "1 / 2" "''shadowFocus''" focus_sim]
    by (simp add: b c s tick)
qed

section \<open>Scenario A: one cast at full energy\<close>

lemma proc_ids [simp]:
  "proc_id energySurge = ''energySurge''" "proc_id flurryStrike = ''flurryStrike''"
  "proc_id overpoweringStrikes = ''overpoweringStrikes''"
  "proc_id criticalInsight = ''criticalInsight''" "proc_id shadowRecovery = ''shadowRecovery''"
  "onTrigger energySurge = energySurge_onTrigger" "onTrigger flurryStrike = flurryStrike_onTrigger"
  "onTrigger overpoweringStrikes = overpoweringStrikes_onTrigger"
  "onTrigger criticalInsight = criticalInsight_onTrigger"
  "onTrigger shadowRecovery = shadowRecovery_onTrigger"
  by (simp_all add: energySurge_def flurryStrike_def overpoweringStrikes_def criticalInsight_def
      shadowRecovery_def)

lemma energySurge_step_energy:
  "energy (handleEvent_def ev ctx energySurge s) = energy s
   \<or> energy (handleEvent_def ev ctx energySurge s)
       = min (maxEnergy s) (energy s + proc_gain s ''energySurge'')"
  by (simp add: handleEvent_def_def Let_def split_def proc_gain_def energySurge_onTrigger_def
      split: option.split)

lemma shadowRecovery_step_energy:
  "energy (handleEvent_def ev ctx shadowRecovery s) = energy s
   \<or> energy (handleEvent_def ev ctx shadowRecovery s)
       = min (maxEnergy s) (energy s + proc_gain s ''shadowRecovery'')"
  by (simp add: handleEvent_def_def Let_def split_def proc_gain_def shadowRecovery_onTrigger_def
      split: option.split)

lemma buff_step_energy:
  "energy (handleEvent_def ev ctx flurryStrike s) = energy s"
  "energy (handleEvent_def ev ctx overpoweringStrikes s) = energy s"
  "energy (handleEvent_def ev ctx criticalInsight s) = energy s"
  by (simp_all add: handleEvent_def_def Let_def split_def flurryStrike_onTrigger_def
      overpoweringStrikes_onTrigger_def criticalInsight_onTrigger_def split: option.split)

lemma proc_gain_frame: "config s' = config s \<Longrightarrow> proc_gain s' pid = proc_gain s pid"
  by (simp add: proc_gain_def)

lemma handleEvent_energy: "energy (handleEvent ev ctx s) \<in> energy_outcomes s"
proof -
  define s1 where "s1 = handleEvent_def ev ctx energySurge s"
  define s4 where "s4 = handleEvent_def ev ctx criticalInsight
    (handleEvent_def ev ctx overpoweringStrikes (handleEvent_def ev ctx flurryStrike s1))"
  have in_defs: "energySurge \<in> set PROC_DEFINITIONS" "flurryStrike \<in> set PROC_DEFINITIONS"
    "overpoweringStrikes \<in> set PROC_DEFINITIONS" "criticalInsight \<in> set PROC_DEFINITIONS"
    by (simp_all add: PROC_DEFINITIONS_def)
  have run: "handleEvent ev ctx s = handleEvent_def ev ctx shadowRecovery s4"
    by (simp add: handleEvent_def PROC_DEFINITIONS_def s4_def s1_def)
  have s1: "config s1 = config s" "maxEnergy s1 = maxEnergy s"
    by (simp_all add: s1_def handleEvent_def_sel in_defs)
  have s4: "config s4 = config s" "maxEnergy s4 = maxEnergy s" "energy s4 = energy s1"
    by (simp_all add: s4_def handleEvent_def_sel in_defs s1 buff_step_energy)
  have first: "energy s1 = energy s \<or> energy s1 = min (maxEnergy s) (energy s + proc_gain s ''energySurge'')"
    unfolding s1_def by (rule energySurge_step_energy)
  have last: "energy (handleEvent ev ctx s) = energy s1
      \<or> energy (handleEvent ev ctx s) = min (maxEnergy s) (energy s1 + proc_gain s ''shadowRecovery'')"
    using shadowRecovery_step_energy [of ev ctx s4]
    by (simp add: run s4 proc_gain_frame [OF s4(1)])
  show ?thesis
    using first last by (auto simp: energy_outcomes_def)
qed

lemma energy_outcomes_frame:
  "config s' = config s \<Longrightarrow> energy s' = energy s \<Longrightarrow> maxEnergy s' = maxEnergy s \<Longrightarrow>
     energy_outcomes s' = energy_outcomes s"
  by (simp add: energy_outcomes_def proc_gain_def)

lemma applyDamage_energy: "energy (applyDamage amount ctx s) \<in> energy_outcomes s"
proof (cases "js_round amount \<le> 0")
  case True
  then show ?thesis by (simp add: applyDamage_def energy_outcomes_def)
next
  case False
  let ?s2 = "record_damage (js_round amount) ctx (damage_target (js_round amount) s)"
  have "energy_outcomes ?s2 = energy_outcomes s"
    by (rule energy_outcomes_frame) simp_all
  then show ?thesis
    using False handleEvent_energy [of "''damage''" _ ?s2]
    by (simp add: applyDamage_def Let_def)
qed

lemma performYellowDamage_energy:
  "energy (snd (performYellowDamage ab base gen 0 bonus s)) \<in> energy_outcomes s"
proof (cases "fst (rollHit s)")
  case False
  then show ?thesis
    by (simp add: performYellowDamage_def Let_def split_def energy_outcomes_def)
next
  case True
  let ?s2 = "snd (rollCrit (critChance (cfg_stats (config s)) + bonus) (snd (rollHit s)))"
  have "energy_outcomes ?s2 = energy_outcomes s"
    by (rule energy_outcomes_frame) simp_all
  then show ?thesis
    using True applyDamage_energy [of _ _ ?s2]
    by (simp add: performYellowDamage_def Let_def split_def)
qed

lemma js_round_pos: "1 / 2 \<le> x \<Longrightarrow> 0 < js_round x"
  unfolding js_round_def by linarith

lemma applyDamageModifiers_frame:
  "debuffs s' = debuffs s \<Longrightarrow> modifiers s' = modifiers s \<Longrightarrow>
     applyDamageModifiers base crit s' = applyDamageModifiers base crit s"
  by (simp add: applyDamageModifiers_def getDamageMultiplier_def getModifierTotal_def)

lemma applyDamageModifiers_crit:
  "applyDamageModifiers base True s = 2 * applyDamageModifiers base False s"
  by (simp add: applyDamageModifiers_def Let_def split: option.split)

lemma performYellowDamage_hitCount:
  assumes "fst (rollHit s)" and "1 / 2 \<le> applyDamageModifiers base False s"
  shows "hitCount (stats (snd (performYellowDamage ab base gen spent bonus s))) = hitCount (stats s) + 1"
proof -
  define chance where "chance = (if 0 < spent \<and> precisionStrikes (talents (config s))
      then critChance (cfg_stats (config s)) + bonus + 5 else critChance (cfg_stats (config s)) + bonus)"
  define s2 where "s2 = snd (rollCrit chance (snd (rollHit s)))"
  define crit where "crit = fst (rollCrit chance (snd (rollHit s)))"
  define dmg where "dmg = (if 0 < spent \<and> precisionStrikes (talents (config s))
      then applyDamageModifiers base crit s2 * (108 / 100) else applyDamageModifiers base crit s2)"
  have same: "applyDamageModifiers base c s2 = applyDamageModifiers base c s" for c
    by (rule applyDamageModifiers_frame) (simp_all add: s2_def)
  have "1 / 2 \<le> applyDamageModifiers base crit s2"
    using assms(2) by (cases crit) (simp_all add: same applyDamageModifiers_crit)
  moreover have "applyDamageModifiers base crit s2 \<le> applyDamageModifiers base crit s2 * (108 / 100)"
    using calculation by simp
  ultimately have "1 / 2 \<le> dmg"
    by (simp add: dmg_def)
  then have pos: "0 < js_round dmg"
    by (rule js_round_pos)
  have "stats (snd (performYellowDamage ab base gen spent bonus s))
      = stats (applyDamage dmg \<lparr>ctx_ability = Some ab, isCrit = crit, isAuto = False, isDot = False\<rparr> s2)"
    using assms(1)
    by (simp add: performYellowDamage_def Let_def split_def dmg_def s2_def crit_def chance_def)
  then show ?thesis
    using applyDamage_stats(2) [OF pos] by (simp add: s2_def)
qed


lemma arena_fields:
  "energy (arena p rnd) = 100" "maxEnergy (arena p rnd) = 100" "inCombat (arena p rnd)"
  "globalCooldown (arena p rnd) = 0" "cooldowns (arena p rnd) = []" "debuffs (arena p rnd) = []"
  "modifiers (arena p rnd) = (\<lambda>ty. [])" "hitCount (stats (arena p rnd)) = 0"
  "cfg_stats (config (arena p rnd))
     = \<lparr>attackPower = 1200, weaponMin = 150, weaponMax = 220, critChance = 25, hitChance = 100\<rparr>"
  "talents (config (arena p rnd))
     = \<lparr>precisionStrikes = False, relentlessStrikes = False, shadowTechniques = False\<rparr>"
  "procs (config (arena p rnd))
     = ProcSystem_updateConfig (case p of Some x \<Rightarrow> x | None \<Rightarrow> getDefaultProcConfig)"
  "random_src (arena p rnd) = rnd"
  by (simp_all add: arena_def startCombat_def new_simulator_def Let_def applyConfigDefaults_def
      getDefaultConfig_def split: option.split)

lemma arena_cast:
  "castAbility ''sinisterStrike'' (arena p rnd)
     = triggerGlobalCooldown (snd (sinisterStrike_handler (spendEnergy 40 (arena p rnd))))"
  by (simp add: castAbility_def initializeAbilities_def new_ability_def canUse_def map_has_def
      execute_def split_def Let_def arena_fields sinisterStrike_handler_def)

lemma default_gains:
  "proc_gain (arena None rnd) ''energySurge'' = 25"
  "proc_gain (arena None rnd) ''shadowRecovery'' = 15"
  "proc_gain (arena (Some no_energy_procs) rnd) ''energySurge'' = 0"
  "proc_gain (arena (Some no_energy_procs) rnd) ''shadowRecovery'' = 0"
proof -
  have "map_of (ProcSystem_updateConfig getDefaultProcConfig) ''energySurge''
      = Some [(''enabled'', JBool True), (''chance'', JNum 20), (''energyGain'', JNum 25)]"
    "map_of (ProcSystem_updateConfig getDefaultProcConfig) ''shadowRecovery''
      = Some [(''enabled'', JBool True), (''chance'', JNum 15), (''energyGain'', JNum 15),
              (''cooldownRatePercent'', JNum 30), (''duration'', JNum 6)]"
    "map_of (ProcSystem_updateConfig no_energy_procs) ''energySurge''
      = Some [(''enabled'', JBool False), (''chance'', JNum 20), (''energyGain'', JNum 25)]"
    "map_of (ProcSystem_updateConfig no_energy_procs) ''shadowRecovery''
      = Some [(''enabled'', JBool False), (''chance'', JNum 15), (''energyGain'', JNum 15),
              (''cooldownRatePercent'', JNum 30), (''duration'', JNum 6)]"
    by code_simp+
  then show "proc_gain (arena None rnd) ''energySurge'' = 25"
    "proc_gain (arena None rnd) ''shadowRecovery'' = 15"
    "proc_gain (arena (Some no_energy_procs) rnd) ''energySurge'' = 0"
    "proc_gain (arena (Some no_energy_procs) rnd) ''shadowRecovery'' = 0"
    by (simp_all add: proc_gain_def arena_fields js_get_def number_or_zero_def)
qed

lemma arena_cast_energy:
  "energy (castAbility ''sinisterStrike'' (arena p rnd))
     \<in> {60, min 100 (60 + proc_gain (arena p rnd) ''energySurge''),
         min 100 (60 + proc_gain (arena p rnd) ''shadowRecovery''),
         min 100 (min 100 (60 + proc_gain (arena p rnd) ''energySurge'')
                  + proc_gain (arena p rnd) ''shadowRecovery'')}"
proof -
  let ?s2 = "snd (rollWeaponDamage (105 / 100) (spendEnergy 40 (arena p rnd)))"
  have "energy ?s2 = 60" "maxEnergy ?s2 = 100" "config ?s2 = config (arena p rnd)"
    by (simp_all add: arena_fields)
  then have "energy_outcomes ?s2
     = {60, min 100 (60 + proc_gain (arena p rnd) ''energySurge''),
         min 100 (60 + proc_gain (arena p rnd) ''shadowRecovery''),
         min 100 (min 100 (60 + proc_gain (arena p rnd) ''energySurge'')
                  + proc_gain (arena p rnd) ''shadowRecovery'')}"
    by (simp add: energy_outcomes_def proc_gain_def)
  then show ?thesis
    using performYellowDamage_energy [of "(''Sinister Strike'', ''sinisterStrike'')" _ 1 0 ?s2]
    by (simp add: arena_cast sinisterStrike_handler_def Let_def split_def)
qed

lemma arena_cast_hitCount:
  assumes "\<forall>n. 0 \<le> rnd n \<and> rnd n < 1"
  shows "hitCount (stats (castAbility ''sinisterStrike'' (arena p rnd))) = 1"
proof -
  let ?s1 = "spendEnergy 40 (arena p rnd)"
  let ?s2 = "snd (rollWeaponDamage (105 / 100) ?s1)"
  let ?base = "fst (rollWeaponDamage (105 / 100) ?s1) + 45 + getAttackPowerContribution (12 / 10) ?s2"
  have "min (weaponMin (cfg_stats (config ?s1))) (weaponMax (cfg_stats (config ?s1))) * (105 / 100)
          \<le> fst (rollWeaponDamage (105 / 100) ?s1)"
    by (rule rollWeaponDamage_range) (simp_all add: assms arena_fields)
  then have weapon: "0 \<le> fst (rollWeaponDamage (105 / 100) ?s1)"
    by (simp add: arena_fields)
  have "applyDamageModifiers ?base False ?s2 = ?base"
    by (simp add: applyDamageModifiers_def Let_def arena_fields getDamageMultiplier_def
        getModifierTotal_def)
  moreover have "1 / 2 \<le> ?base"
    using weapon by (simp add: getAttackPowerContribution_def arena_fields)
  ultimately have dmg: "1 / 2 \<le> applyDamageModifiers ?base False ?s2"
    by simp
  have hit: "fst (rollHit ?s2)"
    using assms by (simp add: rollHit_def Let_def split_def getTalentHitBonus_def arena_fields less_imp_le)
  have "hitCount (stats (snd (performYellowDamage (''Sinister Strike'', ''sinisterStrike'') ?base 1 0 0 ?s2)))
      = hitCount (stats ?s2) + 1"
    using hit dmg by (rule performYellowDamage_hitCount)
  then show ?thesis
    by (simp add: arena_cast sinisterStrike_handler_def Let_def split_def arena_fields)
qed

text \<open>
  Claim C2, as the specification states it, fails for the default proc settings: when Energy
  Surge fires on the hit it restores 25 energy, and the cast that cost 40 leaves 85.
\<close>

theorem cast_energy_counterexample:
  "energy (arena None surge_draws) = 100
   \<and> hitChance (cfg_stats (config (arena None surge_draws))) = 100
   \<and> hitCount (stats (arena None surge_draws)) = 0
   \<and> energy (castAbility ''sinisterStrike'' (arena None surge_draws)) = 85
   \<and> energy (castAbility ''sinisterStrike'' (arena None surge_draws)) \<noteq> 60
   \<and> hitCount (stats (castAbility ''sinisterStrike'' (arena None surge_draws))) = 1"
  by code_simp

text \<open>
  Claim C2, amended. Starting combat with energy 100 and casting Sinister Strike (cost 40)
  with \<open>hitChance = 100\<close> counts exactly one hit for every outcome of the draws, and leaves
  the energy at 60 plus what the energy-restoring procs that fire on the hit give back,
  capped at \<open>maxEnergy\<close>: with the default settings (Energy Surge 25, Shadow Recovery 15) the
  energy is 60, 75, 85 or 100, and it is exactly 60 when these two procs restore nothing,
  as when they are disabled.
\<close>

theorem cast_spends_cost_and_hits_once:
  assumes "\<forall>n. 0 \<le> rnd n \<and> rnd n < 1"
  shows "energy (arena p rnd) = 100 \<and> hitCount (stats (arena p rnd)) = 0
       \<and> hitCount (stats (castAbility ''sinisterStrike'' (arena p rnd))) = 1
       \<and> energy (castAbility ''sinisterStrike'' (arena p rnd))
           \<in> {60, min 100 (60 + proc_gain (arena p rnd) ''energySurge''),
               min 100 (60 + proc_gain (arena p rnd) ''shadowRecovery''),
               min 100 (min 100 (60 + proc_gain (arena p rnd) ''energySurge'')
                        + proc_gain (arena p rnd) ''shadowRecovery'')}
       \<and> energy (castAbility ''sinisterStrike'' (arena None rnd)) \<in> {60, 75, 85, 100}
       \<and> energy (castAbility ''sinisterStrike'' (arena (Some no_energy_procs) rnd)) = 60"
proof -
  have "energy (castAbility ''sinisterStrike'' (arena None rnd)) \<in> {60, 75, 85, 100}"
    using arena_cast_energy [of None rnd] by (auto simp: default_gains)
  moreover have "energy (castAbility ''sinisterStrike'' (arena (Some no_energy_procs) rnd)) = 60"
    using arena_cast_energy [of "Some no_energy_procs" rnd] by (simp add: default_gains)
  ultimately show ?thesis
    using arena_cast_energy [of p rnd] arena_cast_hitCount [OF assms, of p]
    by (simp add: arena_fields)
qed

theorem cast_spends_cost_and_hits_once_witness:
  "hitCount (stats (castAbility ''sinisterStrike'' (arena None surge_draws))) = 1
   \<and> energy (castAbility ''sinisterStrike'' (arena None surge_draws)) \<in> {60, 75, 85, 100}
   \<and> energy (castAbility ''sinisterStrike'' (arena (Some no_energy_procs) surge_draws)) = 60"
proof -
  have draws: "\<forall>n. 0 \<le> surge_draws n \<and> surge_draws n < 1"
    by (simp add: surge_draws_def)
  show ?thesis
    using cast_spends_cost_and_hits_once [OF draws, of None] by simp
qed

section \<open>Cooldown decay\<close>

lemma cooldown_fold_map:
  assumes "distinct (map fst xs)"
  shows "map_of (cooldowns (fold (tick_cooldown d r) xs s)) k
         = (case map_of xs k of
              None \<Rightarrow> map_of (cooldowns s) k
            | Some v \<Rightarrow> if v - d * r \<le> 0 then None else Some (v - d * r))"
  using assms
proof (induction xs arbitrary: s)
  case Nil
  show ?case by simp
next
  case (Cons x xs)
  obtain k0 v0 where x: "x = (k0, v0)" by (cases x)
  have fresh: "map_of xs k0 = None"
    using Cons.prems by (simp add: x map_of_eq_None_iff)
  have rest: "distinct (map fst xs)"
    using Cons.prems by simp
  have step: "map_of (cooldowns (tick_cooldown d r (k0, v0) s)) k'
      = (if k' = k0 then (if v0 - d * r \<le> 0 then None else Some (v0 - d * r))
         else map_of (cooldowns s) k')" for k'
    by (simp add: tick_cooldown_def Let_def)
  show ?case
    using fresh by (simp add: x Cons.IH [OF rest] step split: option.split)
qed

lemma cooldown_fold_distinct:
  assumes "distinct (map fst (cooldowns s))"
  shows "distinct (map fst (cooldowns (fold (tick_cooldown d r) xs s)))"
  using assms
proof (induction xs arbitrary: s)
  case Nil
  then show ?case by simp
next
  case (Cons x xs)
  have "distinct (map fst (cooldowns (tick_cooldown d r x s)))"
    using Cons.prems by (simp add: tick_cooldown_def Let_def distinct_map_set distinct_map_delete)
  then show ?case
    using Cons.IH by simp
qed

lemma updateCooldowns_map:
  assumes "distinct (map fst (cooldowns s))"
  shows "map_of (cooldowns (updateCooldowns d s)) k
         = (case map_of (cooldowns s) k of
              None \<Rightarrow> None
            | Some v \<Rightarrow> if v - d * getCooldownRateMultiplier s \<le> 0 then None
                        else Some (v - d * getCooldownRateMultiplier s))"
  using cooldown_fold_map [OF assms, of d "getCooldownRateMultiplier s" s k]
  by (simp add: updateCooldowns_def Let_def split: option.split)

lemma updateCooldowns_distinct:
  assumes "distinct (map fst (cooldowns s))"
  shows "distinct (map fst (cooldowns (updateCooldowns d s)))"
  using cooldown_fold_distinct [OF assms, of d "getCooldownRateMultiplier s" "cooldowns s"]
  by (simp add: updateCooldowns_def Let_def)

lemma tick_cooldowns_globalCooldown:
  "fold (tick_cooldown d r) xs (s\<lparr>globalCooldown := g\<rparr>)
     = (fold (tick_cooldown d r) xs s)\<lparr>globalCooldown := g\<rparr>"
proof (induction xs arbitrary: s)
  case Nil
  show ?case by simp
next
  case (Cons x xs)
  have "tick_cooldown d r x (s\<lparr>globalCooldown := g\<rparr>) = (tick_cooldown d r x s)\<lparr>globalCooldown := g\<rparr>"
    by (simp add: tick_cooldown_def Let_def)
  then show ?case
    by (simp add: Cons.IH)
qed

lemma updateCooldowns_globalCooldown:
  "updateCooldowns d (s\<lparr>globalCooldown := g\<rparr>) = (updateCooldowns d s)\<lparr>globalCooldown := g\<rparr>"
  by (simp add: updateCooldowns_def Let_def tick_cooldowns_globalCooldown
      getCooldownRateMultiplier_def getModifierTotal_def)

lemma rate_nonneg: "0 \<le> getCooldownRateMultiplier s"
  by (simp add: getCooldownRateMultiplier_def)

text \<open>What one pass does to the cooldowns, in terms of the state before it.\<close>

lemma update_step_returns:
  assumes "0 < regen_tickInterval (cfg_regen (config s))"
  shows "\<exists>s'. update_step step s = Some s'"
proof (cases "inCombat s")
  case False
  then show ?thesis by (simp add: update_step_def Let_def)
next
  case True
  let ?s4 = "updateBuffs step
     ((updateCooldowns step (s\<lparr>globalCooldown := max 0 (globalCooldown s - step)\<rparr>))
        \<lparr>stats := (stats (updateCooldowns step (s\<lparr>globalCooldown := max 0 (globalCooldown s - step)\<rparr>)))
           \<lparr>combatTime := combatTime (stats (updateCooldowns step
               (s\<lparr>globalCooldown := max 0 (globalCooldown s - step)\<rparr>))) + step\<rparr>\<rparr>)"
  have "0 < regen_tickInterval (cfg_regen (config ?s4))"
    using assms by simp
  then obtain s5 where "handleEnergy step ?s4 = Some s5"
    using handleEnergy_returns by blast
  then show ?thesis
    by (simp add: update_step_def Let_def)
qed

lemma update_step_frame:
  assumes "update_step step s = Some s'"
  shows "cooldowns s' = cooldowns (updateCooldowns step s)"
    and "config s' = config s"
    and "globalCooldown s' = max 0 (globalCooldown s - step) \<or> globalCooldown s' = 0"
proof -
  define s2 where "s2 = updateCooldowns step (s\<lparr>globalCooldown := max 0 (globalCooldown s - step)\<rparr>)"
  define s4 where "s4 = updateBuffs step (s2\<lparr>stats := (stats s2)\<lparr>combatTime := combatTime (stats s2) + step\<rparr>\<rparr>)"
  have s2: "cooldowns s2 = cooldowns (updateCooldowns step s)" "config s2 = config s"
    "globalCooldown s2 = max 0 (globalCooldown s - step)"
    by (simp_all add: s2_def updateCooldowns_globalCooldown)
  have run: "update_step step s
      = (if inCombat s2
         then (case handleEnergy step s4 of
                 None \<Rightarrow> None
               | Some s5 \<Rightarrow> Some (updateDpsHistory (handleAutoAttack step s5)))
         else Some s2)"
    by (simp add: update_step_def Let_def s2_def s4_def)
  have "cooldowns s' = cooldowns s2 \<and> config s' = config s2 \<and> gcd_kept s2 s'"
  proof (cases "inCombat s2")
    case False
    then have "s' = s2"
      using assms run by simp
    then show ?thesis
      by simp
  next
    case True
    then obtain s5 where s5: "handleEnergy step s4 = Some s5"
      and s': "s' = updateDpsHistory (handleAutoAttack step s5)"
      using assms run by (auto split: option.splits)
    have k4: "gcd_kept s2 s4"
      using gcd_kept_updateBuffs [of "s2\<lparr>stats := (stats s2)\<lparr>combatTime := combatTime (stats s2) + step\<rparr>\<rparr>" step]
      by (simp add: s4_def gcd_kept_def)
    have k5: "gcd_kept s4 s5"
      by (rule gcd_kept_same) (rule handleEnergy_sel [OF s5])
    have k6: "gcd_kept s5 s'"
      using gcd_kept_handleAutoAttack [of s5 step] by (simp add: s' gcd_kept_def)
    have "gcd_kept s2 s'"
      using k4 k5 k6 by (blast intro: gcd_kept_trans)
    moreover have "cooldowns s' = cooldowns s2" "config s' = config s2"
      by (simp_all add: s' handleEnergy_sel [OF s5] s4_def)
    ultimately show ?thesis
      by simp
  qed
  then show "cooldowns s' = cooldowns (updateCooldowns step s)" "config s' = config s"
    "globalCooldown s' = max 0 (globalCooldown s - step) \<or> globalCooldown s' = 0"
    by (simp_all add: s2 gcd_kept_def)
qed

lemma update_step_cooldowns:
  assumes "cooldowns_ok s" and "0 \<le> step" and "update_step step s = Some s'"
  shows "cooldowns_ok s'" and "cooldowns_le s s'"
proof -
  note frame = update_step_frame [OF assms(3)]
  have d: "distinct (map fst (cooldowns s))"
    and pos: "\<And>k v. map_of (cooldowns s) k = Some v \<Longrightarrow> 0 < v"
    and g: "0 \<le> globalCooldown s"
    using assms(1) by (auto simp: cooldowns_ok_def)
  have c: "0 \<le> step * getCooldownRateMultiplier s"
    using assms(2) rate_nonneg by simp
  have entry: "map_of (cooldowns s') k = Some v' \<Longrightarrow>
      \<exists>v. map_of (cooldowns s) k = Some v \<and> v' \<le> v \<and> 0 < v'" for k v'
    using c by (auto simp: frame(1) updateCooldowns_map [OF d] split: option.splits if_splits)
  show "cooldowns_ok s'"
    using entry frame(3) g assms(2)
    by (auto simp: cooldowns_ok_def frame(1) updateCooldowns_distinct [OF d])
  show "cooldowns_le s s'"
    using entry frame(3) g assms(2) by (fastforce simp: cooldowns_le_def)
qed

lemma cooldowns_le_refl: "cooldowns_le s s"
  by (simp add: cooldowns_le_def)

lemma cooldowns_le_trans: "cooldowns_le s s' \<Longrightarrow> cooldowns_le s' s'' \<Longrightarrow> cooldowns_le s s''"
  unfolding cooldowns_le_def by (meson order_trans)

lemma update_loop_cooldowns:
  "cooldowns_ok s \<Longrightarrow> 0 < regen_tickInterval (cfg_regen (config s)) \<Longrightarrow>
     \<exists>s'. update_loop rem s = Some s' \<and> cooldowns_ok s' \<and> cooldowns_le s s' \<and> config s' = config s"
proof (induction rem s rule: update_loop.induct)
  case (1 rem s)
  show ?case
  proof (cases "0 < rem")
    case False
    then show ?thesis
      using "1.prems" by (subst update_loop.simps) (simp add: cooldowns_le_refl)
  next
    case True
    obtain s1 where s1: "update_step (min rem (1 / 2)) s = Some s1"
      using update_step_returns [OF "1.prems"(2)] by blast
    have step: "0 \<le> min rem (1 / 2)"
      using True by simp
    have ok1: "cooldowns_ok s1" and le1: "cooldowns_le s s1"
      using update_step_cooldowns [OF "1.prems"(1) step s1] by simp_all
    have cfg1: "config s1 = config s"
      by (rule update_step_frame(2) [OF s1])
    obtain s' where s': "update_loop (rem - min rem (1 / 2)) s1 = Some s'"
      "cooldowns_ok s'" "cooldowns_le s1 s'" "config s' = config s1"
      using "1.IH" [OF True s1 ok1] "1.prems"(2) cfg1 by auto
    have "update_loop rem s = Some s'"
      using True s1 s'(1) by (subst update_loop.simps) simp
    then show ?thesis
      using s' cfg1 cooldowns_le_trans [OF le1 s'(3)] by simp
  qed
qed

lemma advances_cooldowns:
  "cooldowns_ok s \<Longrightarrow> 0 < regen_tickInterval (cfg_regen (config s)) \<Longrightarrow>
     \<exists>s'. advances ds s = Some s' \<and> cooldowns_ok s' \<and> cooldowns_le s s' \<and> config s' = config s"
proof (induction ds arbitrary: s)
  case Nil
  then show ?case by (simp add: cooldowns_le_refl)
next
  case (Cons d ds)
  obtain s1 where s1: "update d s = Some s1" "cooldowns_ok s1" "cooldowns_le s s1" "config s1 = config s"
    using update_loop_cooldowns [OF Cons.prems, of "max d 0"] by (auto simp: update_def)
  obtain s' where s': "advances ds s1 = Some s'" "cooldowns_ok s'" "cooldowns_le s1 s'"
    "config s' = config s1"
    using Cons.IH [OF s1(2)] Cons.prems(2) s1(4) by auto
  show ?case
    using s1 s' cooldowns_le_trans [OF s1(3) s'(3)] by simp
qed

lemma update_short:
  assumes "0 < d" and "d \<le> 1 / 2"
  shows "update d s = update_step d s"
proof -
  have "min d (1 / 2) = d" "max d 0 = d"
    using assms by simp_all
  then show ?thesis
    using assms(1)
    by (simp add: update_def update_loop.simps [of d] update_loop.simps [of 0] split: option.split)
qed


text \<open>
  Claim C6. Over every sequence of \<open>update\<close> calls with deltas of at most 0.5 and no cast in
  between, started with a well-formed cooldown state and a positive energy tick interval
  (so that every call returns): the calls return, no ability cooldown and not the global
  cooldown has grown, no cooldown entry has appeared, every entry left is positive, and the
  global cooldown is not negative. One call with \<open>0 < d \<le> 0.5\<close> takes \<open>d\<close> times the cooldown
  rate from every entry and removes the entries that reach 0 or less; the global cooldown
  becomes \<open>max 0 (globalCooldown - d)\<close>, or 0 when combat ended during the call. A call
  with \<open>d \<le> 0\<close> changes nothing.
\<close>

theorem cooldowns_never_grow:
  assumes "cooldowns_ok s" and "0 < regen_tickInterval (cfg_regen (config s))"
    and "\<forall>d \<in> set ds. d \<le> 1 / 2"
  shows "(\<exists>s'. advances ds s = Some s' \<and> cooldowns_ok s' \<and> cooldowns_le s s')
       \<and> (0 < d \<and> d \<le> 1 / 2 \<longrightarrow>
            (\<exists>s'. update d s = Some s'
               \<and> (globalCooldown s' = max 0 (globalCooldown s - d) \<or> globalCooldown s' = 0)
               \<and> (\<forall>k. map_of (cooldowns s') k
                      = (case map_of (cooldowns s) k of
                           None \<Rightarrow> None
                         | Some v \<Rightarrow> if v - d * getCooldownRateMultiplier s \<le> 0 then None
                                     else Some (v - d * getCooldownRateMultiplier s)))))
       \<and> (d \<le> 0 \<longrightarrow> update d s = Some s)"
proof (intro conjI impI)
  show "\<exists>s'. advances ds s = Some s' \<and> cooldowns_ok s' \<and> cooldowns_le s s'"
    using advances_cooldowns [OF assms(1,2), of ds] by blast
next
  assume d: "0 < d \<and> d \<le> 1 / 2"
  obtain s' where s': "update_step d s = Some s'"
    using update_step_returns [OF assms(2)] by blast
  have distinct: "distinct (map fst (cooldowns s))"
    using assms(1) by (simp add: cooldowns_ok_def)
  have "update d s = Some s'"
    using d s' by (simp add: update_short)
  then show "\<exists>s'. update d s = Some s'
               \<and> (globalCooldown s' = max 0 (globalCooldown s - d) \<or> globalCooldown s' = 0)
               \<and> (\<forall>k. map_of (cooldowns s') k
                      = (case map_of (cooldowns s) k of
                           None \<Rightarrow> None
                         | Some v \<Rightarrow> if v - d * getCooldownRateMultiplier s \<le> 0 then None
                                     else Some (v - d * getCooldownRateMultiplier s)))"
    using update_step_frame(1,3) [OF s'] by (simp add: updateCooldowns_map [OF distinct])
next
  assume "d \<le> 0"
  then show "update d s = Some s"
    by (simp add: update_def max_def update_loop.simps [of 0])
qed

theorem cooldowns_never_grow_witness:
  "globalCooldown cooling_sim = 1 \<and> map_of (cooldowns cooling_sim) ''shadowFocus'' = Some (3 / 10)
   \<and> globalCooldown (the (update (1 / 2) cooling_sim)) = 1 / 2
   \<and> map_of (cooldowns (the (update (1 / 2) cooling_sim))) ''shadowFocus'' = None
   \<and> globalCooldown (the (advances [1 / 2, 1 / 4] cooling_sim)) = 1 / 4
   \<and> globalCooldown (the (advances [1 / 2, 1 / 4, 1 / 2] cooling_sim)) = 0"
proof -
  have ok: "cooldowns_ok cooling_sim"
    by (simp add: cooldowns_ok_def cooling_sim_def)
  have interval: "0 < regen_tickInterval (cfg_regen (config cooling_sim))"
    by code_simp
  have short: "\<forall>d \<in> set [1 / 2, 1 / 4]. d \<le> (1 / 2 :: real)"
    by simp
  have before: "globalCooldown cooling_sim = 1"
    "map_of (cooldowns cooling_sim) ''shadowFocus'' = Some (3 / 10)"
    "getCooldownRateMultiplier cooling_sim = 1"
    by (simp_all add: cooling_sim_def getCooldownRateMultiplier_def getModifierTotal_def
        startCombat_def fresh_sim_fields Let_def split: option.split)
  obtain s' where s': "update (1 / 2) cooling_sim = Some s'"
    "globalCooldown s' = max 0 (globalCooldown cooling_sim - 1 / 2) \<or> globalCooldown s' = 0"
    "\<forall>k. map_of (cooldowns s') k
          = (case map_of (cooldowns cooling_sim) k of
               None \<Rightarrow> None
             | Some v \<Rightarrow> if v - 1 / 2 * getCooldownRateMultiplier cooling_sim \<le> 0 then None
                         else Some (v - 1 / 2 * getCooldownRateMultiplier cooling_sim))"
    using cooldowns_never_grow [OF ok interval short, of "1 / 2"] by auto
  have gone: "map_of (cooldowns (the (update (1 / 2) cooling_sim))) ''shadowFocus'' = None"
    using s'(3) by (simp add: s'(1) before)
  have decayed: "globalCooldown (the (update (1 / 2) cooling_sim)) = 1 / 2"
    "globalCooldown (the (advances [1 / 2, 1 / 4] cooling_sim)) = 1 / 4"
    "globalCooldown (the (advances [1 / 2, 1 / 4, 1 / 2] cooling_sim)) = 0"
    by code_simp+
  show ?thesis
    using before(1,2) gone decayed by simp
qed

section \<open>Energy and combo points stay in range\<close>

lemma resources_ok_same:
  assumes "energy s' = energy s" and "maxEnergy s' = maxEnergy s"
    and "comboPoints s' = comboPoints s" and "maxComboPoints s' = maxComboPoints s"
  shows "resources_ok s' = resources_ok s"
  by (simp add: resources_ok_def assms)

lemma ticks_ok_same:
  assumes "buffs s' = buffs s" and "debuffs s' = debuffs s"
  shows "ticks_ok s' = ticks_ok s"
  by (simp add: ticks_ok_def assms)

lemma resources_ok_primitives:
  assumes "resources_ok s" and "0 \<le> a"
  shows "resources_ok (spendEnergy a s)" "resources_ok (refundEnergy a s)"
    "resources_ok (refillEnergy a s)" "resources_ok (addComboPoints a s)"
    "resources_ok (consumeComboPoints a s)"
  using assms by (simp_all add: resources_ok_def)

lemma proc_gain_nonneg: "0 \<le> proc_gain s pid"
  by (simp add: proc_gain_def split: option.split)

lemma energy_outcomes_in_range:
  assumes "0 \<le> energy s" and "energy s \<le> maxEnergy s" and "x \<in> energy_outcomes s"
  shows "0 \<le> x \<and> x \<le> maxEnergy s"
  using assms proc_gain_nonneg [of s "''energySurge''"] proc_gain_nonneg [of s "''shadowRecovery''"]
  by (auto simp: energy_outcomes_def min_def)

lemma resources_ok_handleEvent: "resources_ok s \<Longrightarrow> resources_ok (handleEvent ev ctx s)"
  using energy_outcomes_in_range [OF _ _ handleEvent_energy [of ev ctx s]]
  by (simp add: resources_ok_def)

lemma resources_ok_applyDamage: "resources_ok s \<Longrightarrow> resources_ok (applyDamage amount ctx s)"
  using energy_outcomes_in_range [OF _ _ applyDamage_energy [of amount ctx s]]
  by (simp add: resources_ok_def)

lemma resources_ok_onComboPointsSpent:
  "resources_ok s \<Longrightarrow> resources_ok (onComboPointsSpent nm a s)"
  by (simp add: onComboPointsSpent_def Let_def resources_ok_def)

lemma resources_ok_rolls:
  "resources_ok (snd (rollHit s)) = resources_ok s"
  "resources_ok (snd (rollCrit c s)) = resources_ok s"
  "resources_ok (snd (rollWeaponDamage m s)) = resources_ok s"
  "resources_ok (snd (Math_random s)) = resources_ok s"
  "resources_ok (addLogEntry msg ty s) = resources_ok s"
  "resources_ok (showFloatingText msg ty s) = resources_ok s"
  "resources_ok (applyBuff b s) = resources_ok s"
  "resources_ok (applyDebuff b s) = resources_ok s"
  "resources_ok (call_onExpire b s) = resources_ok s"
  "resources_ok (triggerGlobalCooldown s) = resources_ok s"
  "resources_ok (setCooldown k d s) = resources_ok s"
  "resources_ok (updateCooldowns d s) = resources_ok s"
  "resources_ok (updateDpsHistory s) = resources_ok s"
  "resources_ok (set_effects em es s) = resources_ok s"
  by (rule resources_ok_same; simp)+

lemma resources_ok_performYellowDamage:
  assumes "resources_ok s" and "0 \<le> gen" and "0 \<le> spent"
  shows "resources_ok (snd (performYellowDamage ab base gen spent bonus s))"
proof (cases "fst (rollHit s)")
  case False
  then show ?thesis
    using assms(1) by (simp add: performYellowDamage_def Let_def split_def resources_ok_rolls)
next
  case True
  have start: "resources_ok (snd (rollCrit c (snd (rollHit s))))" for c
    using assms(1) by (simp add: resources_ok_rolls)
  have hit: "resources_ok (applyDamage amount ctx (snd (rollCrit c (snd (rollHit s)))))" for amount ctx c
    by (rule resources_ok_applyDamage [OF start])
  show ?thesis
    using True assms(2,3) hit
    by (simp add: performYellowDamage_def Let_def split_def resources_ok_primitives
        resources_ok_onComboPointsSpent)
qed

lemma resources_ok_performWhiteDamage:
  assumes "resources_ok s"
  shows "resources_ok (performWhiteDamage base s)"
proof (cases "fst (rollHit s)")
  case False
  then show ?thesis
    using assms by (simp add: performWhiteDamage_def Let_def split_def resources_ok_rolls)
next
  case True
  have start: "resources_ok (snd (rollCrit c (snd (rollHit s))))" for c
    using assms by (simp add: resources_ok_rolls)
  have hit: "resources_ok (applyDamage amount ctx (snd (rollCrit c (snd (rollHit s)))))" for amount ctx c
    by (rule resources_ok_applyDamage [OF start])
  show ?thesis
    using True hit
    by (simp add: performWhiteDamage_def Let_def split_def resources_ok_primitives resources_ok_rolls)
qed

lemma resources_ok_handler:
  assumes "a \<in> set initializeAbilities" and "resources_ok s"
  shows "resources_ok (snd (handler a s))"
proof -
  have combo: "0 \<le> comboPoints s"
    using assms(2) by (simp add: resources_ok_def)
  have yellow: "resources_ok (snd (performYellowDamage ab base gen spent bonus s'))"
    if "resources_ok s'" "0 \<le> gen" "0 \<le> spent" for ab base gen spent bonus s'
    using that by (rule resources_ok_performYellowDamage)
  consider "handler a = sinisterStrike_handler" | "handler a = backstab_handler"
    | "handler a = eviscerate_handler" | "handler a = sliceAndDice_handler"
    | "handler a = rupture_handler" | "handler a = hemorrhage_handler"
    | "handler a = envenom_handler" | "handler a = exposeArmor_handler"
    | "handler a = adrenalineRush_handler" | "handler a = shadowFocus_handler"
    | "handler a = bladeFlurry_handler"
    using assms(1) by (auto simp: initializeAbilities_def new_ability_def)
  then show ?thesis
  proof cases
    case 1
    then show ?thesis
      using assms(2) by (simp add: sinisterStrike_handler_def Let_def split_def yellow resources_ok_rolls)
  next
    case 2
    then show ?thesis
      using assms(2) by (simp add: backstab_handler_def Let_def split_def yellow resources_ok_rolls)
  next
    case 3
    then show ?thesis
      using assms(2) combo
      by (simp add: eviscerate_handler_def Let_def split_def yellow resources_ok_rolls)
  next
    case 4
    then show ?thesis
      using assms(2) combo
      by (simp add: sliceAndDice_handler_def Let_def resources_ok_rolls resources_ok_primitives
          resources_ok_onComboPointsSpent)
  next
    case 5
    then show ?thesis
      using assms(2) combo
      by (simp add: rupture_handler_def Let_def resources_ok_rolls resources_ok_primitives
          resources_ok_onComboPointsSpent)
  next
    case 6
    then show ?thesis
      using assms(2)
      by (simp add: hemorrhage_handler_def Let_def split_def yellow resources_ok_rolls)
  next
    case 7
    then show ?thesis
      using assms(2) combo
      by (simp add: envenom_handler_def Let_def split_def yellow resources_ok_rolls)
  next
    case 8
    then show ?thesis
      using assms(2) combo
      by (simp add: exposeArmor_handler_def Let_def resources_ok_rolls resources_ok_primitives
          resources_ok_onComboPointsSpent)
  next
    case 9
    then show ?thesis
      using assms(2) by (simp add: adrenalineRush_handler_def Let_def resources_ok_rolls)
  next
    case 10
    then show ?thesis
      using assms(2) by (simp add: shadowFocus_handler_def Let_def resources_ok_rolls)
  next
    case 11
    then show ?thesis
      using assms(2) by (simp add: bladeFlurry_handler_def Let_def resources_ok_rolls)
  qed
qed

lemma ability_cost_nonneg: "a \<in> set initializeAbilities \<Longrightarrow> 0 \<le> energyCost a"
  by (auto simp: initializeAbilities_def new_ability_def)

lemma resources_ok_execute:
  assumes "a \<in> set initializeAbilities" and "resources_ok s"
  shows "resources_ok (execute a s)"
proof -
  have "resources_ok (snd (handler a (spendEnergy (energyCost a) s)))"
    using assms ability_cost_nonneg [OF assms(1)]
    by (intro resources_ok_handler resources_ok_primitives) simp_all
  then show ?thesis
    using ability_cost_nonneg [OF assms(1)]
    by (simp add: execute_def Let_def split_def resources_ok_primitives resources_ok_rolls)
qed

lemma resources_ok_startCombat: "resources_ok s \<Longrightarrow> resources_ok (startCombat s)"
  by (simp add: startCombat_def Let_def resources_ok_def split: option.split)

lemma find_ability:
  "find (\<lambda>spell. ability_id spell = k) initializeAbilities = Some a \<Longrightarrow> a \<in> set initializeAbilities"
  by (metis find_Some_iff nth_mem)

lemma resources_ok_castAbility:
  assumes "resources_ok s"
  shows "resources_ok (castAbility k s)"
proof (cases "find (\<lambda>spell. ability_id spell = k) initializeAbilities")
  case None
  then show ?thesis using assms by (simp add: castAbility_def)
next
  case (Some a)
  let ?s1 = "if \<not> inCombat s then startCombat s else s"
  have "resources_ok ?s1"
    using assms by (simp add: resources_ok_startCombat)
  then have "resources_ok (snd (canUse a ?s1))"
    by (simp add: resources_ok_same [of "snd (canUse a ?s1)" ?s1])
  then show ?thesis
    using Some resources_ok_execute [OF find_ability [OF Some]]
    by (simp add: castAbility_def Let_def split_def)
qed

lemma resources_ok_updateConfig:
  assumes "resources_ok s" and "\<forall>r. pc_regen pc = Some r \<longrightarrow> 0 \<le> regen_maxEnergy r"
  shows "resources_ok (updateConfig pc s)"
  using assms
  by (auto simp: updateConfig_def Let_def resources_ok_def applyConfigDefaults_def
      getDefaultConfig_def split: option.split)

lemma list_all_map_set: "list_all P m \<Longrightarrow> P (k, v) \<Longrightarrow> list_all P (map_set k v m)"
  by (induction m) auto

lemma list_all_map_delete: "list_all P m \<Longrightarrow> list_all P (map_delete k m)"
  by (induction m) auto

lemma refill_nonneg_update [simp]:
  "refill_nonneg (e\<lparr>remaining := x\<rparr>) = refill_nonneg e"
  "refill_nonneg (e\<lparr>tickProgress := y\<rparr>) = refill_nonneg e"
  "refill_nonneg (e\<lparr>onApply := z\<rparr>) = refill_nonneg e"
  "refill_nonneg (e\<lparr>onExpire := z\<rparr>) = refill_nonneg e"
  "refill_nonneg (e\<lparr>armorReduction := w\<rparr>) = refill_nonneg e"
  "refill_nonneg (e\<lparr>tickInterval := w\<rparr>) = refill_nonneg e"
  "refill_nonneg (new_effect k nm d)"
  by (simp_all add: refill_nonneg_def new_effect_def)

lemma ticks_ok_frame [simp]:
  "ticks_ok (addLogEntry msg ty s) = ticks_ok s"
  "ticks_ok (showFloatingText msg ty s) = ticks_ok s"
  "ticks_ok (snd (Math_random s)) = ticks_ok s"
  "ticks_ok (refillEnergy a s) = ticks_ok s"
  "ticks_ok (spendEnergy a s) = ticks_ok s"
  "ticks_ok (refundEnergy a s) = ticks_ok s"
  "ticks_ok (addComboPoints a s) = ticks_ok s"
  "ticks_ok (consumeComboPoints a s) = ticks_ok s"
  "ticks_ok (call_onApply e s) = ticks_ok s"
  "ticks_ok (call_onExpire e s) = ticks_ok s"
  "ticks_ok (damage_target dmg s) = ticks_ok s"
  "ticks_ok (record_damage dmg ctx s) = ticks_ok s"
  "ticks_ok (snd (rollHit s)) = ticks_ok s"
  "ticks_ok (snd (rollCrit c s)) = ticks_ok s"
  "ticks_ok (snd (rollWeaponDamage m s)) = ticks_ok s"
  "ticks_ok (onComboPointsSpent nm a s) = ticks_ok s"
  "ticks_ok (triggerGlobalCooldown s) = ticks_ok s"
  "ticks_ok (setCooldown k d s) = ticks_ok s"
  "ticks_ok (snd (canUse ab s)) = ticks_ok s"
  "ticks_ok (updateCooldowns d s) = ticks_ok s"
  "ticks_ok (updateDpsHistory s) = ticks_ok s"
  "ticks_ok (energy_loop ti gain s) = ticks_ok s"
  by (rule ticks_ok_same; simp)+


lemma ticks_ok_update [simp]:
  "ticks_ok (s\<lparr>inCombat := x0\<rparr>) = ticks_ok s"
  "ticks_ok (s\<lparr>energy := x1\<rparr>) = ticks_ok s"
  "ticks_ok (s\<lparr>maxEnergy := x2\<rparr>) = ticks_ok s"
  "ticks_ok (s\<lparr>comboPoints := x3\<rparr>) = ticks_ok s"
  "ticks_ok (s\<lparr>maxComboPoints := x4\<rparr>) = ticks_ok s"
  "ticks_ok (s\<lparr>globalCooldown := x5\<rparr>) = ticks_ok s"
  "ticks_ok (s\<lparr>dummyMaxHealth := x6\<rparr>) = ticks_ok s"
  "ticks_ok (s\<lparr>dummyHealth := x7\<rparr>) = ticks_ok s"
  "ticks_ok (s\<lparr>autoAttackTimer := x8\<rparr>) = ticks_ok s"
  "ticks_ok (s\<lparr>baseAutoSpeed := x9\<rparr>) = ticks_ok s"
  "ticks_ok (s\<lparr>energyTickProgress := x10\<rparr>) = ticks_ok s"
  "ticks_ok (s\<lparr>modifiers := x11\<rparr>) = ticks_ok s"
  "ticks_ok (s\<lparr>cooldowns := x12\<rparr>) = ticks_ok s"
  "ticks_ok (s\<lparr>stats := x13\<rparr>) = ticks_ok s"
  "ticks_ok (s\<lparr>config := x14\<rparr>) = ticks_ok s"
  "ticks_ok (s\<lparr>externalTarget := x15\<rparr>) = ticks_ok s"
  "ticks_ok (s\<lparr>sessionHistory := x16\<rparr>) = ticks_ok s"
  "ticks_ok (s\<lparr>currentSession := x17\<rparr>) = ticks_ok s"
  "ticks_ok (s\<lparr>previousSession := x18\<rparr>) = ticks_ok s"
  "ticks_ok (s\<lparr>ui := x19\<rparr>) = ticks_ok s"
  "ticks_ok (s\<lparr>trace := x20\<rparr>) = ticks_ok s"
  "ticks_ok (s\<lparr>random_src := x21\<rparr>) = ticks_ok s"
  "ticks_ok (s\<lparr>random_pos := x22\<rparr>) = ticks_ok s"
  by (simp_all add: ticks_ok_def)

lemma applyBuff_buffs:
  "buffs (applyBuff b s) = map_set (effect_id b) (b\<lparr>remaining := duration b\<rparr>) (buffs s)"
  by (simp add: applyBuff_def Let_def split: option.split)

lemma applyDebuff_debuffs:
  "debuffs (applyDebuff b s) = map_set (effect_id b) (b\<lparr>remaining := duration b\<rparr>) (debuffs s)"
  by (simp add: applyDebuff_def Let_def split: option.split)

lemma ticks_ok_applyBuff: "refill_nonneg b \<Longrightarrow> ticks_ok s \<Longrightarrow> ticks_ok (applyBuff b s)"
  by (simp add: ticks_ok_def applyBuff_buffs list_all_map_set)

lemma ticks_ok_applyDebuff: "refill_nonneg b \<Longrightarrow> ticks_ok s \<Longrightarrow> ticks_ok (applyDebuff b s)"
  by (simp add: ticks_ok_def applyDebuff_debuffs list_all_map_set)

lemma ticks_ok_clearEffects [simp]: "ticks_ok (clearEffects s)"
  by (simp add: ticks_ok_def)

lemma ticks_ok_energySurge: "ticks_ok s \<Longrightarrow> ticks_ok (snd (energySurge_onTrigger cfg s))"
  by (simp add: energySurge_onTrigger_def Let_def)

lemma ticks_ok_flurryStrike: "ticks_ok s \<Longrightarrow> ticks_ok (snd (flurryStrike_onTrigger cfg s))"
  by (simp add: flurryStrike_onTrigger_def Let_def ticks_ok_applyBuff)

lemma ticks_ok_overpoweringStrikes:
  "ticks_ok s \<Longrightarrow> ticks_ok (snd (overpoweringStrikes_onTrigger cfg s))"
  by (simp add: overpoweringStrikes_onTrigger_def Let_def ticks_ok_applyBuff)

lemma ticks_ok_criticalInsight: "ticks_ok s \<Longrightarrow> ticks_ok (snd (criticalInsight_onTrigger cfg s))"
  by (simp add: criticalInsight_onTrigger_def Let_def ticks_ok_applyBuff)

lemma ticks_ok_shadowRecovery: "ticks_ok s \<Longrightarrow> ticks_ok (snd (shadowRecovery_onTrigger cfg s))"
  by (simp add: shadowRecovery_onTrigger_def Let_def ticks_ok_applyBuff)

lemma ticks_ok_onTrigger:
  assumes "d \<in> set PROC_DEFINITIONS" and "ticks_ok s"
  shows "ticks_ok (snd (onTrigger d cfg s))"
proof -
  consider "onTrigger d = energySurge_onTrigger" | "onTrigger d = flurryStrike_onTrigger"
    | "onTrigger d = overpoweringStrikes_onTrigger" | "onTrigger d = criticalInsight_onTrigger"
    | "onTrigger d = shadowRecovery_onTrigger"
    using assms(1) by (auto simp: PROC_DEFINITIONS_def)
  then show ?thesis
    using assms(2)
    by cases (simp_all add: ticks_ok_energySurge ticks_ok_flurryStrike ticks_ok_overpoweringStrikes
        ticks_ok_criticalInsight ticks_ok_shadowRecovery)
qed

lemma ticks_ok_handleEvent_def:
  assumes "d \<in> set PROC_DEFINITIONS" and "ticks_ok s"
  shows "ticks_ok (handleEvent_def ev ctx d s)"
  using assms(2) ticks_ok_onTrigger [OF assms(1), of "snd (Math_random s)"]
  by (simp add: handleEvent_def_def Let_def split_def split: option.split)

lemma fold_invariant:
  assumes "P s" and "\<And>x s. x \<in> set xs \<Longrightarrow> P s \<Longrightarrow> P (f x s)"
  shows "P (fold f xs s)"
  using assms by (induction xs arbitrary: s) simp_all

lemma ticks_ok_handleEvent: "ticks_ok s \<Longrightarrow> ticks_ok (handleEvent ev ctx s)"
  unfolding handleEvent_def by (rule fold_invariant) (simp_all add: ticks_ok_handleEvent_def)

lemma ticks_ok_stopCombat: "ticks_ok s \<Longrightarrow> ticks_ok (stopCombat s)"
  by (simp add: stopCombat_def Let_def)

lemma ticks_ok_check_defeat: "ticks_ok s \<Longrightarrow> ticks_ok (check_defeat s)"
  by (simp add: check_defeat_def Let_def ticks_ok_stopCombat)

lemma ticks_ok_applyDamage: "ticks_ok s \<Longrightarrow> ticks_ok (applyDamage amount ctx s)"
  by (simp add: applyDamage_def Let_def ticks_ok_check_defeat ticks_ok_handleEvent)

lemma ticks_ok_performYellowDamage:
  "ticks_ok s \<Longrightarrow> ticks_ok (snd (performYellowDamage ab base gen spent bonus s))"
  by (simp add: performYellowDamage_def Let_def split_def ticks_ok_applyDamage)

lemma ticks_ok_performWhiteDamage: "ticks_ok s \<Longrightarrow> ticks_ok (performWhiteDamage base s)"
  by (simp add: performWhiteDamage_def Let_def split_def ticks_ok_applyDamage)

lemma ticks_ok_handler:
  assumes "a \<in> set initializeAbilities" and "ticks_ok s"
  shows "ticks_ok (snd (handler a s))"
proof -
  consider "handler a = sinisterStrike_handler" | "handler a = backstab_handler"
    | "handler a = eviscerate_handler" | "handler a = sliceAndDice_handler"
    | "handler a = rupture_handler" | "handler a = hemorrhage_handler"
    | "handler a = envenom_handler" | "handler a = exposeArmor_handler"
    | "handler a = adrenalineRush_handler" | "handler a = shadowFocus_handler"
    | "handler a = bladeFlurry_handler"
    using assms(1) by (auto simp: initializeAbilities_def new_ability_def)
  then show ?thesis
  proof cases
    case 1
    then show ?thesis
      using assms(2) by (simp add: sinisterStrike_handler_def Let_def split_def ticks_ok_performYellowDamage)
  next
    case 2
    then show ?thesis
      using assms(2) by (simp add: backstab_handler_def Let_def split_def ticks_ok_performYellowDamage)
  next
    case 3
    then show ?thesis
      using assms(2) by (simp add: eviscerate_handler_def Let_def split_def ticks_ok_performYellowDamage)
  next
    case 4
    then show ?thesis
      using assms(2)
      by (simp add: sliceAndDice_handler_def Let_def sliceAndDice_buff_def ticks_ok_applyBuff)
  next
    case 5
    then show ?thesis
      using assms(2)
      by (simp add: rupture_handler_def Let_def ticks_ok_applyDebuff refill_nonneg_def new_effect_def)
  next
    case 6
    then show ?thesis
      using assms(2)
      by (simp add: hemorrhage_handler_def Let_def split_def hemorrhage_debuff_def
          ticks_ok_performYellowDamage ticks_ok_applyDebuff)
  next
    case 7
    then show ?thesis
      using assms(2)
      by (simp add: envenom_handler_def Let_def split_def ticks_ok_performYellowDamage
          ticks_ok_applyBuff)
  next
    case 8
    then show ?thesis
      using assms(2)
      by (simp add: exposeArmor_handler_def Let_def exposeArmor_debuff_def ticks_ok_applyDebuff)
  next
    case 9
    then show ?thesis
      using assms(2) by (simp add: adrenalineRush_handler_def Let_def ticks_ok_applyBuff)
  next
    case 10
    then show ?thesis
      using assms(2)
      by (simp add: shadowFocus_handler_def Let_def shadowFocus_buff_def ticks_ok_applyBuff
          refill_nonneg_def new_effect_def)
  next
    case 11
    then show ?thesis
      using assms(2) by (simp add: bladeFlurry_handler_def Let_def bladeFlurry_buff_def ticks_ok_applyBuff)
  qed
qed

lemma ticks_ok_execute:
  assumes "a \<in> set initializeAbilities" and "ticks_ok s"
  shows "ticks_ok (execute a s)"
  using ticks_ok_handler [OF assms(1), of "spendEnergy (energyCost a) s"] assms(2)
  by (simp add: execute_def Let_def split_def)

lemma ticks_ok_startCombat: "ticks_ok s \<Longrightarrow> ticks_ok (startCombat s)"
  by (simp add: startCombat_def Let_def split: option.split)

lemma ticks_ok_castAbility:
  assumes "ticks_ok s"
  shows "ticks_ok (castAbility k s)"
proof (cases "find (\<lambda>spell. ability_id spell = k) initializeAbilities")
  case None
  then show ?thesis using assms by (simp add: castAbility_def)
next
  case (Some a)
  then show ?thesis
    using assms ticks_ok_execute [OF find_ability [OF Some]]
    by (simp add: castAbility_def Let_def split_def ticks_ok_startCombat)
qed

lemma handler_config:
  assumes "a \<in> set initializeAbilities"
  shows "config (snd (handler a s)) = config s"
  using assms
  by (auto simp: initializeAbilities_def new_ability_def sinisterStrike_handler_def
      backstab_handler_def eviscerate_handler_def sliceAndDice_handler_def rupture_handler_def
      hemorrhage_handler_def envenom_handler_def exposeArmor_handler_def
      adrenalineRush_handler_def shadowFocus_handler_def bladeFlurry_handler_def
      Let_def split_def)

lemma castAbility_config: "config (castAbility k s) = config s"
proof (cases "find (\<lambda>spell. ability_id spell = k) initializeAbilities")
  case None
  then show ?thesis by (simp add: castAbility_def)
next
  case (Some a)
  have "config (startCombat s) = config s"
    by (simp add: startCombat_def Let_def split: option.split)
  then show ?thesis
    using Some handler_config [OF find_ability [OF Some]]
    by (simp add: castAbility_def Let_def split_def execute_def)
qed

text \<open>Ticking effects.\<close>

lemma call_onTick_ok:
  assumes "refill_nonneg e" and "resources_ok s" and "ticks_ok s"
  shows "resources_ok (call_onTick e s)" and "ticks_ok (call_onTick e s)"
proof -
  let ?s = "s\<lparr>trace := trace s @ [OnTick (effect_id e)]\<rparr>"
  have start: "resources_ok ?s" "ticks_ok ?s"
    using assms(2,3) by (simp_all add: resources_ok_def)
  show "resources_ok (call_onTick e s)"
  proof (cases "onTick e")
    case None
    then show ?thesis using assms(2) by (simp add: call_onTick_def)
  next
    case (Some act)
    then show ?thesis
      using assms(1) start(1)
      by (cases act)
        (simp_all add: call_onTick_def refill_nonneg_def resources_ok_primitives
          resources_ok_applyDamage)
  qed
  show "ticks_ok (call_onTick e s)"
  proof (cases "onTick e")
    case None
    then show ?thesis using assms(3) by (simp add: call_onTick_def)
  next
    case (Some act)
    then show ?thesis
      using start(2) by (cases act) (simp_all add: call_onTick_def ticks_ok_applyDamage)
  qed
qed

lemma ticks_ok_set_effects:
  assumes "ticks_ok s" and "list_all (\<lambda>entry. refill_nonneg (snd entry)) es"
  shows "ticks_ok (set_effects m es s)"
  using assms by (cases m) (simp_all add: ticks_ok_def)

lemma ticks_ok_get_effects:
  "ticks_ok s \<Longrightarrow> list_all (\<lambda>entry. refill_nonneg (snd entry)) (get_effects m s)"
  by (cases m) (simp_all add: ticks_ok_def)

lemma get_effects_frame [simp]:
  "get_effects m (call_onExpire e s) = get_effects m s"
  by (cases m) simp_all

lemma tick_effect_ok:
  assumes "refill_nonneg (snd entry)" and "resources_ok s" and "ticks_ok s"
  shows "resources_ok (tick_effect m d entry s) \<and> ticks_ok (tick_effect m d entry s)"
proof -
  define b1 where "b1 = (snd entry)\<lparr>remaining := remaining (snd entry) - d\<rparr>"
  define fires where "fires = (\<exists>ti. tickInterval b1 = Some ti \<and> ti \<noteq> 0 \<and> ti \<le> progress_of b1 + d)"
  define s1 where "s1 = (if fires then call_onTick b1 s else s)"
  have b1: "refill_nonneg b1"
    using assms(1) by (simp add: b1_def)
  have s1: "resources_ok s1" "ticks_ok s1"
    using call_onTick_ok [OF b1 assms(2,3)] assms(2,3) by (simp_all add: s1_def)
  obtain b2 where b2: "refill_nonneg b2"
    and run: "tick_effect m d entry s
      = (if remaining b2 \<le> 0
         then addLogEntry [T (effect_name b2), T '' faded.''] ''system''
                (set_effects m (map_delete (fst entry) (get_effects m (call_onExpire b2 s1)))
                   (call_onExpire b2 s1))
         else set_effects m (map_set (fst entry) b2 (get_effects m s1)) s1)"
  proof (cases "tickInterval b1")
    case None
    then have "tick_effect m d entry s
      = (if remaining b1 \<le> 0
         then addLogEntry [T (effect_name b1), T '' faded.''] ''system''
                (set_effects m (map_delete (fst entry) (get_effects m (call_onExpire b1 s1)))
                   (call_onExpire b1 s1))
         else set_effects m (map_set (fst entry) b1 (get_effects m s1)) s1)"
      by (simp add: tick_effect_def Let_def b1_def [symmetric] s1_def fires_def)
    then show ?thesis using that b1 by blast
  next
    case (Some ti)
    define b2 where "b2 = (if ti \<noteq> 0
        then b1\<lparr>tickProgress := Some (if ti \<le> progress_of b1 + d then progress_of b1 + d - ti
                                       else progress_of b1 + d)\<rparr>
        else b1)"
    have "tick_effect m d entry s
      = (if remaining b2 \<le> 0
         then addLogEntry [T (effect_name b2), T '' faded.''] ''system''
                (set_effects m (map_delete (fst entry) (get_effects m (call_onExpire b2 s1)))
                   (call_onExpire b2 s1))
         else set_effects m (map_set (fst entry) b2 (get_effects m s1)) s1)"
      using Some
      by (simp add: tick_effect_def Let_def b1_def [symmetric] s1_def fires_def b2_def progress_of_def)
    moreover have "refill_nonneg b2"
      using b1 by (simp add: b2_def)
    ultimately show ?thesis using that by blast
  qed
  have res: "resources_ok (tick_effect m d entry s)"
    using s1(1) by (simp add: run resources_ok_rolls)
  have "ticks_ok (set_effects m (map_delete (fst entry) (get_effects m s1)) (call_onExpire b2 s1))"
    by (rule ticks_ok_set_effects)
      (simp_all add: s1(2) list_all_map_delete ticks_ok_get_effects)
  moreover have "ticks_ok (set_effects m (map_set (fst entry) b2 (get_effects m s1)) s1)"
    by (rule ticks_ok_set_effects)
      (simp_all add: s1(2) list_all_map_set ticks_ok_get_effects b2)
  ultimately have "ticks_ok (tick_effect m d entry s)"
    by (simp add: run)
  then show ?thesis
    using res by simp
qed

lemma updateMap_ok:
  assumes "resources_ok s" and "ticks_ok s"
  shows "resources_ok (updateMap m d s) \<and> ticks_ok (updateMap m d s)"
proof -
  have entries: "\<forall>entry \<in> set (get_effects m s). refill_nonneg (snd entry)"
    using ticks_ok_get_effects [OF assms(2), of m] by (simp add: list_all_iff)
  show ?thesis
    unfolding updateMap_def
    by (rule fold_invariant [where P = "\<lambda>s. resources_ok s \<and> ticks_ok s"])
      (simp_all add: assms entries tick_effect_ok)
qed

lemma updateBuffs_ok:
  assumes "resources_ok s" and "ticks_ok s"
  shows "resources_ok (updateBuffs d s) \<and> ticks_ok (updateBuffs d s)"
  using updateMap_ok [of "updateMap Buffs d s" Debuffs d] updateMap_ok [OF assms, of Buffs d]
  by (simp add: updateBuffs_def)

text \<open>Energy regeneration and the auto-attack.\<close>

lemma regen_multiplier_nonneg: "0 \<le> getEnergyRegenMultiplier s"
  by (simp add: getEnergyRegenMultiplier_def)

lemma resources_ok_energy_loop:
  "0 \<le> gain \<Longrightarrow> resources_ok s \<Longrightarrow> resources_ok (energy_loop ti gain s)"
proof (induction ti gain s rule: energy_loop.induct)
  case (1 ti gain s)
  show ?case
  proof (cases "0 < ti \<and> ti \<le> energyTickProgress s")
    case True
    have "resources_ok (s\<lparr>energyTickProgress := energyTickProgress s - ti\<rparr>)"
      using "1.prems"(2) by (simp add: resources_ok_def)
    then have "resources_ok (refillEnergy gain (s\<lparr>energyTickProgress := energyTickProgress s - ti\<rparr>))"
      using "1.prems"(1) by (rule resources_ok_primitives(3))
    then have "resources_ok (energy_loop ti gain
        (refillEnergy gain (s\<lparr>energyTickProgress := energyTickProgress s - ti\<rparr>)))"
      using "1.IH" [OF True "1.prems"(1)] by simp
    then show ?thesis
      using True by (subst energy_loop.simps) simp
  next
    case False
    then show ?thesis
      using "1.prems"(2) by (subst energy_loop.simps) auto
  qed
qed

lemma handleEnergy_ok:
  assumes "resources_ok s" and "ticks_ok s" and "regen_ok s" and "handleEnergy d s = Some s'"
  shows "resources_ok s'" and "ticks_ok s'"
proof -
  let ?gain = "energyPerTick (cfg_regen (config s)) * (1 + talentBonus (cfg_regen (config s)))
      * getEnergyRegenMultiplier s"
  have gain: "0 \<le> ?gain"
    using assms(3) regen_multiplier_nonneg [of s] by (simp add: regen_ok_def)
  have start: "resources_ok (s\<lparr>energyTickProgress := energyTickProgress s + d\<rparr>)"
    using assms(1) by (simp add: resources_ok_def)
  have "s' = energy_loop (regen_tickInterval (cfg_regen (config s))) ?gain
      (s\<lparr>energyTickProgress := energyTickProgress s + d\<rparr>)"
    using assms(4) by (simp add: handleEnergy_def Let_def split: if_splits)
  then show "resources_ok s'"
    using resources_ok_energy_loop [OF gain start] by simp
  show "ticks_ok s'"
    using assms(2) ticks_ok_same [of s' s] handleEnergy_sel(9,10) [OF assms(4)] by simp
qed

lemma handleAutoAttack_ok:
  assumes "resources_ok s" and "ticks_ok s"
  shows "resources_ok (handleAutoAttack d s)" and "ticks_ok (handleAutoAttack d s)"
proof -
  let ?s1 = "s\<lparr>autoAttackTimer := autoAttackTimer s - d\<rparr>"
  have s1: "resources_ok ?s1" "ticks_ok ?s1"
    using assms by (simp_all add: resources_ok_def)
  have roll: "resources_ok (snd (rollWeaponDamage 1 ?s1))" "ticks_ok (snd (rollWeaponDamage 1 ?s1))"
    using s1 by (simp_all add: resources_ok_rolls ticks_ok_same [of "snd (rollWeaponDamage 1 ?s1)" ?s1])
  have auto: "resources_ok (performAutoAttack ?s1)" "ticks_ok (performAutoAttack ?s1)"
    using resources_ok_performWhiteDamage [OF roll(1)] ticks_ok_performWhiteDamage [OF roll(2)]
    by (simp_all add: performAutoAttack_def Let_def split_def)
  have rearm: "resources_ok (t\<lparr>autoAttackTimer := x\<rparr>) = resources_ok t"
    "ticks_ok (t\<lparr>autoAttackTimer := x\<rparr>) = ticks_ok t" for t x
    by (simp_all add: resources_ok_def)
  show "resources_ok (handleAutoAttack d s)"
    using s1(1) auto(1) by (simp add: handleAutoAttack_def Let_def rearm)
  show "ticks_ok (handleAutoAttack d s)"
    using s1(2) auto(2) by (simp add: handleAutoAttack_def Let_def rearm)
qed

lemma updateDpsHistory_ok:
  "resources_ok (updateDpsHistory s) = resources_ok s" "ticks_ok (updateDpsHistory s) = ticks_ok s"
  by (simp_all add: resources_ok_same [of "updateDpsHistory s" s] ticks_ok_same [of "updateDpsHistory s" s])

text \<open>One pass, the loop and \<open>update\<close>.\<close>

lemma update_step_ok:
  assumes "resources_ok s" and "ticks_ok s" and "regen_ok s" and "update_step step s = Some s'"
  shows "resources_ok s'" and "ticks_ok s'" and "regen_ok s'"
proof -
  define s2 where "s2 = updateCooldowns step (s\<lparr>globalCooldown := max 0 (globalCooldown s - step)\<rparr>)"
  define s3 where "s3 = s2\<lparr>stats := (stats s2)\<lparr>combatTime := combatTime (stats s2) + step\<rparr>\<rparr>"
  define s4 where "s4 = updateBuffs step s3"
  have run: "update_step step s
      = (if inCombat s2
         then (case handleEnergy step s4 of
                 None \<Rightarrow> None
               | Some s5 \<Rightarrow> Some (updateDpsHistory (handleAutoAttack step s5)))
         else Some s2)"
    by (simp add: update_step_def Let_def s2_def s3_def s4_def)
  have s1: "resources_ok (s\<lparr>globalCooldown := max 0 (globalCooldown s - step)\<rparr>)"
    "ticks_ok (s\<lparr>globalCooldown := max 0 (globalCooldown s - step)\<rparr>)"
    using assms(1,2) by (simp_all add: resources_ok_def)
  have s2: "resources_ok s2" "ticks_ok s2" "config s2 = config s"
    using s1
    by (simp_all add: s2_def resources_ok_rolls
        ticks_ok_same [of "updateCooldowns step (s\<lparr>globalCooldown := max 0 (globalCooldown s - step)\<rparr>)"
          "s\<lparr>globalCooldown := max 0 (globalCooldown s - step)\<rparr>"])
  have s3: "resources_ok s3" "ticks_ok s3" "config s3 = config s"
    using s2 by (simp_all add: s3_def resources_ok_def)
  have s4: "resources_ok s4" "ticks_ok s4"
    using updateBuffs_ok [OF s3(1,2), of step] by (simp_all add: s4_def)
  have cfg4: "config s4 = config s"
    using s3(3) by (simp add: s4_def)
  have regen4: "regen_ok s4"
    using assms(3) by (simp add: regen_ok_def cfg4)
  have "resources_ok s' \<and> ticks_ok s'"
  proof (cases "inCombat s2")
    case False
    then have "s' = s2"
      using assms(4) run by simp
    then show ?thesis
      using s2 by simp
  next
    case True
    then obtain s5 where s5: "handleEnergy step s4 = Some s5"
      and s': "s' = updateDpsHistory (handleAutoAttack step s5)"
      using assms(4) run by (auto split: option.splits)
    have ok5: "resources_ok s5" "ticks_ok s5"
      using handleEnergy_ok [OF s4 regen4 s5] by simp_all
    show ?thesis
      using handleAutoAttack_ok [OF ok5, of step] by (simp add: s' updateDpsHistory_ok)
  qed
  then show "resources_ok s'" "ticks_ok s'"
    by simp_all
  show "regen_ok s'"
    using assms(3) update_step_frame(2) [OF assms(4)] by (simp add: regen_ok_def)
qed

lemma update_loop_ok:
  "resources_ok s \<Longrightarrow> ticks_ok s \<Longrightarrow> regen_ok s \<Longrightarrow> 0 < regen_tickInterval (cfg_regen (config s)) \<Longrightarrow>
     \<exists>s'. update_loop rem s = Some s' \<and> resources_ok s' \<and> ticks_ok s' \<and> config s' = config s"
proof (induction rem s rule: update_loop.induct)
  case (1 rem s)
  show ?case
  proof (cases "0 < rem")
    case False
    then show ?thesis
      using "1.prems" by (subst update_loop.simps) simp
  next
    case True
    obtain s1 where s1: "update_step (min rem (1 / 2)) s = Some s1"
      using update_step_returns [OF "1.prems"(4)] by blast
    have ok1: "resources_ok s1" "ticks_ok s1" "regen_ok s1"
      using update_step_ok [OF "1.prems"(1,2,3) s1] by simp_all
    have cfg1: "config s1 = config s"
      by (rule update_step_frame(2) [OF s1])
    have ti1: "0 < regen_tickInterval (cfg_regen (config s1))"
      using "1.prems"(4) cfg1 by simp
    obtain s' where s': "update_loop (rem - min rem (1 / 2)) s1 = Some s'"
      "resources_ok s'" "ticks_ok s'" "config s' = config s1"
      using "1.IH" [OF True s1 ok1 ti1] by auto
    have "update_loop rem s = Some s'"
      using True s1 s'(1) by (subst update_loop.simps) simp
    then show ?thesis
      using s' cfg1 by simp
  qed
qed

lemma ticks_ok_updateConfig: "ticks_ok (updateConfig pc s) = ticks_ok s"
  by (simp add: updateConfig_def Let_def ticks_ok_def)


text \<open>The state \<open>engine_ok\<close> is kept by every operation.\<close>

lemma engine_ok_same:
  assumes "resources_ok s' = resources_ok s" and "buffs s' = buffs s" and "debuffs s' = debuffs s"
    and "config s' = config s"
  shows "engine_ok s' = engine_ok s"
  using assms by (simp add: engine_ok_def regen_ok_def ticks_ok_def)

lemma engine_ok_primitives:
  assumes "engine_ok s" and "0 \<le> a"
  shows "engine_ok (spendEnergy a s)" "engine_ok (refundEnergy a s)" "engine_ok (refillEnergy a s)"
    "engine_ok (addComboPoints a s)" "engine_ok (consumeComboPoints a s)"
  using assms resources_ok_primitives [of s a]
  by (simp_all add: engine_ok_def regen_ok_def ticks_ok_def)

lemma engine_ok_update:
  assumes "engine_ok s"
  shows "\<exists>s'. update d s = Some s' \<and> engine_ok s'"
proof -
  obtain s' where s': "update_loop (max d 0) s = Some s'" "resources_ok s'" "ticks_ok s'"
    "config s' = config s"
    using update_loop_ok [of s "max d 0"] assms by (auto simp: engine_ok_def)
  then show ?thesis
    using assms by (simp add: update_def engine_ok_def regen_ok_def)
qed

lemma engine_ok_castAbility:
  assumes "engine_ok s"
  shows "engine_ok (castAbility k s)"
  using assms resources_ok_castAbility [of s k] ticks_ok_castAbility [of s k]
  by (simp add: engine_ok_def regen_ok_def castAbility_config)

lemma regen_default_ok: "regen_input_ok (cfg_regen getDefaultConfig)"
  by (simp add: regen_input_ok_def getDefaultConfig_def)

lemma updateConfig_regen:
  "cfg_regen (config (updateConfig c s))
     = (case pc_regen c of None \<Rightarrow> cfg_regen getDefaultConfig | Some r \<Rightarrow> r)"
  by (simp add: updateConfig_def Let_def applyConfigDefaults_def)

lemma engine_ok_updateConfig:
  assumes "engine_ok s" and "op_ok (Configure c)"
  shows "engine_ok (updateConfig c s)"
proof -
  have r: "regen_input_ok (cfg_regen (config (updateConfig c s)))"
    using assms(2) regen_default_ok by (cases "pc_regen c") (simp_all add: updateConfig_regen)
  have "\<forall>r. pc_regen c = Some r \<longrightarrow> 0 \<le> regen_maxEnergy r"
    using assms(2) by (auto simp: regen_input_ok_def)
  then have "resources_ok (updateConfig c s)"
    using assms(1) resources_ok_updateConfig [of s c] by (simp add: engine_ok_def)
  moreover have "ticks_ok (updateConfig c s)"
    using assms(1) by (simp add: ticks_ok_updateConfig engine_ok_def)
  ultimately show ?thesis
    using r by (simp add: engine_ok_def regen_ok_def regen_input_ok_def)
qed

lemma engine_ok_new_simulator:
  assumes "op_ok (Configure c)"
  shows "engine_ok (new_simulator c rnd)"
proof -
  have "regen_input_ok (case pc_regen c of None \<Rightarrow> cfg_regen getDefaultConfig | Some r \<Rightarrow> r)"
    using assms regen_default_ok by (cases "pc_regen c") simp_all
  then show ?thesis
    by (simp add: engine_ok_def resources_ok_def ticks_ok_def regen_ok_def regen_input_ok_def
        new_simulator_def Let_def applyConfigDefaults_def)
qed

lemma focus_sim_ok: "engine_ok focus_sim"
proof -
  have "resources_ok focus_sim"
    unfolding resources_ok_def by code_simp
  moreover have "ticks_ok focus_sim"
    unfolding ticks_ok_def refill_nonneg_def by code_simp
  moreover have "regen_ok focus_sim"
    unfolding regen_ok_def by code_simp
  moreover have "0 < regen_tickInterval (cfg_regen (config focus_sim))"
    by code_simp
  ultimately show ?thesis
    by (simp add: engine_ok_def)
qed

lemma combat_fresh_ok: "engine_ok (startCombat fresh_sim)"
proof -
  have "resources_ok (startCombat fresh_sim)"
    unfolding resources_ok_def by code_simp
  moreover have "ticks_ok (startCombat fresh_sim)"
    unfolding ticks_ok_def refill_nonneg_def by code_simp
  moreover have "regen_ok (startCombat fresh_sim)"
    unfolding regen_ok_def by code_simp
  moreover have "0 < regen_tickInterval (cfg_regen (config (startCombat fresh_sim)))"
    by code_simp
  ultimately show ?thesis
    by (simp add: engine_ok_def)
qed

text \<open>
  The claim as the specification words it fails: the primitives clamp on one side only
  (\<open>spendEnergy\<close> and \<open>consumeComboPoints\<close> at 0, \<open>refundEnergy\<close>, \<open>refillEnergy\<close> and
  \<open>addComboPoints\<close> at the maximum), and \<open>updateConfig\<close> takes the energy cap and the
  regeneration settings as given. From the state at the start of combat (energy 100 of
  100, combo points 0 of 5) a negative amount, a negative energy cap, or a negative energy
  per tick followed by \<open>update\<close> leaves the range.
\<close>

theorem one_sided_clamp_counterexample:
  "engine_ok (startCombat fresh_sim)
   \<and> energy (spendEnergy (- 50) (startCombat fresh_sim)) = 150
   \<and> maxEnergy (spendEnergy (- 50) (startCombat fresh_sim)) = 100
   \<and> energy (refundEnergy (- 500) (startCombat fresh_sim)) = - 400
   \<and> energy (refillEnergy (- 500) (startCombat fresh_sim)) = - 400
   \<and> comboPoints (addComboPoints (- 4) (startCombat fresh_sim)) = - 4
   \<and> comboPoints (consumeComboPoints (- 9) (startCombat fresh_sim)) = 9
   \<and> maxComboPoints (consumeComboPoints (- 9) (startCombat fresh_sim)) = 5
   \<and> energy (updateConfig negative_cap_input (startCombat fresh_sim)) = - 10
   \<and> map_option energy (update (1 / 2) (updateConfig drain_input (startCombat fresh_sim)))
       = Some (- 100)"
proof (intro conjI)
  show "engine_ok (startCombat fresh_sim)"
    by (rule combat_fresh_ok)
  show "energy (spendEnergy (- 50) (startCombat fresh_sim)) = 150"
    by code_simp
  show "maxEnergy (spendEnergy (- 50) (startCombat fresh_sim)) = 100"
    by code_simp
  show "energy (refundEnergy (- 500) (startCombat fresh_sim)) = - 400"
    by code_simp
  show "energy (refillEnergy (- 500) (startCombat fresh_sim)) = - 400"
    by code_simp
  show "comboPoints (addComboPoints (- 4) (startCombat fresh_sim)) = - 4"
    by code_simp
  show "comboPoints (consumeComboPoints (- 9) (startCombat fresh_sim)) = 9"
    by code_simp
  show "maxComboPoints (consumeComboPoints (- 9) (startCombat fresh_sim)) = 5"
    by code_simp
  show "energy (updateConfig negative_cap_input (startCombat fresh_sim)) = - 10"
    by code_simp
  show "map_option energy (update (1 / 2) (updateConfig drain_input (startCombat fresh_sim)))
       = Some (- 100)"
    by code_simp
qed

text \<open>
  Claim C7, amended. Every mutating engine operation (energy spend, refund and refill,
  combo point add and consume, \<open>update\<close>, \<open>castAbility\<close>, \<open>updateConfig\<close>) returns, and
  after it energy lies in \<open>[0, maxEnergy]\<close> and combo points lie in
  \<open>[0, maxComboPoints]\<close>, when the amount given to a primitive is not negative, a
  regeneration group given to \<open>updateConfig\<close> has a positive tick interval, a non-negative
  energy per tick after the talent bonus and a non-negative energy cap, and the state
  before is one the engine can then be in (\<open>engine_ok\<close>: the resources in range, tick
  refills not negative, the regeneration settings as just said; the constructor
  establishes it, see \<open>engine_ok_new_simulator\<close>). The state after the operation is again
  such a state, so the ranges hold along every sequence of such operations.
\<close>

theorem resources_stay_in_range:
  assumes "engine_ok s" and "op_ok operation"
  shows "\<exists>s'. run_op operation s = Some s' \<and> engine_ok s'
           \<and> 0 \<le> energy s' \<and> energy s' \<le> maxEnergy s'
           \<and> 0 \<le> comboPoints s' \<and> comboPoints s' \<le> maxComboPoints s'"
proof -
  have "\<exists>s'. run_op operation s = Some s' \<and> engine_ok s'"
  proof (cases operation)
    case (Advance d)
    then show ?thesis
      using engine_ok_update [OF assms(1), of d] by simp
  next
    case (Cast k)
    then show ?thesis
      using engine_ok_castAbility [OF assms(1), of k] by simp
  next
    case (Configure c)
    then show ?thesis
      using engine_ok_updateConfig [OF assms(1), of c] assms(2) by simp
  qed (use assms in \<open>simp_all add: engine_ok_primitives\<close>)
  then show ?thesis
    by (auto simp: engine_ok_def resources_ok_def)
qed

theorem resources_stay_in_range_witness:
  "engine_ok focus_sim \<and> op_ok (Advance (7 / 2))
   \<and> (\<exists>s'. run_op (Advance (7 / 2)) focus_sim = Some s' \<and> engine_ok s'
           \<and> 0 \<le> energy s' \<and> energy s' \<le> maxEnergy s'
           \<and> 0 \<le> comboPoints s' \<and> comboPoints s' \<le> maxComboPoints s')"
  using resources_stay_in_range [OF focus_sim_ok, of "Advance (7 / 2)"] focus_sim_ok
  by simp

end
